(* ===== verification/Prelude.thy ===== *)
theory Prelude
  imports Main "HOL-Library.Sublist"
begin

text \<open>
  What every component shares: the result of an operation that may fail, tables as lists of
  rows with the SQL operations the store uses on them, the clocks an operation reads, the
  part of Go's string library that the modelled code calls, and two generic contracts
  (a transition system with an invariant, and a one-shot marker) that the components
  interpret on their own steps.
\<close>

named_theorems row_simps
named_theorems op_defs

section \<open>Results\<close>

text \<open>
  A Go function that returns a value and an error is modelled as a sum: \<open>Inl e\<close> is the
  early return with error \<open>e\<close>, \<open>Inr v\<close> the normal return.  A store operation runs in a
  transaction with a deferred rollback, so an error leaves the database as it was; its
  success is \<open>Inr (value, new database)\<close>.
\<close>

fun res_bind :: "'e + 'a \<Rightarrow> ('a \<Rightarrow> 'e + 'b) \<Rightarrow> 'e + 'b" where
  "res_bind (Inl e) k = Inl e"
| "res_bind (Inr v) k = k v"

lemma res_bind_Inr: "res_bind m k = Inr b \<longleftrightarrow> (\<exists>a. m = Inr a \<and> k a = Inr b)"
  by (cases m) auto

lemma guard_Inr: "(if b then Inl e else m) = Inr r \<longleftrightarrow> \<not> b \<and> m = Inr r"
  by simp

fun is_ok :: "'e + 'a \<Rightarrow> bool" where
  "is_ok (Inl e) = False"
| "is_ok (Inr v) = True"

lemma is_ok_iff: "is_ok r \<longleftrightarrow> (\<exists>v. r = Inr v)"
  by (cases r) auto

section \<open>Tables\<close>

text \<open>
  A table is the list of its rows in insertion order.  \<open>sql_find\<close> is a query for one row,
  \<open>sql_update\<close> an UPDATE with a WHERE clause, \<open>sql_delete\<close> a DELETE, \<open>sql_count\<close> a
  COUNT and \<open>sql_exists\<close> an EXISTS.
\<close>

definition sql_find :: "('r \<Rightarrow> bool) \<Rightarrow> 'r list \<Rightarrow> 'r option" where
  "sql_find P t = find P t"

definition sql_update :: "('r \<Rightarrow> bool) \<Rightarrow> ('r \<Rightarrow> 'r) \<Rightarrow> 'r list \<Rightarrow> 'r list" where
  "sql_update P f t = map (\<lambda>r. if P r then f r else r) t"

definition sql_delete :: "('r \<Rightarrow> bool) \<Rightarrow> 'r list \<Rightarrow> 'r list" where
  "sql_delete P t = filter (\<lambda>r. \<not> P r) t"

definition sql_count :: "('r \<Rightarrow> bool) \<Rightarrow> 'r list \<Rightarrow> nat" where
  "sql_count P t = length (filter P t)"

definition sql_exists :: "('r \<Rightarrow> bool) \<Rightarrow> 'r list \<Rightarrow> bool" where
  "sql_exists P t = list_ex P t"

text \<open>ORDER BY ... LIMIT 1: the first row in the order \<open>le\<close>, ties kept in table order.\<close>

fun sql_first :: "('r \<Rightarrow> 'r \<Rightarrow> bool) \<Rightarrow> 'r list \<Rightarrow> 'r option" where
  "sql_first le [] = None"
| "sql_first le (r # rs) =
     (case sql_first le rs of
        None \<Rightarrow> Some r
      | Some m \<Rightarrow> Some (if le r m then r else m))"

lemma sql_find_Some: "sql_find P t = Some r \<Longrightarrow> r \<in> set t \<and> P r"
  by (auto simp: sql_find_def find_Some_iff)

lemma sql_find_None: "sql_find P t = None \<longleftrightarrow> (\<forall>r\<in>set t. \<not> P r)"
  by (auto simp: sql_find_def find_None_iff)

lemma sql_find_cong: "(\<And>r. r \<in> set t \<Longrightarrow> P r = Q r) \<Longrightarrow> sql_find P t = sql_find Q t"
  by (simp add: sql_find_def cong: find_cong)

lemma sql_exists_iff: "sql_exists P t \<longleftrightarrow> (\<exists>r\<in>set t. P r)"
  by (simp add: sql_exists_def list_ex_iff)

lemma sql_count_0: "sql_count P t = 0 \<longleftrightarrow> (\<forall>r\<in>set t. \<not> P r)"
  by (simp add: sql_count_def filter_empty_conv)

lemma set_sql_update: "set (sql_update P f t) = (\<lambda>r. if P r then f r else r) ` set t"
  by (simp add: sql_update_def)

lemma set_sql_delete [simp]: "set (sql_delete P t) = {r \<in> set t. \<not> P r}"
  by (auto simp: sql_delete_def)

lemma sql_update_none: "(\<And>r. r \<in> set t \<Longrightarrow> \<not> P r) \<Longrightarrow> sql_update P f t = t"
  by (simp add: sql_update_def map_idI)

lemma length_sql_update [simp]: "length (sql_update P f t) = length t"
  by (simp add: sql_update_def)

lemma in_sql_updateE:
  assumes "r \<in> set (sql_update P f t)"
  obtains (same) "r \<in> set t" "\<not> P r" | (upd) q where "q \<in> set t" "P q" "r = f q"
  using assms by (auto simp: set_sql_update split: if_splits)

lemma sql_count_le: "sql_count P t \<le> length t"
  by (simp add: sql_count_def)

lemma sql_first_in: "sql_first le t = Some r \<Longrightarrow> r \<in> set t"
  by (induction t arbitrary: r) (auto split: option.splits if_splits)

lemma sql_first_None [simp]: "sql_first le t = None \<longleftrightarrow> t = []"
  by (induction t) (auto split: option.splits)

text \<open>In a total, transitive order the row taken is below every other row.\<close>

lemma sql_first_least:
  assumes tot: "\<And>a b. le a b \<or> le b a"
    and trans: "\<And>a b c. le a b \<Longrightarrow> le b c \<Longrightarrow> le a c"
  shows "sql_first le t = Some r \<Longrightarrow> q \<in> set t \<Longrightarrow> le r q"
proof (induction t arbitrary: r)
  case Nil
  then show ?case by simp
next
  case (Cons x xs)
  have refl: "le a a" for a using tot by blast
  show ?case
  proof (cases "sql_first le xs")
    case None
    with Cons.prems refl show ?thesis by auto
  next
    case (Some m)
    with Cons.prems Cons.IH[OF Some] show ?thesis
      by (auto split: if_splits intro: trans refl dest: tot[THEN disjE])
        (use tot trans in blast)+
  qed
qed

subsection \<open>Rows with a key\<close>

text \<open>
  A primary key is a column with distinct values.  Under it a query by key finds the only
  such row, and an update by key changes that row and no other.
\<close>

definition unique_key :: "('r \<Rightarrow> 'k) \<Rightarrow> 'r list \<Rightarrow> bool" where
  "unique_key key t = distinct (map key t)"

lemma unique_keyD: "unique_key key t \<Longrightarrow> r \<in> set t \<Longrightarrow> q \<in> set t \<Longrightarrow> key r = key q \<Longrightarrow> r = q"
  by (auto simp: unique_key_def distinct_map dest: inj_onD)

lemma unique_key_update [row_simps]:
  "(\<And>r. key (f r) = key r) \<Longrightarrow> unique_key key (sql_update P f t) = unique_key key t"
  by (auto simp: unique_key_def sql_update_def comp_def if_distrib cong: if_cong)

lemma unique_key_append:
  "unique_key key (t @ [r]) \<longleftrightarrow> unique_key key t \<and> key r \<notin> key ` set t"
  by (auto simp: unique_key_def)

lemma unique_key_delete: "unique_key key t \<Longrightarrow> unique_key key (sql_delete P t)"
  by (simp add: unique_key_def sql_delete_def distinct_map_filter)

lemma unique_key_Nil [simp]: "unique_key key []"
  by (simp add: unique_key_def)

lemma sql_find_by_key:
  assumes "unique_key key t" "r \<in> set t"
  shows "sql_find (\<lambda>q. key q = key r) t = Some r"
proof (cases "sql_find (\<lambda>q. key q = key r) t")
  case None
  with assms(2) show ?thesis by (auto simp: sql_find_None)
next
  case (Some q)
  with assms sql_find_Some[OF Some] show ?thesis by (auto dest: unique_keyD)
qed

lemma sql_find_after_update:
  assumes "\<And>r. key (f r) = key r"
  shows "sql_find (\<lambda>q. key q = k) (sql_update (\<lambda>q. key q = k) f t)
         = map_option f (sql_find (\<lambda>q. key q = k) t)"
  using assms by (induction t) (auto simp: sql_find_def sql_update_def)

lemma sql_find_after_update_other:
  assumes "\<And>r. key (f r) = key r" "k' \<noteq> k"
  shows "sql_find (\<lambda>q. key q = k') (sql_update (\<lambda>q. key q = k) f t)
         = sql_find (\<lambda>q. key q = k') t"
  using assms by (induction t) (auto simp: sql_find_def sql_update_def)

lemma sql_find_append:
  "sql_find P (t @ [r]) = (case sql_find P t of Some q \<Rightarrow> Some q | None \<Rightarrow> if P r then Some r else None)"
  by (induction t) (auto simp: sql_find_def split: option.splits)

lemma sql_count_Cons [simp]:
  "sql_count P (r # rs) = (if P r then Suc (sql_count P rs) else sql_count P rs)"
  by (simp add: sql_count_def)

lemma sql_count_Nil [simp]: "sql_count P [] = 0"
  by (simp add: sql_count_def)

lemma sql_update_Cons [simp]:
  "sql_update P f (r # rs) = (if P r then f r else r) # sql_update P f rs"
  by (simp add: sql_update_def)

lemma sql_update_Nil [simp]: "sql_update P f [] = []"
  by (simp add: sql_update_def)

lemma sql_count_pos: "r \<in> set t \<Longrightarrow> Q r \<Longrightarrow> 0 < sql_count Q t"
  by (induction t) auto

lemma sql_count_update_key:
  assumes "unique_key key t" "r \<in> set t"
  shows "int (sql_count Q (sql_update (\<lambda>q. key q = key r) f t)) =
           int (sql_count Q t) - (if Q r then 1 else 0) + (if Q (f r) then 1 else 0)"
  using assms
proof (induction t)
  case Nil
  then show ?case by simp
next
  case (Cons x xs)
  show ?case
  proof (cases "r = x")
    case True
    with Cons.prems have "key r \<notin> key ` set xs" by (simp add: unique_key_def)
    then have "\<And>q. q \<in> set xs \<Longrightarrow> key q \<noteq> key r" by (metis imageI)
    then have "sql_update (\<lambda>q. key q = key r) f xs = xs" by (intro sql_update_none) auto
    with True show ?thesis by simp
  next
    case False
    with Cons.prems have "r \<in> set xs" "key x \<noteq> key r" "unique_key key xs"
      by (auto simp: unique_key_def)
    with Cons.IH show ?thesis by (simp split: if_splits)
  qed
qed

lemma sql_count_update_same:
  "(\<And>r. r \<in> set t \<Longrightarrow> P r \<Longrightarrow> Q (f r) = Q r) \<Longrightarrow> sql_count Q (sql_update P f t) = sql_count Q t"
  by (induction t) auto

lemma sql_count_shrinks:
  "(\<And>r. r \<in> set t \<Longrightarrow> P r \<Longrightarrow> Q (f r) \<Longrightarrow> Q r) \<Longrightarrow> sql_count Q (sql_update P f t) \<le> sql_count Q t"
  by (induction t) (auto simp: le_SucI)

lemma sql_count_delete: "sql_count Q (sql_delete P rs) \<le> sql_count Q rs"
  by (induction rs) (auto simp: sql_delete_def le_SucI)

lemma sql_count_append: "sql_count Q (s @ t) = sql_count Q s + sql_count Q t"
  by (simp add: sql_count_def)

lemma length_sql_delete_key:
  assumes "unique_key key t" "r \<in> set t"
  shows "length (sql_delete (\<lambda>q. key q = key r) t) + 1 = length t"
  using assms
proof (induction t)
  case Nil
  then show ?case by simp
next
  case (Cons x xs)
  show ?case
  proof (cases "r = x")
    case True
    with Cons.prems have "key r \<notin> key ` set xs" by (simp add: unique_key_def)
    then have "key q \<noteq> key r" if "q \<in> set xs" for q using that by (metis imageI)
    then have "sql_delete (\<lambda>q. key q = key r) xs = xs"
      by (simp add: sql_delete_def filter_id_conv)
    with True show ?thesis by (simp add: sql_delete_def)
  next
    case False
    with Cons.prems have "r \<in> set xs" "key x \<noteq> key r" "unique_key key xs"
      by (auto simp: unique_key_def)
    with Cons.IH show ?thesis by (simp add: sql_delete_def)
  qed
qed

text \<open>A view of the row found is kept by an update that keeps the condition and the view.\<close>

lemma sql_find_view_update:
  assumes "\<And>r. r \<in> set t \<Longrightarrow> P r \<Longrightarrow> Q (f r) = Q r \<and> (Q r \<longrightarrow> view (f r) = view r)"
  shows "map_option view (sql_find Q (sql_update P f t)) = map_option view (sql_find Q t)"
  using assms by (induction t) (auto simp: sql_find_def)

section \<open>Clocks\<close>

text \<open>
  The times one operation reads: \<open>tx_now\<close> is PostgreSQL's \<open>now()\<close> (the start of the
  transaction), \<open>tx_clock\<close> its \<open>clock_timestamp()\<close>, \<open>go_now\<close> the gateway's own
  \<open>time.Now()\<close> and \<open>msk_day\<close> the calendar day \<open>timezone('Europe/Moscow',now())::date\<close>.
  Instants are microseconds, the resolution of \<open>timestamptz\<close>; Go durations are
  nanoseconds.
\<close>

record clock =
  tx_now :: int
  tx_clock :: int
  go_now :: int
  msk_day :: int

text \<open>A moment for the small instances.\<close>

definition ex_now :: clock where
  "ex_now = \<lparr>tx_now = 1000000, tx_clock = 1000001, go_now = 1000002, msk_day = 20000\<rparr>"

definition usec :: "int \<Rightarrow> int" where
  "usec seconds = seconds * 1000000"

definition second_ns :: int where "second_ns = 1000000000"
definition minute_ns :: int where "minute_ns = 60000000000"

definition dur_seconds :: "int \<Rightarrow> int" where
  "dur_seconds d = (if d < 0 then - ((- d) div second_ns) else d div second_ns)"

text \<open>\<open>max(time.Since(t).Milliseconds(), 0)\<close> on instants in microseconds.\<close>

definition since_ms :: "int \<Rightarrow> int \<Rightarrow> int" where
  "since_ms now t = (if now \<le> t then 0 else (now - t) div 1000)"

lemma since_ms_nonneg: "0 \<le> since_ms now t"
  by (simp add: since_ms_def pos_imp_zdiv_nonneg_iff)

end
