(* ===== verification/Contracts.thy ===== *)
theory Contracts
  imports Prelude
begin

text \<open>
  The contracts the components share, stated once and interpreted on each component's own
  step relation: a transition system with an invariant, a quantity that every step
  conserves, a marker that is set at most once, and a state graph whose edges climb a rank.
\<close>

section \<open>Runs\<close>

inductive steps :: "('s \<Rightarrow> 's \<Rightarrow> bool) \<Rightarrow> 's \<Rightarrow> 's \<Rightarrow> bool" for step where
  steps_refl: "steps step s s"
| steps_snoc: "steps step s t \<Longrightarrow> step t u \<Longrightarrow> steps step s u"

declare steps_refl [simp, intro]

lemma steps_one: "step s t \<Longrightarrow> steps step s t"
  by (rule steps_snoc[OF steps_refl])

lemma steps_trans:
  assumes st: "steps step s t" and tu: "steps step t u"
  shows "steps step s u"
  using tu st by (induction rule: steps.induct) (auto intro: steps_snoc)

section \<open>A transition system with an invariant\<close>

locale transition_system =
  fixes init :: "'s \<Rightarrow> bool"
    and step :: "'s \<Rightarrow> 's \<Rightarrow> bool"
    and inv :: "'s \<Rightarrow> bool"
  assumes init_inv: "init s \<Longrightarrow> inv s"
    and step_inv: "step s t \<Longrightarrow> inv s \<Longrightarrow> inv t"
begin

lemma run_inv:
  assumes "steps step s t" and "inv s"
  shows "inv t"
  using assms by (induction rule: steps.induct) (auto intro: step_inv)

lemma run_sound:
  assumes "steps step s t" and "inv s"
  shows "steps (\<lambda>u v. inv u \<and> step u v) s t"
  using assms
proof (induction rule: steps.induct)
  case (steps_snoc s t u)
  then show ?case using run_inv by (blast intro: steps.steps_snoc)
qed simp

lemma reachable_inv: "init s \<Longrightarrow> steps step s t \<Longrightarrow> inv t"
  using run_inv init_inv by blast

end

section \<open>What a run does to the data\<close>

text \<open>
  \<open>evolves s t\<close> states how the data of \<open>t\<close> may differ from that of \<open>s\<close>: a preorder that
  contains every step from a state with the invariant.
\<close>

locale evolution = transition_system init step inv
  for init :: "'s \<Rightarrow> bool" and step :: "'s \<Rightarrow> 's \<Rightarrow> bool" and inv :: "'s \<Rightarrow> bool" +
  fixes evolves :: "'s \<Rightarrow> 's \<Rightarrow> bool"
  assumes evolves_refl: "evolves s s"
    and evolves_trans: "evolves s t \<Longrightarrow> evolves t u \<Longrightarrow> evolves s u"
    and step_evolves: "step s t \<Longrightarrow> inv s \<Longrightarrow> evolves s t"
begin

lemma run_evolves: "steps step s t \<Longrightarrow> inv s \<Longrightarrow> evolves s t"
proof (induction rule: steps.induct)
  case (steps_refl s)
  show ?case by (rule evolves_refl)
next
  case (steps_snoc s t u)
  then show ?case using run_inv step_evolves evolves_trans by blast
qed

end

section \<open>A conserved quantity\<close>

text \<open>A quantity that no step changes is one way in which every step evolves the data.\<close>

locale conserved = transition_system init step inv
  for init :: "'s \<Rightarrow> bool" and step :: "'s \<Rightarrow> 's \<Rightarrow> bool" and inv :: "'s \<Rightarrow> bool" +
  fixes amount :: "'s \<Rightarrow> 'v"
  assumes step_conserves: "step s t \<Longrightarrow> inv s \<Longrightarrow> amount t = amount s"

sublocale conserved \<subseteq> flow: evolution init step inv "\<lambda>s t. amount t = amount s"
  by unfold_locales (auto dest: step_conserves)

context conserved begin

lemma run_conserves: "steps step s t \<Longrightarrow> inv s \<Longrightarrow> amount t = amount s"
  by (rule flow.run_evolves)

end

section \<open>A marker set at most once\<close>

text \<open>
  \<open>fire k\<close> is the step that performs an external effect for the key \<open>k\<close>, \<open>marked s k\<close>
  the durable record that it was begun.  When the marker guards the step and no step clears
  it, the effect is begun at most once in any run.
\<close>

locale one_shot =
  fixes step :: "'s \<Rightarrow> 's \<Rightarrow> bool"
    and fire :: "'k \<Rightarrow> 's \<Rightarrow> 's \<Rightarrow> bool"
    and marked :: "'s \<Rightarrow> 'k \<Rightarrow> bool"
  assumes fire_unmarked: "fire k s t \<Longrightarrow> \<not> marked s k"
    and fire_marks: "fire k s t \<Longrightarrow> marked t k"
    and step_keeps: "step s t \<Longrightarrow> marked s k \<Longrightarrow> marked t k"
begin

lemma marked_for_good: "steps step s t \<Longrightarrow> marked s k \<Longrightarrow> marked t k"
  by (induction rule: steps.induct) (auto intro: step_keeps)

lemma at_most_once:
  assumes "fire k s t" and "steps step t u"
  shows "\<not> fire k u v"
  using assms marked_for_good[of t u k] fire_marks fire_unmarked by blast

end

section \<open>A component that answers like its specification\<close>

text \<open>
  Two machines that take one operation at a time and answer it.  The relation may look at the
  operations that are still to come, so that an assumption about the whole run (the clock
  does not go back, a table does not fill up) is part of it.
\<close>

fun answers :: "('o \<Rightarrow> 's \<Rightarrow> 'r \<times> 's) \<Rightarrow> 'o list \<Rightarrow> 's \<Rightarrow> 'r list \<times> 's" where
  "answers step [] s = ([], s)"
| "answers step (x # xs) s =
     (let (r, t) = step x s; (rs, u) = answers step xs t in (r # rs, u))"

locale answers_like =
  fixes impl :: "'o \<Rightarrow> 'c \<Rightarrow> 'r \<times> 'c"
    and spec :: "'o \<Rightarrow> 'a \<Rightarrow> 'r \<times> 'a"
    and rel :: "'o list \<Rightarrow> 'c \<Rightarrow> 'a \<Rightarrow> bool"
  assumes same_answer: "rel (x # xs) c a \<Longrightarrow> fst (impl x c) = fst (spec x a)"
    and rel_step: "rel (x # xs) c a \<Longrightarrow> rel xs (snd (impl x c)) (snd (spec x a))"
begin

lemma run_answers: "rel xs c a \<Longrightarrow> fst (answers impl xs c) = fst (answers spec xs a)"
proof (induction xs arbitrary: c a)
  case Nil
  show ?case by simp
next
  case (Cons x xs)
  from same_answer[OF Cons.prems] Cons.IH[OF rel_step[OF Cons.prems]]
  show ?case by (simp add: case_prod_beta Let_def)
qed

end

section \<open>A state graph whose edges climb\<close>

text \<open>A walk through a state graph: every two neighbours are joined by an edge and differ.\<close>

fun walk :: "('q \<Rightarrow> 'q \<Rightarrow> bool) \<Rightarrow> 'q list \<Rightarrow> bool" where
  "walk edge [] = True"
| "walk edge [p] = True"
| "walk edge (p # q # qs) = (p \<noteq> q \<and> edge p q \<and> walk edge (q # qs))"

locale ranked_states =
  fixes edge :: "'q \<Rightarrow> 'q \<Rightarrow> bool"
    and final :: "'q \<Rightarrow> bool"
    and rank :: "'q \<Rightarrow> nat"
    and top :: nat
  assumes edge_climbs: "edge p q \<Longrightarrow> p \<noteq> q \<Longrightarrow> rank p < rank q"
    and rank_top: "rank p \<le> top"
    and final_stuck: "final p \<Longrightarrow> edge p q \<Longrightarrow> q = p"
begin

lemma walk_rank: "walk edge (p # qs) \<Longrightarrow> rank p + length qs \<le> top"
proof (induction qs arbitrary: p)
  case Nil
  show ?case by (simp add: rank_top)
next
  case (Cons q qs)
  then have "rank q + length qs \<le> top" and "rank p < rank q"
    by (auto intro: edge_climbs)
  then show ?case by simp
qed

lemma walk_bounded: "walk edge ps \<Longrightarrow> length ps \<le> Suc top"
  using walk_rank by (cases ps) fastforce+

lemma walk_rank_above: "walk edge (p # qs) \<Longrightarrow> q \<in> set qs \<Longrightarrow> rank p < rank q"
proof (induction qs arbitrary: p)
  case Nil
  then show ?case by simp
next
  case (Cons r rs)
  then have "rank p < rank r" by (auto intro: edge_climbs)
  with Cons show ?case by (cases "q = r") (auto intro: less_trans)
qed

lemma walk_tl: "walk edge (p # qs) \<Longrightarrow> walk edge qs"
  by (cases qs) auto

lemma walk_distinct: "walk edge ps \<Longrightarrow> distinct ps"
proof (induction ps)
  case Nil
  then show ?case by simp
next
  case (Cons p qs)
  have "p \<notin> set qs" using walk_rank_above[OF Cons.prems, of p] by auto
  with Cons walk_tl[OF Cons.prems] show ?case by simp
qed

lemma final_last: "walk edge (p # qs) \<Longrightarrow> final p \<Longrightarrow> qs = []"
  using final_stuck by (cases qs) auto

end

end
