(* ===== verification/JobState.thy ===== *)
theory JobState
  imports Contracts
begin

text \<open>
  The life cycle of a generation job (\<open>domain/generation_job.go\<close>): its states, the
  predicates on them and the transition table.  The Go type is a named string, so a value
  outside the declared constants exists; it is \<open>UnknownState\<close> here.  The table is a walkable
  graph whose edges climb a rank, which interprets the contract \<open>ranked_states\<close>.
\<close>

datatype job_state =
    Draft | Preparing | Uploading | WaitingForResources | Queued | Running
  | Postprocessing | Archiving | Completed | Failed | Cancelled | Expired
  | UnknownState string

fun state_name :: "job_state \<Rightarrow> string" where
  "state_name Draft = ''draft''"
| "state_name Preparing = ''preparing''"
| "state_name Uploading = ''uploading''"
| "state_name WaitingForResources = ''waiting_for_resources''"
| "state_name Queued = ''queued''"
| "state_name Running = ''running''"
| "state_name Postprocessing = ''postprocessing''"
| "state_name Archiving = ''archiving''"
| "state_name Completed = ''completed''"
| "state_name Failed = ''failed''"
| "state_name Cancelled = ''cancelled''"
| "state_name Expired = ''expired''"
| "state_name (UnknownState s) = s"

definition declared_states :: "job_state list" where
  "declared_states =
     [Draft, Preparing, Uploading, WaitingForResources, Queued, Running,
      Postprocessing, Archiving, Completed, Failed, Cancelled, Expired]"


fun job_state_valid :: "job_state \<Rightarrow> bool" where
  "job_state_valid (UnknownState s) = (s \<in> state_name ` set declared_states)"
| "job_state_valid _ = True"

definition terminal :: "job_state \<Rightarrow> bool" where
  "terminal q = (q = Completed \<or> q = Failed \<or> q = Cancelled \<or> q = Expired)"

fun cancellable :: "job_state \<Rightarrow> bool" where
  "cancellable Draft = True"
| "cancellable Preparing = True"
| "cancellable Uploading = True"
| "cancellable WaitingForResources = True"
| "cancellable Queued = True"
| "cancellable Running = True"
| "cancellable _ = False"

text \<open>The map \<open>generationJobTransitions\<close>: \<open>None\<close> for a state that is no key of it.\<close>

fun job_transitions :: "job_state \<Rightarrow> job_state list option" where
  "job_transitions Draft = Some [Preparing, Failed, Cancelled, Expired]"
| "job_transitions Preparing =
     Some [Uploading, WaitingForResources, Failed, Cancelled, Expired]"
| "job_transitions Uploading = Some [WaitingForResources, Failed, Cancelled, Expired]"
| "job_transitions WaitingForResources = Some [Queued, Failed, Cancelled, Expired]"
| "job_transitions Queued = Some [Running, Postprocessing, Failed, Cancelled, Expired]"
| "job_transitions Running = Some [Postprocessing, Failed, Cancelled, Expired]"
| "job_transitions Postprocessing = Some [Archiving, Failed, Expired]"
| "job_transitions Archiving = Some [Completed, Failed, Expired]"
| "job_transitions _ = None"

definition can_transition :: "job_state \<Rightarrow> job_state \<Rightarrow> bool" where
  "can_transition from_st to_st =
     (if from_st = to_st then job_state_valid from_st
      else (case job_transitions from_st of
              None \<Rightarrow> False
            | Some nexts \<Rightarrow> to_st \<in> set nexts))"

section \<open>The graph\<close>


fun job_rank :: "job_state \<Rightarrow> nat" where
  "job_rank Draft = 0"
| "job_rank Preparing = 1"
| "job_rank Uploading = 2"
| "job_rank WaitingForResources = 3"
| "job_rank Queued = 4"
| "job_rank Running = 5"
| "job_rank Postprocessing = 6"
| "job_rank Archiving = 7"
| "job_rank _ = 8"

lemma can_transition_rank: "can_transition p q \<Longrightarrow> p \<noteq> q \<Longrightarrow> job_rank p < job_rank q"
  by (cases p) (auto simp: can_transition_def)

lemma terminal_stuck: "terminal p \<Longrightarrow> can_transition p q \<Longrightarrow> q = p"
  by (auto simp: terminal_def can_transition_def split: if_splits)

lemma job_rank_le: "job_rank p \<le> 8"
  by (cases p) auto

interpretation job_graph: ranked_states can_transition terminal job_rank 8
  by unfold_locales (auto intro: can_transition_rank job_rank_le dest: terminal_stuck)


lemma terminal_valid: "terminal q \<Longrightarrow> job_state_valid q"
  by (auto simp: terminal_def)


lemma cancellable_not_terminal: "cancellable q \<Longrightarrow> \<not> terminal q"
  by (cases q) (auto simp: terminal_def)

lemma can_transition_valid: "can_transition p q \<Longrightarrow> job_state_valid q"
  by (cases p) (auto simp: can_transition_def split: if_splits)

section \<open>Properties\<close>

text \<open>C24: A walk through the transition table that changes the state at every step visits no
  state twice and has at most nine states; from a terminal state there is none.  So a job's
  life is finite whatever the workers do, and a finished job is never reopened.\<close>

theorem job_walk_bounded:
  "walk can_transition (p # qs) \<Longrightarrow>
     distinct (p # qs) \<and> length (p # qs) \<le> 9 \<and> (terminal p \<longrightarrow> qs = [])"
  using job_graph.walk_distinct[of "p # qs"] job_graph.walk_bounded[of "p # qs"]
    job_graph.final_last[of p qs] by simp

lemma job_walk_bounded_witness:
  "distinct [Draft, Preparing, Uploading, WaitingForResources, Queued, Running,
     Postprocessing, Archiving, Completed]"
  using job_walk_bounded[of Draft "[Preparing, Uploading, WaitingForResources, Queued, Running,
     Postprocessing, Archiving, Completed]"]
  by (simp add: can_transition_def)


end
