(* ===== verification/GoText.thy ===== *)
theory GoText
  imports Prelude "HOL-Library.Char_ord"
begin

text \<open>
  Go strings are byte strings; a \<open>string\<close> here is the list of their bytes.  UTF-8 decoding
  is \<open>unicode/utf8\<close>'s: \<open>rune_step\<close> tells whether the bytes begin with a well-formed
  encoding and how many bytes the next rune takes (one byte for an ill-formed one).
  \<open>trim_space\<close> is \<open>strings.TrimSpace\<close>, which strips the Unicode white space characters.
\<close>

definition utf8_cont :: "nat \<Rightarrow> bool" where
  "utf8_cont b = (128 \<le> b \<and> b \<le> 191)"

fun utf8_second :: "nat \<Rightarrow> nat \<Rightarrow> bool" where
  "utf8_second lead b =
     (if lead = 224 then 160 \<le> b \<and> b \<le> 191
      else if lead = 237 then 128 \<le> b \<and> b \<le> 159
      else if lead = 240 then 144 \<le> b \<and> b \<le> 191
      else if lead = 244 then 128 \<le> b \<and> b \<le> 143
      else utf8_cont b)"

fun rune_step :: "nat list \<Rightarrow> bool \<times> nat" where
  "rune_step [] = (True, 0)"
| "rune_step (b # bs) =
     (if b < 128 then (True, 1)
      else if 194 \<le> b \<and> b \<le> 223 then
        (case bs of b1 # _ \<Rightarrow> if utf8_cont b1 then (True, 2) else (False, 1) | [] \<Rightarrow> (False, 1))
      else if 224 \<le> b \<and> b \<le> 239 then
        (case bs of b1 # b2 # _ \<Rightarrow>
           if utf8_second b b1 \<and> utf8_cont b2 then (True, 3) else (False, 1)
         | _ \<Rightarrow> (False, 1))
      else if 240 \<le> b \<and> b \<le> 244 then
        (case bs of b1 # b2 # b3 # _ \<Rightarrow>
           if utf8_second b b1 \<and> utf8_cont b2 \<and> utf8_cont b3 then (True, 4) else (False, 1)
         | _ \<Rightarrow> (False, 1))
      else (False, 1))"

text \<open>One flag per rune: was it well formed?\<close>

function runes :: "nat list \<Rightarrow> bool list" where
  "runes [] = []"
| "runes (b # bs) = (let (ok, n) = rune_step (b # bs) in ok # runes (drop (n - 1) bs))"
  by pat_completeness auto
termination
  by (relation "measure length") auto

definition bytes_of :: "string \<Rightarrow> nat list" where
  "bytes_of s = map of_char s"

definition utf8_valid :: "string \<Rightarrow> bool" where
  "utf8_valid s = list_all (\<lambda>ok. ok) (runes (bytes_of s))"

definition rune_count :: "string \<Rightarrow> nat" where
  "rune_count s = length (runes (bytes_of s))"

text \<open>The text of a code point list, for the Cyrillic literals of the code.\<close>

definition utf8_enc :: "nat \<Rightarrow> string" where
  "utf8_enc c =
     (if c < 128 then [char_of c]
      else if c < 2048 then [char_of (192 + c div 64), char_of (128 + c mod 64)]
      else [char_of (224 + c div 4096), char_of (128 + c div 64 mod 64), char_of (128 + c mod 64)])"

definition utf8_text :: "nat list \<Rightarrow> string" where
  "utf8_text cs = concat (map utf8_enc cs)"

text \<open>The encodings of the runes for which \<open>unicode.IsSpace\<close> holds.\<close>

definition space_encodings :: "string list" where
  "space_encodings =
     [[CHR 0x09], [CHR 0x0A], [CHR 0x0B],
      [CHR 0x0C], [CHR 0x0D], [CHR 0x20],
      [CHR 0xC2, CHR 0x85], [CHR 0xC2, CHR 0xA0], [CHR 0xE1, CHR 0x9A, CHR 0x80],
      [CHR 0xE2, CHR 0x80, CHR 0x80], [CHR 0xE2, CHR 0x80, CHR 0x81], [CHR 0xE2, CHR 0x80, CHR 0x82],
      [CHR 0xE2, CHR 0x80, CHR 0x83], [CHR 0xE2, CHR 0x80, CHR 0x84], [CHR 0xE2, CHR 0x80, CHR 0x85],
      [CHR 0xE2, CHR 0x80, CHR 0x86], [CHR 0xE2, CHR 0x80, CHR 0x87], [CHR 0xE2, CHR 0x80, CHR 0x88],
      [CHR 0xE2, CHR 0x80, CHR 0x89], [CHR 0xE2, CHR 0x80, CHR 0x8A], [CHR 0xE2, CHR 0x80, CHR 0xA8],
      [CHR 0xE2, CHR 0x80, CHR 0xA9], [CHR 0xE2, CHR 0x80, CHR 0xAF], [CHR 0xE2, CHR 0x81, CHR 0x9F],
      [CHR 0xE3, CHR 0x80, CHR 0x80]]"

fun strip_go :: "string list \<Rightarrow> nat \<Rightarrow> string \<Rightarrow> string" where
  "strip_go ws k [] = []"
| "strip_go ws (Suc k) (c # s) = strip_go ws k s"
| "strip_go ws 0 (c # s) =
     (case find (\<lambda>w. w \<noteq> [] \<and> prefix w (c # s)) ws of
        None \<Rightarrow> c # s
      | Some w \<Rightarrow> strip_go ws (length w - 1) s)"

text \<open>The counter holds the bytes of the current white space rune still to be skipped.\<close>

definition strip_prefixes :: "string list \<Rightarrow> string \<Rightarrow> string" where
  "strip_prefixes ws s = strip_go ws 0 s"

definition trim_left :: "string \<Rightarrow> string" where
  "trim_left s = strip_prefixes space_encodings s"

definition trim_right :: "string \<Rightarrow> string" where
  "trim_right s = rev (strip_prefixes (map rev space_encodings) (rev s))"

definition trim_space :: "string \<Rightarrow> string" where
  "trim_space s = trim_right (trim_left s)"

lemma strip_go_suffix: "suffix (strip_go ws k s) s"
  by (induction ws k s rule: strip_go.induct)
    (auto split: option.splits intro: suffix_ConsI)

lemma strip_prefixes_suffix: "suffix (strip_prefixes ws s) s"
  by (simp add: strip_prefixes_def strip_go_suffix)

lemma length_strip_prefixes: "length (strip_prefixes ws s) \<le> length s"
  using strip_prefixes_suffix[of ws s] by (rule suffix_length_le)

lemma length_trim_space: "length (trim_space s) \<le> length s"
proof -
  have "length (trim_right (trim_left s)) \<le> length (trim_left s)"
    using length_strip_prefixes[of "map rev space_encodings" "rev (trim_left s)"]
    by (simp add: trim_right_def)
  moreover have "length (trim_left s) \<le> length s"
    by (simp add: trim_left_def length_strip_prefixes)
  ultimately show ?thesis by (simp add: trim_space_def)
qed

lemma strip_go_stable: "strip_go ws 0 (strip_go ws k s) = strip_go ws k s"
  by (induction ws k s rule: strip_go.induct) (auto split: option.splits)

lemma strip_prefixes_idem: "strip_prefixes ws (strip_prefixes ws s) = strip_prefixes ws s"
  by (simp add: strip_prefixes_def strip_go_stable)

lemma trim_right_idem: "trim_right (trim_right s) = trim_right s"
  by (simp add: trim_right_def strip_prefixes_idem)

lemma trim_right_prefix: "prefix (trim_right s) s"
proof -
  have "suffix (strip_prefixes (map rev space_encodings) (rev s)) (rev s)"
    by (rule strip_prefixes_suffix)
  then show ?thesis by (simp add: trim_right_def suffix_to_prefix)
qed

text \<open>Text that a PostgreSQL \<open>TEXT\<close> column of at most \<open>n\<close> characters accepts.\<close>

definition pg_text :: "nat \<Rightarrow> string \<Rightarrow> bool" where
  "pg_text n s = (utf8_valid s \<and> CHR 0x00 \<notin> set s \<and> rune_count s \<le> n)"

lemma pg_text_Nil [simp]: "pg_text n []"
  by (simp add: pg_text_def utf8_valid_def rune_count_def bytes_of_def)

text \<open>The encoding of Latin and Cyrillic code points is well formed, one rune for each.\<close>

lemma bytes_of_enc:
  "c < 2048 \<Longrightarrow> bytes_of (utf8_enc c) = (if c < 128 then [c] else [192 + c div 64, 128 + c mod 64])"
  by (simp add: bytes_of_def utf8_enc_def)

lemma runes_enc:
  assumes "c < 2048"
  shows "runes (bytes_of (utf8_enc c) @ bs) = True # runes bs"
proof (cases "c < 128")
  case False
  then have "2 \<le> c div 64" "c div 64 \<le> 31" using assms by auto
  then show ?thesis using False assms by (simp add: bytes_of_enc utf8_cont_def)
qed (simp add: bytes_of_enc)

lemma runes_utf8_text:
  "list_all (\<lambda>c. c < 2048) cs \<Longrightarrow> runes (bytes_of (utf8_text cs)) = replicate (length cs) True"
proof (induction cs)
  case (Cons c cs)
  then show ?case using runes_enc[of c "bytes_of (utf8_text cs)"]
    by (simp add: utf8_text_def bytes_of_def)
qed (simp add: utf8_text_def bytes_of_def)

lemma utf8_enc_no_null: "0 < c \<Longrightarrow> c < 2048 \<Longrightarrow> CHR 0x00 \<notin> set (utf8_enc c)"
proof -
  assume c: "0 < c" "c < 2048"
  have "0 \<notin> set (bytes_of (utf8_enc c))" using c by (simp add: bytes_of_enc)
  then show ?thesis by (force simp: bytes_of_def)
qed

lemma pg_text_utf8_text:
  assumes "list_all (\<lambda>c. 0 < c \<and> c < 2048) cs" "length cs \<le> n"
  shows "pg_text n (utf8_text cs)"
proof -
  have "list_all (\<lambda>c. c < 2048) cs" using assms(1) by (auto simp: list_all_iff)
  moreover have "CHR 0x00 \<notin> set (utf8_text cs)"
    using assms(1) utf8_enc_no_null by (auto simp: utf8_text_def list_all_iff)
  ultimately show ?thesis using assms(2)
    by (simp add: pg_text_def utf8_valid_def rune_count_def runes_utf8_text list_all_iff)
qed

section \<open>Texts without white space at their ends\<close>

text \<open>A Latin or Cyrillic code point that is no white space.\<close>

definition ink :: "nat \<Rightarrow> bool" where
  "ink c = (0 < c \<and> c < 2048 \<and> c \<notin> {9, 10, 11, 12, 13, 32, 133, 160})"

lemma bytes_of_append: "bytes_of (s @ t) = bytes_of s @ bytes_of t"
  by (simp add: bytes_of_def)

lemma bytes_of_rev: "bytes_of (rev s) = rev (bytes_of s)"
  by (simp add: bytes_of_def rev_map)

lemma prefix_bytes: "prefix w s \<Longrightarrow> prefix (bytes_of w) (bytes_of s)"
  by (auto simp: bytes_of_def prefix_def)

lemma strip_none: "list_all (\<lambda>w. \<not> prefix w s) ws \<Longrightarrow> strip_prefixes ws s = s"
  by (cases s) (auto simp: strip_prefixes_def list_all_iff find_Some_iff split: option.split)

lemma space_bytes:
  "map bytes_of space_encodings =
     [[9], [10], [11], [12], [13], [32], [194, 133], [194, 160], [225, 154, 128],
      [226, 128, 128], [226, 128, 129], [226, 128, 130], [226, 128, 131], [226, 128, 132],
      [226, 128, 133], [226, 128, 134], [226, 128, 135], [226, 128, 136], [226, 128, 137],
      [226, 128, 138], [226, 128, 168], [226, 128, 169], [226, 128, 175], [226, 129, 159],
      [227, 128, 128]]"
  by code_simp

lemma ink_bytes:
  assumes "ink c"
  obtains (one) "bytes_of (utf8_enc c) = [c]" "c < 128"
    | (two) q r where "bytes_of (utf8_enc c) = [192 + q, 128 + r]" "q < 32" "\<not> (q = 2 \<and> (r = 5 \<or> r = 32))"
proof (cases "c < 128")
  case True
  then show ?thesis using one by (simp add: bytes_of_enc)
next
  case False
  have c: "c < 2048" using assms by (simp add: ink_def)
  have "c = 64 * (c div 64) + c mod 64" by simp
  moreover have "c \<noteq> 133" "c \<noteq> 160" using assms by (auto simp: ink_def)
  ultimately have "\<not> (c div 64 = 2 \<and> (c mod 64 = 5 \<or> c mod 64 = 32))" by linarith
  moreover have "c div 64 < 32" using c by simp
  ultimately show ?thesis using two[of "c div 64" "c mod 64"] False c by (simp add: bytes_of_enc)
qed

lemma ink_no_space_prefix:
  assumes "ink c"
  shows "list_all (\<lambda>w. \<not> prefix w (bytes_of (utf8_enc c) @ bs)) (map bytes_of space_encodings)"
    and "list_all (\<lambda>w. \<not> prefix (rev w) (rev (bytes_of (utf8_enc c)) @ bs)) (map bytes_of space_encodings)"
proof -
  have "list_all (\<lambda>w. \<not> prefix w (bytes_of (utf8_enc c) @ bs)) (map bytes_of space_encodings) \<and>
    list_all (\<lambda>w. \<not> prefix (rev w) (rev (bytes_of (utf8_enc c)) @ bs)) (map bytes_of space_encodings)"
    using assms
  proof (cases rule: ink_bytes)
    case one
    with assms show ?thesis unfolding space_bytes by (simp add: ink_def)
  next
    case (two q r)
    then show ?thesis unfolding space_bytes by auto
  qed
  then show "list_all (\<lambda>w. \<not> prefix w (bytes_of (utf8_enc c) @ bs)) (map bytes_of space_encodings)"
    and "list_all (\<lambda>w. \<not> prefix (rev w) (rev (bytes_of (utf8_enc c)) @ bs)) (map bytes_of space_encodings)"
    by blast+
qed

lemma trim_ink:
  assumes "ink c" "ink d"
  shows "trim_space (utf8_enc c @ s) = trim_right (utf8_enc c @ s)"
    and "trim_right (s @ utf8_enc d) = s @ utf8_enc d"
proof -
  have "list_all (\<lambda>w. \<not> prefix w (utf8_enc c @ s)) space_encodings"
    using ink_no_space_prefix(1)[OF assms(1), of "bytes_of s"]
    by (auto simp: list_all_iff bytes_of_append dest: prefix_bytes)
  then show "trim_space (utf8_enc c @ s) = trim_right (utf8_enc c @ s)"
    by (simp add: trim_space_def trim_left_def strip_none)
  have "\<not> prefix (rev w) (rev (utf8_enc d) @ rev s)" if "w \<in> set space_encodings" for w
    using ink_no_space_prefix(2)[OF assms(2), of "bytes_of (rev s)"] that
      prefix_bytes[of "rev w" "rev (utf8_enc d) @ rev s"]
    by (auto simp: list_all_iff bytes_of_append bytes_of_rev)
  then have "list_all (\<lambda>w. \<not> prefix w (rev (s @ utf8_enc d))) (map rev space_encodings)"
    by (auto simp: list_all_iff)
  then show "trim_right (s @ utf8_enc d) = s @ utf8_enc d"
    by (simp only: trim_right_def strip_none rev_rev_ident)
qed

lemma trim_space_utf8_text:
  assumes "cs \<noteq> []" "ink (hd cs)" "ink (last cs)"
  shows "trim_space (utf8_text cs) = utf8_text cs"
proof -
  have "utf8_text cs = utf8_enc (hd cs) @ utf8_text (tl cs)"
    using assms(1) by (cases cs) (simp_all add: utf8_text_def)
  moreover have "utf8_text cs = utf8_text (butlast cs) @ utf8_enc (last cs)"
  proof -
    have "utf8_text (butlast cs @ [last cs]) = utf8_text (butlast cs) @ utf8_enc (last cs)"
      by (simp add: utf8_text_def del: append_butlast_last_id)
    with assms(1) show ?thesis by simp
  qed
  ultimately show ?thesis using trim_ink[OF assms(2,3)] by metis
qed

section \<open>Evaluation on ASCII texts\<close>

text \<open>The bits of an ASCII character other than NUL; these equations let such texts be checked
  without decoding them.\<close>

fun ascii_char :: "char \<Rightarrow> bool" where
  "ascii_char (Char b0 b1 b2 b3 b4 b5 b6 b7) = (\<not> b7 \<and> (b0 \<or> b1 \<or> b2 \<or> b3 \<or> b4 \<or> b5 \<or> b6))"

lemma ascii_char_code: "ascii_char c \<Longrightarrow> 0 < (of_char c :: nat) \<and> (of_char c :: nat) < 128"
  by (cases c) (auto split: if_splits)

lemma ascii_text: "list_all ascii_char s \<Longrightarrow> utf8_text (map of_char s) = s"
proof (induction s)
  case (Cons c s)
  then have "(of_char c :: nat) < 128" using ascii_char_code by simp
  with Cons show ?case by (simp add: utf8_text_def utf8_enc_def)
qed (simp add: utf8_text_def)

lemma ascii_codes: "list_all ascii_char s \<Longrightarrow> list_all (\<lambda>c :: nat. 0 < c \<and> c < 2048) (map of_char s)"
  using ascii_char_code by (fastforce simp: list_all_iff)

lemma rune_count_ascii [code]:
  "rune_count s = (if list_all ascii_char s then length s else length (runes (bytes_of s)))"
proof (cases "list_all ascii_char s")
  case True
  have "list_all (\<lambda>c :: nat. c < 2048) (map of_char s)" using ascii_codes[OF True] by (simp add: list_all_iff)
  from runes_utf8_text[OF this] True show ?thesis by (simp add: rune_count_def ascii_text)
qed (simp add: rune_count_def)

lemma pg_text_ascii [code]:
  "pg_text n s = (if list_all ascii_char s then length s \<le> n
     else utf8_valid s \<and> CHR 0x00 \<notin> set s \<and> rune_count s \<le> n)"
proof (cases "list_all ascii_char s")
  case True
  have "pg_text (length s) s" using pg_text_utf8_text[OF ascii_codes[OF True], of "length s"] True by (simp add: ascii_text)
  with True show ?thesis by (simp add: pg_text_def rune_count_ascii)
qed (simp add: pg_text_def)

end
