(* ===== verification/Schema.thy ===== *)
theory Schema
  imports JobState GoText
begin

text \<open>
  The tables of the generation store as rows and lists of rows (\<open>database/migrations.go\<close>),
  with the CHECK constraints and unique indexes that can abort an operation, and the rows the
  Go code reads (\<open>domain/generation_job.go\<close>).  A nullable column is an option.  Sequences
  hand out the next id; gaps left by rolled back transactions are not modelled.
\<close>

datatype quota_kind = ImageQuota | VideoQuota
datatype quota_period = Daily | Total

text \<open>The error a store operation returns; wrapped texts are dropped.\<close>

datatype store_error =
    ErrNoRows | ErrConstraint | ErrIdentity | ErrParentConflict | ErrStateConflict
  | ErrPromptRequired | ErrPromptBound | ErrInvalidState | ErrInvalidAttempt | ErrFailureDetail
  | ErrQuotaForbidden | ErrQuotaLimit quota_kind quota_period
  | ErrDailyLimit | ErrTotalLimit
  | ErrGpuInput | ErrGpuConflict
  | ErrBatchInput | ErrBatchConflict | ErrBatchWinner

section \<open>Rows\<close>

record job_row =
  j_id :: int
  j_public_id :: string
  j_correlation_id :: string
  j_user_id :: "int option"
  j_username :: string
  j_request_id :: string
  j_parent_job_id :: "int option"
  j_batch_id :: "int option"
  j_batch_position :: int
  j_experiment_value :: string
  j_prompt_id :: "string option"
  j_template_id :: string
  j_workflow_id :: string
  j_model_name :: string
  j_seed :: int
  j_payload_cipher :: "string option"
  j_state :: job_state
  j_status_message :: string
  j_error_code :: string
  j_error_message :: string
  j_attempt :: int
  j_dependencies :: "string list"
  j_input_count :: int
  j_state_changed_at :: int
  j_started_at :: "int option"
  j_finished_at :: "int option"
  j_resources_released_at :: "int option"
  j_quota_reserved_on :: "int option"
  j_quota_committed_at :: "int option"
  j_cancel_requested_at :: "int option"
  j_cancel_confirmed_at :: "int option"
  j_created_at :: int
  j_updated_at :: int
  j_dispatch_queued_at :: "int option"
  j_dispatch_token :: string
  j_dispatch_until :: "int option"
  j_dispatch_closed_at :: "int option"
  j_submission_started_at :: "int option"
  j_submission_rejected_at :: "int option"

record transition_row =
  t_job_id :: int
  t_correlation_id :: string
  t_from :: "job_state option"
  t_to :: job_state
  t_message :: string
  t_error_code :: string
  t_error_message :: string
  t_attempt :: int
  t_duration_ms :: int
  t_created_at :: int

record request_row =
  q_user_id :: int
  q_request_id :: string
  q_prompt_id :: "string option"
  q_job_id :: "int option"
  q_correlation_id :: string
  q_updated_at :: int

record user_row =
  u_id :: int
  u_disabled :: bool
  u_expires_at :: "int option"
  u_can_quick :: bool
  u_image_daily_limit :: int
  u_image_total_limit :: int
  u_image_total_used :: int
  u_video_daily_limit :: int
  u_video_total_limit :: int
  u_video_total_used :: int
  u_queue_priority :: bool

record usage_row =
  d_user_id :: int
  d_date :: int
  d_used :: int
  d_video_used :: int

record pref_row =
  p_user_id :: int
  p_in_app :: bool
  p_success :: bool

datatype notification_kind = NotifyCompleted | NotifyFailed

record notification_row =
  n_user_id :: int
  n_job_id :: int
  n_kind :: notification_kind
  n_title :: string
  n_message :: string
  n_href :: string

record lease_row =
  l_id :: string
  l_correlation_id :: string
  l_prompt_id :: "string option"
  l_user_id :: int
  l_miner_id :: int
  l_script_path :: string
  l_process_name :: string
  l_resume_mining :: bool
  l_job_id :: "int option"
  l_lora_job_id :: "int option"
  l_resume_ready :: bool
  l_created_at :: int

datatype batch_mode = SeedsMode | ParameterMode | UnknownMode string

record batch_row =
  b_id :: int
  b_public_id :: string
  b_user_id :: "int option"
  b_username :: string
  b_request_id :: string
  b_parent_batch_id :: "int option"
  b_source_job_id :: "int option"
  b_winner_job_id :: "int option"
  b_template_id :: string
  b_workflow_id :: string
  b_model_name :: string
  b_mode :: batch_mode
  b_parameter_name :: string
  b_parameter_values :: "string list"
  b_seed_locked :: bool
  b_total_count :: int
  b_max_parallel :: int
  b_cancel_requested_at :: "int option"
  b_created_at :: int
  b_updated_at :: int

record db =
  jobs :: "job_row list"
  next_job_id :: int
  transitions :: "transition_row list"
  requests :: "request_row list"
  users :: "user_row list"
  usage :: "usage_row list"
  prefs :: "pref_row list"
  notifications :: "notification_row list"
  notif_revisions :: "(int \<times> int) list"
  leases :: "lease_row list"
  batches :: "batch_row list"
  next_batch_id :: int
  job_revision :: int

definition empty_db :: db where
  "empty_db =
     \<lparr>jobs = [], next_job_id = 1, transitions = [], requests = [], users = [], usage = [],
      prefs = [], notifications = [], notif_revisions = [], leases = [], batches = [],
      next_batch_id = 1, job_revision = 1\<rparr>"

section \<open>Column checks\<close>

definition slug_char :: "char \<Rightarrow> bool" where
  "slug_char c =
     (let n = of_char c :: nat in
      48 \<le> n \<and> n \<le> 57 \<or> 65 \<le> n \<and> n \<le> 90 \<or> 97 \<le> n \<and> n \<le> 122 \<or> n = 95 \<or> n = 45)"

text \<open>\<open>char_length(x) BETWEEN 16 AND 96 AND x ~ '^[A-Za-z0-9_-]+$'\<close>\<close>

definition slug_text :: "string \<Rightarrow> bool" where
  "slug_text s = (16 \<le> length s \<and> length s \<le> 96 \<and> list_all slug_char s)"

definition text_between :: "nat \<Rightarrow> nat \<Rightarrow> string \<Rightarrow> bool" where
  "text_between lo hi s = (pg_text hi s \<and> lo \<le> rune_count s)"

fun opt_check :: "('a \<Rightarrow> bool) \<Rightarrow> 'a option \<Rightarrow> bool" where
  "opt_check P None = True"
| "opt_check P (Some x) = P x"

definition job_row_ok :: "job_row \<Rightarrow> bool" where
  "job_row_ok j =
     (slug_text (j_public_id j) \<and>
      (j_correlation_id j = [] \<or> slug_text (j_correlation_id j)) \<and>
      pg_text 128 (j_username j) \<and>
      text_between 1 128 (j_request_id j) \<and>
      opt_check (text_between 1 128) (j_prompt_id j) \<and>
      pg_text 256 (j_template_id j) \<and> pg_text 256 (j_workflow_id j) \<and>
      pg_text 512 (j_model_name j) \<and>
      job_state_valid (j_state j) \<and>
      pg_text 500 (j_status_message j) \<and> pg_text 80 (j_error_code j) \<and>
      pg_text 4000 (j_error_message j) \<and>
      1 \<le> j_attempt j \<and> j_attempt j \<le> 100 \<and>
      0 \<le> j_input_count j \<and> j_input_count j \<le> 16 \<and>
      0 \<le> j_batch_position j \<and> j_batch_position j \<le> 20 \<and>
      pg_text 128 (j_experiment_value j))"

text \<open>
  The primary key and the unique indexes; a NULL never conflicts.  \<open>job_conflict j k\<close>: two
  different rows may not stand in the table together.
\<close>

definition job_conflict :: "job_row \<Rightarrow> job_row \<Rightarrow> bool" where
  "job_conflict j k =
     (j_id j = j_id k \<or> j_public_id j = j_public_id k \<or>
      (j_prompt_id j \<noteq> None \<and> j_prompt_id j = j_prompt_id k) \<or>
      (j_user_id j \<noteq> None \<and> j_user_id j = j_user_id k \<and> j_request_id j = j_request_id k) \<or>
      (j_batch_id j \<noteq> None \<and> j_batch_id j = j_batch_id k \<and>
       j_batch_position j = j_batch_position k))"

fun no_conflicts :: "('r \<Rightarrow> 'r \<Rightarrow> bool) \<Rightarrow> 'r list \<Rightarrow> bool" where
  "no_conflicts C [] = True"
| "no_conflicts C (r # rs) = (list_all (\<lambda>q. \<not> C r q) rs \<and> no_conflicts C rs)"

definition request_conflict :: "request_row \<Rightarrow> request_row \<Rightarrow> bool" where
  "request_conflict p q =
     (q_user_id p = q_user_id q \<and> q_request_id p = q_request_id q \<or>
      (q_prompt_id p \<noteq> None \<and> q_prompt_id p = q_prompt_id q) \<or>
      (q_job_id p \<noteq> None \<and> q_job_id p = q_job_id q))"

definition request_row_ok :: "request_row \<Rightarrow> bool" where
  "request_row_ok q =
     (pg_text (length (q_request_id q)) (q_request_id q) \<and>
      opt_check (\<lambda>p. pg_text (length p) p) (q_prompt_id q) \<and>
      (q_correlation_id q = [] \<or> slug_text (q_correlation_id q)))"

definition transition_row_ok :: "transition_row \<Rightarrow> bool" where
  "transition_row_ok t =
     (opt_check job_state_valid (t_from t) \<and> job_state_valid (t_to t) \<and>
      pg_text 500 (t_message t) \<and> pg_text 80 (t_error_code t) \<and>
      pg_text 4000 (t_error_message t) \<and> 1 \<le> t_attempt t \<and> t_attempt t \<le> 100 \<and>
      (t_correlation_id t = [] \<or> slug_text (t_correlation_id t)) \<and> 0 \<le> t_duration_ms t)"

definition user_exists :: "int \<Rightarrow> db \<Rightarrow> bool" where
  "user_exists uid db = sql_exists (\<lambda>u. u_id u = uid) (users db)"

end
