(* ===== verification/JobTable.thy ===== *)
theory JobTable
  imports Schema
begin

text \<open>
  The table \<open>generation_jobs\<close> under the statements the store runs on it: queries by key,
  UPDATE ... RETURNING and INSERT ... ON CONFLICT DO NOTHING, each with the constraint
  violations that abort the transaction.  \<open>job_inv\<close> is what holds of every row between
  operations, \<open>row_evolves\<close> how a row may change over time; both are proved once for the two
  statements and then only have to be checked on the columns an operation writes.
\<close>

section \<open>Statements\<close>

text \<open>\<open>scanGenerationJob\<close> refuses a row whose state is none of the declared ones.\<close>

definition scan_job :: "job_row \<Rightarrow> store_error + job_row" where
  "scan_job j = (if job_state_valid (j_state j) then Inr j else Inl ErrInvalidState)"

definition load_job :: "(job_row \<Rightarrow> bool) \<Rightarrow> db \<Rightarrow> store_error + job_row" where
  "load_job P db =
     (case sql_find P (jobs db) of None \<Rightarrow> Inl ErrNoRows | Some j \<Rightarrow> scan_job j)"

definition update_job ::
  "(job_row \<Rightarrow> bool) \<Rightarrow> (job_row \<Rightarrow> job_row) \<Rightarrow> db \<Rightarrow> store_error + job_row \<times> db" where
  "update_job P f db =
     (case sql_find P (jobs db) of
        None \<Rightarrow> Inl ErrNoRows
      | Some j \<Rightarrow>
          (let js = sql_update P f (jobs db) in
           if list_all (\<lambda>k. P k \<longrightarrow> job_row_ok (f k)) (jobs db) \<and> no_conflicts job_conflict js
           then res_bind (scan_job (f j)) (\<lambda>k. Inr (k, db\<lparr>jobs := js\<rparr>))
           else Inl ErrConstraint))"

text \<open>\<open>Inr None\<close>: a unique index held another row, and ON CONFLICT DO NOTHING inserted none.\<close>

definition insert_job :: "job_row \<Rightarrow> db \<Rightarrow> store_error + (job_row \<times> db) option" where
  "insert_job r db =
     (let j = r\<lparr>j_id := next_job_id db\<rparr> in
      if \<not> job_row_ok j then Inl ErrConstraint
      else if list_ex (\<lambda>k. job_conflict k j) (jobs db) then Inr None
      else if \<not> opt_check (\<lambda>u. user_exists u db) (j_user_id j) then Inl ErrConstraint
      else Inr (Some (j, db\<lparr>jobs := jobs db @ [j], next_job_id := next_job_id db + 1\<rparr>)))"

definition append_transition :: "transition_row \<Rightarrow> db \<Rightarrow> store_error + db" where
  "append_transition t db =
     (if transition_row_ok t then Inr (db\<lparr>transitions := transitions db @ [t]\<rparr>)
      else Inl ErrConstraint)"

definition bump_job_revision :: "db \<Rightarrow> db" where
  "bump_job_revision db = db\<lparr>job_revision := job_revision db + 1\<rparr>"

fun bump_revision_list :: "int \<Rightarrow> (int \<times> int) list \<Rightarrow> (int \<times> int) list" where
  "bump_revision_list uid [] = [(uid, 1)]"
| "bump_revision_list uid ((u, r) # rs) =
     (if u = uid then (u, r + 1) # rs else (u, r) # bump_revision_list uid rs)"

text \<open>\<open>incrementUserNotificationRevision\<close>: an upsert whose foreign key is the user.\<close>

definition bump_user_revision :: "int \<Rightarrow> db \<Rightarrow> store_error + db" where
  "bump_user_revision uid db =
     (if user_exists uid db
      then Inr (db\<lparr>notif_revisions := bump_revision_list uid (notif_revisions db)\<rparr>)
      else Inl ErrConstraint)"

fun bump_owner_revision :: "int option \<Rightarrow> db \<Rightarrow> store_error + db" where
  "bump_owner_revision None db = Inr db"
| "bump_owner_revision (Some uid) db = bump_user_revision uid db"

section \<open>Uniqueness\<close>

lemma no_conflicts_iff_sorted_wrt: "no_conflicts C rs \<longleftrightarrow> sorted_wrt (\<lambda>p q. \<not> C p q) rs"
  by (induction rs) (auto simp: list_all_iff)

lemma no_conflicts_append:
  "no_conflicts C (rs @ [q]) \<longleftrightarrow> no_conflicts C rs \<and> list_all (\<lambda>p. \<not> C p q) rs"
  by (auto simp: no_conflicts_iff_sorted_wrt sorted_wrt_append list_all_iff)

lemma no_conflictsD:
  assumes "no_conflicts C rs" "p \<in> set rs" "q \<in> set rs" "p \<noteq> q" "\<And>a b. C a b \<Longrightarrow> C b a"
  shows "\<not> C p q"
  using assms by (induction rs) (auto simp: list_all_iff)

lemma job_conflict_sym: "job_conflict j k \<Longrightarrow> job_conflict k j"
  by (auto simp: job_conflict_def)

lemma no_conflicts_update_shrink:
  assumes "no_conflicts C rs"
    and "\<And>a b. C (if P a then f a else a) (if P b then f b else b) \<Longrightarrow> C a b"
  shows "no_conflicts C (sql_update P f rs)"
  using assms(1) unfolding no_conflicts_iff_sorted_wrt sql_update_def sorted_wrt_map
  by (rule sorted_wrt_mono_rel[rotated]) (use assms(2) in blast)

lemma no_conflicts_delete: "no_conflicts C rs \<Longrightarrow> no_conflicts C (sql_delete P rs)"
  unfolding no_conflicts_iff_sorted_wrt sql_delete_def by (rule sorted_wrt_filter)

lemma no_conflicts_unique_key:
  "no_conflicts C rs \<Longrightarrow> (\<And>a b. key a = key b \<Longrightarrow> C a b) \<Longrightarrow> unique_key key rs"
  by (induction rs) (auto simp: unique_key_def list_all_iff)

lemma no_conflicts_unique_id: "no_conflicts job_conflict js \<Longrightarrow> unique_key j_id js"
  by (erule no_conflicts_unique_key) (simp add: job_conflict_def)

definition same_keys :: "job_row \<Rightarrow> job_row \<Rightarrow> bool" where
  "same_keys j k =
     (j_id k = j_id j \<and> j_public_id k = j_public_id j \<and> j_prompt_id k = j_prompt_id j \<and>
      j_user_id k = j_user_id j \<and> j_request_id k = j_request_id j \<and>
      j_batch_id k = j_batch_id j \<and> j_batch_position k = j_batch_position j)"

lemma no_conflicts_update_same_keys:
  assumes "\<And>j. same_keys j (f j)"
  shows "no_conflicts job_conflict (sql_update P f js) = no_conflicts job_conflict js"
proof -
  have *: "job_conflict (if P a then f a else a) (if P b then f b else b) = job_conflict a b" for a b
    using assms[of a] assms[of b] by (auto simp: job_conflict_def same_keys_def)
  show ?thesis
    by (simp add: no_conflicts_iff_sorted_wrt sql_update_def sorted_wrt_map *)
qed

section \<open>The invariant of a row\<close>

definition job_inv :: "job_row \<Rightarrow> bool" where
  "job_inv j =
     ((terminal (j_state j) \<longrightarrow> j_resources_released_at j \<noteq> None) \<and>
      (terminal (j_state j) = (j_finished_at j \<noteq> None)) \<and>
      (j_state j \<in> {Queued, Running, Postprocessing, Archiving, Completed} \<longrightarrow>
         j_prompt_id j \<noteq> None) \<and>
      (j_state j \<in> {Running, Postprocessing, Archiving, Completed} \<longrightarrow> j_started_at j \<noteq> None) \<and>
      (if j_state j = Failed then j_error_code j \<noteq> [] \<and> j_status_message j \<noteq> []
       else j_error_code j = [] \<and> j_error_message j = []) \<and>
      (j_quota_committed_at j \<noteq> None \<longrightarrow> j_quota_reserved_on j \<noteq> None \<and> j_prompt_id j \<noteq> None) \<and>
      (j_cancel_confirmed_at j \<noteq> None \<longrightarrow> j_cancel_requested_at j \<noteq> None) \<and>
      (j_submission_rejected_at j \<noteq> None \<longrightarrow> j_submission_started_at j \<noteq> None) \<and>
      (j_dispatch_closed_at j \<noteq> None \<longrightarrow>
         j_dispatch_token j = [] \<and> j_dispatch_queued_at j = None \<and>
         (j_prompt_id j \<noteq> None \<or> j_submission_started_at j = None \<or>
          j_submission_rejected_at j \<noteq> None)))"

lemma job_inv_finished: "job_inv j \<Longrightarrow> terminal (j_state j) \<longleftrightarrow> j_finished_at j \<noteq> None"
  unfolding job_inv_def by (elim conjE)

lemma job_inv_released: "job_inv j \<Longrightarrow> terminal (j_state j) \<Longrightarrow> j_resources_released_at j \<noteq> None"
  unfolding job_inv_def by (elim conjE) (erule mp)

lemma job_inv_bound:
  "job_inv j \<Longrightarrow> j_state j \<in> {Queued, Running, Postprocessing, Archiving, Completed} \<Longrightarrow>
     j_prompt_id j \<noteq> None"
  unfolding job_inv_def by (elim conjE) (erule mp)

lemma job_inv_details:
  "job_inv j \<Longrightarrow> if j_state j = Failed then j_error_code j \<noteq> [] \<and> j_status_message j \<noteq> []
     else j_error_code j = [] \<and> j_error_message j = []"
  unfolding job_inv_def by (elim conjE)

definition jobs_inv :: "db \<Rightarrow> bool" where
  "jobs_inv db =
     (list_all job_inv (jobs db) \<and> list_all job_row_ok (jobs db) \<and>
      no_conflicts job_conflict (jobs db) \<and>
      list_all (\<lambda>j. j_id j < next_job_id db) (jobs db))"

definition job_moves :: "job_state \<Rightarrow> job_state \<Rightarrow> bool" where
  "job_moves p q = can_transition\<^sup>*\<^sup>* p q"

fun kept :: "'a option \<Rightarrow> 'a option \<Rightarrow> bool" where
  "kept None y = True"
| "kept (Some x) y = (y = Some x)"

definition row_evolves :: "job_row \<Rightarrow> job_row \<Rightarrow> bool" where
  "row_evolves j k =
     (j_id k = j_id j \<and> j_public_id k = j_public_id j \<and> j_user_id k = j_user_id j \<and>
      j_request_id k = j_request_id j \<and> j_batch_id k = j_batch_id j \<and>
      j_created_at k = j_created_at j \<and>
      job_moves (j_state j) (j_state k) \<and>
      kept (j_prompt_id j) (j_prompt_id k) \<and>
      kept (j_started_at j) (j_started_at k) \<and>
      kept (j_finished_at j) (j_finished_at k) \<and>
      kept (j_resources_released_at j) (j_resources_released_at k) \<and>
      kept (j_quota_committed_at j) (j_quota_committed_at k) \<and>
      (j_quota_committed_at j \<noteq> None \<longrightarrow> j_quota_reserved_on k = j_quota_reserved_on j) \<and>
      kept (j_dispatch_closed_at j) (j_dispatch_closed_at k) \<and>
      kept (j_submission_started_at j) (j_submission_started_at k) \<and>
      (j_submission_rejected_at j \<noteq> None \<longrightarrow> j_submission_rejected_at k \<noteq> None) \<and>
      (terminal (j_state j) \<longrightarrow>
         j_status_message k = j_status_message j \<and> j_error_code k = j_error_code j \<and>
         j_error_message k = j_error_message j \<and> j_attempt k = j_attempt j))"

definition jobs_evolve :: "db \<Rightarrow> db \<Rightarrow> bool" where
  "jobs_evolve s t \<longleftrightarrow> (\<forall>j\<in>set (jobs s). \<exists>k\<in>set (jobs t). row_evolves j k)"

lemma kept_refl [simp]: "kept x x"
  by (cases x) auto

lemma kept_trans: "kept x y \<Longrightarrow> kept y z \<Longrightarrow> kept x z"
  by (cases x; cases y) auto

lemma kept_Some: "kept x y \<Longrightarrow> x \<noteq> None \<Longrightarrow> y = x"
  by (cases x) auto

lemma kept_iff: "kept x y \<longleftrightarrow> (x \<noteq> None \<longrightarrow> y = x)"
  by (cases x) auto

lemma job_moves_refl [simp]: "job_moves p p"
  by (simp add: job_moves_def)

lemma job_moves_step: "can_transition p q \<Longrightarrow> job_moves p q"
  by (simp add: job_moves_def)

lemma job_moves_terminal: "job_moves p q \<Longrightarrow> terminal p \<Longrightarrow> q = p"
  unfolding job_moves_def
  by (induction rule: rtranclp_induct) (auto dest: terminal_stuck)

lemma job_moves_rank: "job_moves p q \<Longrightarrow> p = q \<or> job_rank p < job_rank q"
  unfolding job_moves_def
proof (induction rule: rtranclp_induct)
  case base
  show ?case by simp
next
  case (step q r)
  then show ?case using can_transition_rank[of q r] by (cases "q = r") auto
qed

lemma row_evolves_refl [simp, intro]: "row_evolves j j"
  by (simp add: row_evolves_def)

lemma row_evolves_trans:
  assumes "row_evolves i j" "row_evolves j k"
  shows "row_evolves i k"
proof -
  have "job_moves (j_state i) (j_state k)"
    using assms by (auto simp: row_evolves_def job_moves_def)
  moreover have "terminal (j_state i) \<Longrightarrow> terminal (j_state j)"
    using assms(1) job_moves_terminal by (fastforce simp: row_evolves_def)
  ultimately show ?thesis
    using assms unfolding row_evolves_def kept_iff by (clarsimp | metis)+
qed

lemma jobs_evolve_refl [simp]: "jobs_evolve s s"
  unfolding jobs_evolve_def by blast

lemma jobs_evolve_trans: "jobs_evolve s t \<Longrightarrow> jobs_evolve t u \<Longrightarrow> jobs_evolve s u"
  unfolding jobs_evolve_def using row_evolves_trans by meson

lemma jobs_evolve_same: "jobs t = jobs s \<Longrightarrow> jobs_evolve s t"
  unfolding jobs_evolve_def by auto

section \<open>The statements keep the invariant\<close>

lemma jobs_invD: "jobs_inv db \<Longrightarrow> j \<in> set (jobs db) \<Longrightarrow> job_inv j \<and> job_row_ok j"
  by (auto simp: jobs_inv_def list_all_iff)

lemma jobs_inv_unique: "jobs_inv db \<Longrightarrow> unique_key j_id (jobs db)"
  by (auto simp: jobs_inv_def intro: no_conflicts_unique_id)

lemma jobs_inv_cong:
  "jobs t = jobs s \<Longrightarrow> next_job_id t = next_job_id s \<Longrightarrow> jobs_inv t = jobs_inv s"
  by (simp add: jobs_inv_def)

lemma scan_job_Inr: "scan_job j = Inr k \<longleftrightarrow> job_state_valid (j_state j) \<and> k = j"
  by (auto simp: scan_job_def)

lemma load_job_Inr: "load_job P db = Inr j \<longleftrightarrow> sql_find P (jobs db) = Some j \<and> job_state_valid (j_state j)"
  by (auto simp: load_job_def scan_job_Inr split: option.splits)

lemma load_job_by_id_unique:
  assumes "jobs_inv db" "load_job (\<lambda>j. j_id j = jid) db = Inr cur" "j \<in> set (jobs db)" "j_id j = jid"
  shows "j = cur"
proof -
  have "cur \<in> set (jobs db)" "j_id cur = jid"
    using assms(2) by (auto simp: load_job_Inr dest: sql_find_Some)
  with assms jobs_inv_unique[OF assms(1)] show ?thesis by (auto dest: unique_keyD)
qed

lemma load_job_in: "load_job P db = Inr j \<Longrightarrow> j \<in> set (jobs db) \<and> P j"
  by (auto simp: load_job_Inr dest: sql_find_Some)

lemma update_job_Inr:
  "update_job P f db = Inr (k, db') \<longleftrightarrow>
     (\<exists>j. sql_find P (jobs db) = Some j \<and> k = f j \<and> job_state_valid (j_state k) \<and>
        list_all (\<lambda>j. P j \<longrightarrow> job_row_ok (f j)) (jobs db) \<and>
        no_conflicts job_conflict (sql_update P f (jobs db)) \<and>
        db' = db\<lparr>jobs := sql_update P f (jobs db)\<rparr>)"
  by (auto simp: update_job_def res_bind_Inr scan_job_Inr Let_def split: option.splits)

lemma update_job_row:
  assumes "update_job P f db = Inr (k, db')"
  obtains j where "j \<in> set (jobs db)" "P j" "k = f j" "k \<in> set (jobs db')"
proof -
  from assms obtain j where j: "sql_find P (jobs db) = Some j" "k = f j"
    and db': "db' = db\<lparr>jobs := sql_update P f (jobs db)\<rparr>"
    by (auto simp: update_job_Inr)
  from sql_find_Some[OF j(1)] have "j \<in> set (jobs db)" "P j" by auto
  moreover from this j db' have "k \<in> set (jobs db')" by (auto simp: set_sql_update)
  ultimately show ?thesis using j that by blast
qed

text \<open>An UPDATE by a row function that keeps the keys, on many rows or on one.\<close>

definition update_jobs ::
  "(job_row \<Rightarrow> bool) \<Rightarrow> (job_row \<Rightarrow> job_row) \<Rightarrow> db \<Rightarrow> store_error + db" where
  "update_jobs P f db =
     (let js = sql_update P f (jobs db) in
      if list_all (\<lambda>k. P k \<longrightarrow> job_row_ok (f k)) (jobs db) \<and> no_conflicts job_conflict js
      then Inr (db\<lparr>jobs := js\<rparr>) else Inl ErrConstraint)"

lemma update_job_update_jobs:
  "update_job P f db = Inr (k, db') \<Longrightarrow> update_jobs P f db = Inr db'"
  by (auto simp: update_job_Inr update_jobs_def Let_def)

lemma sql_update_evolves:
  assumes "\<And>j. j \<in> set js \<Longrightarrow> row_evolves j (if P j then f j else j)"
  shows "\<forall>j\<in>set js. \<exists>k\<in>set (sql_update P f js). row_evolves j k"
proof
  fix j assume j: "j \<in> set js"
  then have "(if P j then f j else j) \<in> set (sql_update P f js)"
    by (auto simp: sql_update_def)
  with assms[OF j] show "\<exists>k\<in>set (sql_update P f js). row_evolves j k" by blast
qed

lemma insert_job_Inr:
  "insert_job r db = Inr (Some (j, db')) \<longleftrightarrow>
     j = r\<lparr>j_id := next_job_id db\<rparr> \<and> job_row_ok j \<and>
     list_all (\<lambda>k. \<not> job_conflict k j) (jobs db) \<and>
     opt_check (\<lambda>u. user_exists u db) (j_user_id j) \<and>
     db' = db\<lparr>jobs := jobs db @ [j], next_job_id := next_job_id db + 1\<rparr>"
  by (auto simp: insert_job_def Let_def list_ex_iff list_all_iff)

lemma insert_job_inv:
  assumes "insert_job r db = Inr (Some (j, db'))" "jobs_inv db" "job_inv j"
  shows "jobs_inv db'"
  using assms by (auto simp: insert_job_Inr jobs_inv_def no_conflicts_append list_all_iff)

lemma insert_job_evolve: "insert_job r db = Inr (Some (j, db')) \<Longrightarrow> jobs_evolve db db'"
  by (auto simp: insert_job_Inr jobs_evolve_def)

subsection \<open>Statements on other tables\<close>

definition same_jobs :: "db \<Rightarrow> db \<Rightarrow> bool" where
  "same_jobs s t = (jobs t = jobs s \<and> next_job_id t = next_job_id s)"

lemma same_jobs_refl [simp]: "same_jobs s s"
  by (simp add: same_jobs_def)

lemma same_jobs_trans [trans]: "same_jobs s t \<Longrightarrow> same_jobs t u \<Longrightarrow> same_jobs s u"
  by (simp add: same_jobs_def)

lemma same_jobs_inv: "same_jobs s t \<Longrightarrow> jobs_inv s \<Longrightarrow> jobs_inv t"
  by (simp add: same_jobs_def jobs_inv_def)

lemma same_jobs_evolve: "same_jobs s t \<Longrightarrow> jobs_evolve s t"
  by (simp add: same_jobs_def jobs_evolve_same)

lemma append_transition_frame: "append_transition r s = Inr t \<Longrightarrow> same_jobs s t"
  by (auto simp: append_transition_def same_jobs_def split: if_splits)

lemma bump_job_revision_frame: "same_jobs s (bump_job_revision s)"
  by (simp add: bump_job_revision_def same_jobs_def)

lemma bump_user_revision_frame: "bump_user_revision uid s = Inr t \<Longrightarrow> same_jobs s t"
  by (auto simp: bump_user_revision_def same_jobs_def split: if_splits)

lemma bump_owner_revision_frame: "bump_owner_revision o' s = Inr t \<Longrightarrow> same_jobs s t"
  by (cases o') (auto intro: bump_user_revision_frame)

text \<open>
  What an operation owes: it keeps the invariant and changes rows only as \<open>row_evolves\<close>
  allows.  \<open>safe_step\<close> composes, so an operation's proof goes statement by statement.
\<close>

definition safe_step :: "db \<Rightarrow> db \<Rightarrow> bool" where
  "safe_step s t \<longleftrightarrow> (jobs_inv s \<longrightarrow> jobs_inv t \<and> jobs_evolve s t)"

lemma safe_step_refl [simp]: "safe_step s s"
  by (simp add: safe_step_def)

lemma safe_step_trans: "safe_step s t \<Longrightarrow> safe_step t u \<Longrightarrow> safe_step s u"
  unfolding safe_step_def using jobs_evolve_trans by blast

lemma same_jobs_safe: "same_jobs s t \<Longrightarrow> safe_step s t"
  by (simp add: safe_step_def same_jobs_inv same_jobs_evolve)

lemmas safe_append_transition = same_jobs_safe[OF append_transition_frame]
lemmas safe_bump_job_revision = same_jobs_safe[OF bump_job_revision_frame]
lemmas safe_bump_user_revision = same_jobs_safe[OF bump_user_revision_frame]
lemmas safe_bump_owner_revision = same_jobs_safe[OF bump_owner_revision_frame]

lemma safe_update_jobs:
  assumes upd: "update_jobs P f s = Inr t"
    and rows: "\<And>j. jobs_inv s \<Longrightarrow> j \<in> set (jobs s) \<Longrightarrow> P j \<Longrightarrow> job_inv j \<Longrightarrow> job_row_ok j \<Longrightarrow>
                 job_inv (f j) \<and> row_evolves j (f j)"
  shows "safe_step s t"
proof (cases "jobs_inv s")
  case False
  then show ?thesis by (simp add: safe_step_def)
next
  case inv: True
  have t: "t = s\<lparr>jobs := sql_update P f (jobs s)\<rparr>"
    and ok: "list_all (\<lambda>k. P k \<longrightarrow> job_row_ok (f k)) (jobs s)"
    and nc: "no_conflicts job_conflict (sql_update P f (jobs s))"
    using upd by (auto simp: update_jobs_def Let_def split: if_splits)
  have row: "job_inv (f j) \<and> row_evolves j (f j)" if "j \<in> set (jobs s)" "P j" for j
    using rows[OF inv that] jobs_invD[OF inv that(1)] by blast
  have "j_id (f j) = j_id j" if "j \<in> set (jobs s)" "P j" for j
    using row[OF that] by (auto simp: row_evolves_def)
  then have "jobs_inv t"
    using ok nc inv row by (auto simp: t jobs_inv_def list_all_iff set_sql_update)
  moreover have "row_evolves j (if P j then f j else j)" if "j \<in> set (jobs s)" for j
    using row[OF that] by auto
  from sql_update_evolves[of "jobs s" P f, OF this] have "jobs_evolve s t"
    by (simp add: t jobs_evolve_def)
  ultimately show ?thesis by (simp add: safe_step_def)
qed

lemmas safe_update_job = safe_update_jobs[OF update_job_update_jobs]

lemma safe_insert_job:
  "insert_job r s = Inr (Some (j, t)) \<Longrightarrow> job_inv j \<Longrightarrow> safe_step s t"
  by (simp add: safe_step_def insert_job_inv insert_job_evolve)

end
