(* ===== verification/Messages.thy ===== *)
theory Messages
  imports GoText
begin

text \<open>
  The Russian texts the store writes into rows, given by their code points; the value is the
  UTF-8 byte string of the Go source.
\<close>

text \<open>The status of a new job.\<close>

definition msg_created :: string where
  "msg_created =
     utf8_text
      [1047, 1072, 1087, 1091, 1089, 1082, 32, 1089, 1086, 1079, 1076, 1072, 1085]"

text \<open>The status of a job rebuilt from an accepted prompt.\<close>

definition msg_recovered :: string where
  "msg_recovered =
     utf8_text
      [1042, 1086, 1089, 1089, 1090, 1072, 1085, 1086, 1074, 1083, 1077, 1085, 32, 1087, 1088,
       1080, 1085, 1103, 1090, 1099, 1081, 32, 67, 111, 109, 102, 121, 85, 73, 32, 112, 114, 111,
       109, 112, 116]"

text \<open>A cancellation was requested.\<close>

definition msg_cancelling :: string where
  "msg_cancelling =
     utf8_text
      [1054, 1090, 1084, 1077, 1085, 1103, 1077, 1084, 32, 1075, 1077, 1085, 1077, 1088, 1072,
       1094, 1080, 1102]"

text \<open>A cancellation was confirmed.\<close>

definition msg_cancel_confirmed :: string where
  "msg_cancel_confirmed =
     utf8_text
      [1054, 1090, 1084, 1077, 1085, 1072, 32, 1087, 1086, 1076, 1090, 1074, 1077, 1088, 1078,
       1076, 1077, 1085, 1072]"

text \<open>A worker took the job.\<close>

definition msg_dispatching :: string where
  "msg_dispatching =
     utf8_text
      [1055, 1086, 1076, 1075, 1086, 1090, 1072, 1074, 1083, 1080, 1074, 1072, 1077, 1084, 32,
       1079, 1072, 1076, 1072, 1085, 1080, 1077, 32, 1082, 32, 1079, 1072, 1087, 1091, 1089,
       1082, 1091]"

text \<open>The executor's queue is full.\<close>

definition msg_waiting_slot :: string where
  "msg_waiting_slot =
     utf8_text
      [1054, 1078, 1080, 1076, 1072, 1077, 1084, 32, 1089, 1074, 1086, 1073, 1086, 1076, 1085,
       1086, 1077, 32, 1084, 1077, 1089, 1090, 1086, 32, 1074, 32, 1086, 1095, 1077, 1088, 1077,
       1076, 1080, 32, 67, 111, 109, 102, 121, 85, 73]"

text \<open>A child of a batch before its turn.\<close>

definition msg_batch_waiting :: string where
  "msg_batch_waiting =
     utf8_text
      [1054, 1078, 1080, 1076, 1072, 1077, 1090, 32, 1079, 1072, 1087, 1091, 1089, 1082, 1072,
       32, 1074, 32, 1087, 1072, 1082, 1077, 1090, 1077]"

text \<open>The title of a success notification.\<close>

definition title_completed :: string where
  "title_completed =
     utf8_text
      [1043, 1077, 1085, 1077, 1088, 1072, 1094, 1080, 1103, 32, 1075, 1086, 1090, 1086, 1074,
       1072]"

text \<open>The text of a success notification.\<close>

definition text_completed :: string where
  "text_completed =
     utf8_text
      [1056, 1077, 1079, 1091, 1083, 1100, 1090, 1072, 1090, 32, 1089, 1086, 1093, 1088, 1072,
       1085, 1105, 1085, 32, 1080, 32, 1075, 1086, 1090, 1086, 1074, 32, 1082, 32, 1087, 1088,
       1086, 1089, 1084, 1086, 1090, 1088, 1091, 46]"

text \<open>The text before the model's name.\<close>

definition text_result :: string where
  "text_result =
     utf8_text
      [1056, 1077, 1079, 1091, 1083, 1100, 1090, 1072, 1090, 32]"

text \<open>The text after the model's name.\<close>

definition text_result_ready :: string where
  "text_result_ready =
     utf8_text
      [32, 1089, 1086, 1093, 1088, 1072, 1085, 1105, 1085, 32, 1080, 32, 1075, 1086, 1090, 1086,
       1074, 32, 1082, 32, 1087, 1088, 1086, 1089, 1084, 1086, 1090, 1088, 1091, 46]"

text \<open>The title of a failure notification.\<close>

definition title_failed :: string where
  "title_failed =
     utf8_text
      [1043, 1077, 1085, 1077, 1088, 1072, 1094, 1080, 1103, 32, 1079, 1072, 1074, 1077, 1088,
       1096, 1080, 1083, 1072, 1089, 1100, 32, 1089, 32, 1086, 1096, 1080, 1073, 1082, 1086, 1081]"

text \<open>The text of a failure without a status.\<close>

definition text_failed :: string where
  "text_failed =
     utf8_text
      [1054, 1090, 1082, 1088, 1086, 1081, 1090, 1077, 32, 1079, 1072, 1076, 1072, 1095, 1091,
       44, 32, 1095, 1090, 1086, 1073, 1099, 32, 1087, 1086, 1089, 1084, 1086, 1090, 1088, 1077,
       1090, 1100, 32, 1087, 1088, 1080, 1095, 1080, 1085, 1091, 32, 1080, 32, 1087, 1086, 1074,
       1090, 1086, 1088, 1080, 1090, 1100, 32, 1079, 1072, 1087, 1091, 1089, 1082, 46]"

text \<open>The sign of a cut text.\<close>

definition text_ellipsis :: string where
  "text_ellipsis =
     utf8_text
      [8230]"

end
