(* ===== verification/JobStore.thy ===== *)
theory JobStore
  imports JobTable Messages
begin

text \<open>
  The durable generation job (\<open>store/generation_job.go\<close>): creation and the idempotent
  claim of a browser request, preparation, binding to the executor's prompt, the checked
  state transition with its log and notification, release of resources and the cancellation
  protocol.  Every operation is one transaction from a database to a result and the database
  after its commit; an error rolls back.
\<close>

section \<open>Small routines\<close>

text \<open>\<open>uniqueStrings\<close>: trim, drop the empty ones and the repetitions.\<close>

fun unique_strings_go :: "string list \<Rightarrow> string list \<Rightarrow> string list" where
  "unique_strings_go seen [] = []"
| "unique_strings_go seen (item # items) =
     (let s = trim_space item in
      if s = [] then unique_strings_go seen items
      else if s \<in> set seen then unique_strings_go seen items
      else s # unique_strings_go (s # seen) items)"

definition unique_strings :: "string list \<Rightarrow> string list" where
  "unique_strings items = unique_strings_go [] items"

definition bounded_limit :: "int \<Rightarrow> int \<Rightarrow> int \<Rightarrow> int" where
  "bounded_limit limit lo hi = (if limit < lo then lo else if limit > hi then hi else limit)"

text \<open>A NULL prompt is the empty string of the Go struct.\<close>

fun go_string :: "string option \<Rightarrow> string" where
  "go_string None = []"
| "go_string (Some s) = s"

lemma go_string_None: "go_string p \<noteq> [] \<Longrightarrow> p \<noteq> None"
  by (cases p) auto

fun on_no_rows :: "store_error \<Rightarrow> store_error + 'a \<Rightarrow> store_error + 'a" where
  "on_no_rows e (Inl x) = Inl (if x = ErrNoRows then e else x)"
| "on_no_rows e (Inr v) = Inr v"

lemma on_no_rows_Inr [simp]: "on_no_rows e r = Inr v \<longleftrightarrow> r = Inr v"
  by (cases r) auto

section \<open>Notifications\<close>

text \<open>The runes of a byte string, an ill-formed byte read as U+FFFD (\<open>[]rune(value)\<close>).\<close>

function rune_chunks :: "string \<Rightarrow> string list" where
  "rune_chunks [] = []"
| "rune_chunks (c # cs) =
     (let (ok, n) = rune_step (bytes_of (c # cs)) in
      (if ok then take n (c # cs) else utf8_enc 65533) # rune_chunks (drop (n - 1) cs))"
  by pat_completeness auto
termination
  by (relation "measure length") auto

definition truncate_notification_text :: "string \<Rightarrow> int \<Rightarrow> string" where
  "truncate_notification_text value0 limit =
     (let value = trim_space value0 in
      if limit \<le> 0 then []
      else
        (let rs = rune_chunks value in
         if int (length rs) \<le> limit then value
         else if limit = 1 then text_ellipsis
         else trim_space (concat (take (nat (limit - 1)) rs)) @ text_ellipsis))"

definition hex_digit :: "nat \<Rightarrow> char" where
  "hex_digit n = (if n < 10 then char_of (48 + n) else char_of (55 + n))"

text \<open>\<open>url.QueryEscape\<close>\<close>

fun query_escape :: "string \<Rightarrow> string" where
  "query_escape [] = []"
| "query_escape (c # cs) =
     (if slug_char c \<or> c = CHR ''.'' \<or> c = CHR ''~'' then [c]
      else if c = CHR '' '' then ''+''
      else [CHR ''%'', hex_digit (of_char c div 16), hex_digit (of_char c mod 16)])
     @ query_escape cs"

definition notification_row_ok :: "notification_row \<Rightarrow> bool" where
  "notification_row_ok n =
     (text_between 1 120 (n_title n) \<and> pg_text 500 (n_message n) \<and> text_between 1 512 (n_href n))"

definition notification_of :: "int \<Rightarrow> job_row \<Rightarrow> notification_row" where
  "notification_of uid j =
     (let model = trim_space (j_model_name j);
          success = (if model = [] then text_completed
                     else text_result @ model @ text_result_ready);
          failure = (if trim_space (j_status_message j) = [] then text_failed
                     else trim_space (j_status_message j));
          failed = (j_state j = Failed) in
      \<lparr>n_user_id = uid, n_job_id = j_id j,
       n_kind = (if failed then NotifyFailed else NotifyCompleted),
       n_title = (if failed then title_failed else title_completed),
       n_message = truncate_notification_text (if failed then failure else success) 500,
       n_href = ''/generate?job='' @ query_escape (j_public_id j)\<rparr>)"

definition create_job_notification :: "job_row \<Rightarrow> db \<Rightarrow> store_error + db" where
  "create_job_notification j db =
     (case j_user_id j of
        None \<Rightarrow> Inr db
      | Some uid \<Rightarrow>
          if j_state j \<noteq> Completed \<and> j_state j \<noteq> Failed then Inr db
          else
            (let pref = sql_find (\<lambda>p. p_user_id p = uid) (prefs db);
                 in_app = (case pref of None \<Rightarrow> True | Some p \<Rightarrow> p_in_app p);
                 on_success = (case pref of None \<Rightarrow> True | Some p \<Rightarrow> p_success p);
                 n = notification_of uid j in
             if \<not> in_app \<or> (j_state j = Completed \<and> \<not> on_success) then Inr db
             else if \<not> notification_row_ok n then Inl ErrConstraint
             else if sql_exists (\<lambda>m. n_job_id m = j_id j) (notifications db) then Inr db
             else if \<not> user_exists uid db then Inl ErrConstraint
             else Inr (db\<lparr>notifications := notifications db @ [n]\<rparr>)))"

lemma create_job_notification_frame: "create_job_notification j s = Inr t \<Longrightarrow> same_jobs s t"
  by (auto simp: create_job_notification_def same_jobs_def Let_def
      split: option.splits if_splits)

lemmas safe_create_job_notification = same_jobs_safe[OF create_job_notification_frame]

section \<open>Requests\<close>

definition insert_request :: "request_row \<Rightarrow> db \<Rightarrow> store_error + (bool \<times> db)" where
  "insert_request q db =
     (if \<not> request_row_ok q then Inl ErrConstraint
      else if sql_exists (\<lambda>r. q_user_id r = q_user_id q \<and> q_request_id r = q_request_id q) (requests db)
      then Inr (False, db)
      else if \<not> user_exists (q_user_id q) db then Inl ErrConstraint
      else Inr (True, db\<lparr>requests := requests db @ [q]\<rparr>))"

definition update_requests ::
  "(request_row \<Rightarrow> bool) \<Rightarrow> (request_row \<Rightarrow> request_row) \<Rightarrow> db \<Rightarrow> store_error + (nat \<times> db)" where
  "update_requests P f db =
     (let rs = sql_update P f (requests db) in
      if list_all (\<lambda>q. P q \<longrightarrow> request_row_ok (f q)) (requests db) \<and> no_conflicts request_conflict rs
      then Inr (sql_count P (requests db), db\<lparr>requests := rs\<rparr>)
      else Inl ErrConstraint)"

definition request_prompt :: "int \<Rightarrow> string \<Rightarrow> db \<Rightarrow> store_error + string option" where
  "request_prompt uid rid db =
     (case sql_find (\<lambda>q. q_user_id q = uid \<and> q_request_id q = rid) (requests db) of
        None \<Rightarrow> Inl ErrNoRows
      | Some q \<Rightarrow> Inr (q_prompt_id q))"

definition new_request :: "clock \<Rightarrow> int \<Rightarrow> string \<Rightarrow> string \<Rightarrow> request_row" where
  "new_request clk uid rid cid =
     \<lparr>q_user_id = uid, q_request_id = rid, q_prompt_id = None, q_job_id = None,
      q_correlation_id = cid, q_updated_at = tx_now clk\<rparr>"

definition claim_generation_request ::
  "clock \<Rightarrow> int \<Rightarrow> string \<Rightarrow> db \<Rightarrow> store_error + ((bool \<times> string) \<times> db)" where
  "claim_generation_request clk uid rid0 db =
     (let rid = trim_space rid0 in
      res_bind (insert_request (new_request clk uid rid []) db) (\<lambda>(created, db1).
      if created then Inr ((False, []), db1)
      else res_bind (request_prompt uid (trim_space rid) db1) (\<lambda>p. Inr ((True, go_string p), db1))))"

definition generation_request_prompt_id :: "int \<Rightarrow> string \<Rightarrow> db \<Rightarrow> store_error + string" where
  "generation_request_prompt_id uid rid db =
     res_bind (request_prompt uid (trim_space rid) db) (\<lambda>p. Inr (go_string p))"

definition bind_generation_request_prompt ::
  "clock \<Rightarrow> int \<Rightarrow> string \<Rightarrow> string \<Rightarrow> db \<Rightarrow> store_error + db" where
  "bind_generation_request_prompt clk uid rid pid db =
     res_bind (update_requests
        (\<lambda>q. q_user_id q = uid \<and> q_request_id q = trim_space rid \<and> q_prompt_id q = None)
        (\<lambda>q. q\<lparr>q_prompt_id := Some (trim_space pid), q_updated_at := tx_now clk\<rparr>) db)
      (\<lambda>(changed, db1).
        if changed > 0 then Inr db1
        else res_bind (generation_request_prompt_id uid rid db1) (\<lambda>existing.
          if existing \<noteq> trim_space pid then Inl ErrPromptBound else Inr db1))"

definition release_generation_request :: "int \<Rightarrow> string \<Rightarrow> db \<Rightarrow> db" where
  "release_generation_request uid rid db =
     db\<lparr>requests := sql_delete (\<lambda>q. q_user_id q = uid \<and> q_request_id q = trim_space rid \<and>
                       q_prompt_id q = None) (requests db)\<rparr>"

lemma insert_request_frame: "insert_request q s = Inr (b, t) \<Longrightarrow> same_jobs s t"
  by (auto simp: insert_request_def same_jobs_def split: if_splits)

lemma update_requests_frame: "update_requests P f s = Inr (n, t) \<Longrightarrow> same_jobs s t"
  by (auto simp: update_requests_def same_jobs_def Let_def split: if_splits)

lemmas safe_insert_request = same_jobs_safe[OF insert_request_frame]
lemmas safe_update_requests = same_jobs_safe[OF update_requests_frame]

section \<open>Creating and claiming a job\<close>

record create_params =
  cp_public_id :: string
  cp_correlation_id :: string
  cp_user_id :: int
  cp_username :: string
  cp_request_id :: string
  cp_parent_job_id :: "int option"

definition trim_create_params :: "create_params \<Rightarrow> store_error + create_params" where
  "trim_create_params p0 =
     (let pid = trim_space (cp_public_id p0);
          cid = trim_space (cp_correlation_id p0);
          p = p0\<lparr>cp_public_id := pid,
                 cp_correlation_id := (if cid = [] then pid else cid),
                 cp_request_id := trim_space (cp_request_id p0),
                 cp_username := trim_space (cp_username p0)\<rparr> in
      if cp_user_id p \<le> 0 \<or> cp_public_id p = [] \<or> cp_request_id p = [] then Inl ErrIdentity
      else Inr p)"

text \<open>A row with the defaults of the table; \<open>insert_job\<close> gives it its id.\<close>

definition default_job_row :: "clock \<Rightarrow> job_row" where
  "default_job_row clk =
     \<lparr>j_id = 0, j_public_id = [], j_correlation_id = [], j_user_id = None, j_username = [],
      j_request_id = [], j_parent_job_id = None, j_batch_id = None, j_batch_position = 0,
      j_experiment_value = [], j_prompt_id = None, j_template_id = [], j_workflow_id = [],
      j_model_name = [], j_seed = - 1, j_payload_cipher = None, j_state = Draft,
      j_status_message = [], j_error_code = [], j_error_message = [], j_attempt = 1,
      j_dependencies = [], j_input_count = 0, j_state_changed_at = tx_now clk,
      j_started_at = None, j_finished_at = None, j_resources_released_at = None,
      j_quota_reserved_on = None, j_quota_committed_at = None, j_cancel_requested_at = None,
      j_cancel_confirmed_at = None, j_created_at = tx_now clk, j_updated_at = tx_now clk,
      j_dispatch_queued_at = None, j_dispatch_token = [], j_dispatch_until = None,
      j_dispatch_closed_at = None, j_submission_started_at = None,
      j_submission_rejected_at = None\<rparr>"

definition params_job_row :: "clock \<Rightarrow> create_params \<Rightarrow> job_row" where
  "params_job_row clk p =
     (default_job_row clk)
       \<lparr>j_public_id := cp_public_id p, j_correlation_id := cp_correlation_id p,
        j_user_id := Some (cp_user_id p), j_username := cp_username p,
        j_request_id := cp_request_id p, j_parent_job_id := cp_parent_job_id p\<rparr>"

fun parent_owned :: "int option \<Rightarrow> int \<Rightarrow> db \<Rightarrow> bool" where
  "parent_owned None uid db = True"
| "parent_owned (Some pid) uid db =
     sql_exists (\<lambda>j. j_id j = pid \<and> j_user_id j = Some uid) (jobs db)"

definition load_job_by_request :: "int \<Rightarrow> string \<Rightarrow> db \<Rightarrow> store_error + job_row" where
  "load_job_by_request uid rid db =
     load_job (\<lambda>j. j_user_id j = Some uid \<and> j_request_id j = rid) db"

definition first_transition :: "clock \<Rightarrow> job_row \<Rightarrow> transition_row" where
  "first_transition clk j =
     \<lparr>t_job_id = j_id j, t_correlation_id = j_correlation_id j, t_from = None,
      t_to = j_state j, t_message = j_status_message j, t_error_code = [],
      t_error_message = [], t_attempt = 1, t_duration_ms = 0, t_created_at = tx_now clk\<rparr>"

definition record_created :: "clock \<Rightarrow> int \<Rightarrow> job_row \<Rightarrow> db \<Rightarrow> store_error + db" where
  "record_created clk uid j db =
     res_bind (append_transition (first_transition clk j) db) (\<lambda>db1.
     res_bind (bump_user_revision uid db1) (\<lambda>db2. Inr (bump_job_revision db2)))"

definition create_generation_job ::
  "clock \<Rightarrow> create_params \<Rightarrow> db \<Rightarrow> store_error + ((job_row \<times> bool) \<times> db)" where
  "create_generation_job clk params db =
     res_bind (trim_create_params params) (\<lambda>p.
     if \<not> parent_owned (cp_parent_job_id p) (cp_user_id p) db then Inl ErrParentConflict
     else
       res_bind (insert_job ((params_job_row clk p)\<lparr>j_status_message := msg_created\<rparr>) db) (\<lambda>r.
       case r of
         None \<Rightarrow> res_bind (load_job_by_request (cp_user_id p) (cp_request_id p) db)
                   (\<lambda>j. Inr ((j, False), db))
       | Some (j, db1) \<Rightarrow>
           res_bind (record_created clk (cp_user_id p) j db1) (\<lambda>db2. Inr ((j, True), db2))))"

definition link_request :: "job_row \<Rightarrow> int \<Rightarrow> string \<Rightarrow> bool \<Rightarrow> db \<Rightarrow> store_error + db" where
  "link_request j uid rid only_unlinked db =
     res_bind (update_requests
       (\<lambda>q. q_user_id q = uid \<and> q_request_id q = rid \<and> (only_unlinked \<longrightarrow> q_job_id q = None))
       (\<lambda>q. q\<lparr>q_job_id := Some (j_id j), q_correlation_id := j_correlation_id j\<rparr>) db)
     (\<lambda>(n, db1). Inr db1)"

text \<open>The row a claim inserts: a prompt the request already has was accepted before the job
  row existed, so the job starts as queued and is never submitted again.\<close>

definition claimed_job_row :: "clock \<Rightarrow> create_params \<Rightarrow> string option \<Rightarrow> job_row" where
  "claimed_job_row clk p prompt =
     (let accepted = (prompt \<noteq> None \<and> trim_space (go_string prompt) \<noteq> []) in
      (params_job_row clk p)
        \<lparr>j_prompt_id := prompt,
         j_state := (if accepted then Queued else Draft),
         j_status_message := (if accepted then msg_recovered else msg_created),
         j_dependencies := (if accepted then [''comfyui''] else [])\<rparr>)"

definition claim_generation_job ::
  "clock \<Rightarrow> create_params \<Rightarrow> db \<Rightarrow> store_error + ((job_row \<times> bool) \<times> db)" where
  "claim_generation_job clk params db =
     res_bind (trim_create_params params) (\<lambda>p.
     let uid = cp_user_id p; rid = cp_request_id p in
     res_bind (insert_request (new_request clk uid rid (cp_correlation_id p)) db) (\<lambda>(_, db1).
     case load_job_by_request uid rid db1 of
       Inr j \<Rightarrow> res_bind (link_request j uid rid True db1) (\<lambda>db2. Inr ((j, False), db2))
     | Inl e \<Rightarrow>
         if e \<noteq> ErrNoRows then Inl e
         else if \<not> parent_owned (cp_parent_job_id p) uid db1 then Inl ErrParentConflict
         else
           res_bind (request_prompt uid rid db1) (\<lambda>prompt.
           res_bind (insert_job (claimed_job_row clk p prompt) db1) (\<lambda>r.
           case r of
             None \<Rightarrow>
               res_bind (load_job_by_request uid rid db1) (\<lambda>j.
               res_bind (link_request j uid rid False db1) (\<lambda>db2. Inr ((j, False), db2)))
           | Some (j, db2) \<Rightarrow>
               res_bind (link_request j uid rid False db2) (\<lambda>db3.
               res_bind (record_created clk uid j db3) (\<lambda>db4.
               Inr ((j, go_string (j_prompt_id j) = []), db4)))))))"

section \<open>Preparing and binding\<close>

record prepared_job =
  pr_template_id :: string
  pr_workflow_id :: string
  pr_model_name :: string
  pr_seed :: int
  pr_payload_cipher :: "string option"
  pr_dependencies :: "string list"
  pr_input_count :: int

definition prepare_generation_job ::
  "clock \<Rightarrow> int \<Rightarrow> prepared_job \<Rightarrow> db \<Rightarrow> store_error + (job_row \<times> db)" where
  "prepare_generation_job clk jid pr db =
     res_bind (on_no_rows ErrStateConflict (update_job
        (\<lambda>j. j_id j = jid \<and> j_state j \<in> {Draft, Preparing, Uploading})
        (\<lambda>j. j\<lparr>j_template_id := trim_space (pr_template_id pr),
               j_workflow_id := trim_space (pr_workflow_id pr),
               j_model_name := trim_space (pr_model_name pr), j_seed := pr_seed pr,
               j_payload_cipher := pr_payload_cipher pr,
               j_dependencies := unique_strings (pr_dependencies pr),
               j_input_count := pr_input_count pr, j_updated_at := tx_now clk\<rparr>) db))
     (\<lambda>(j, db1). Inr (j, bump_job_revision db1))"

definition bind_leases :: "job_row \<Rightarrow> string \<Rightarrow> db \<Rightarrow> db" where
  "bind_leases j pid db =
     db\<lparr>leases := sql_update (\<lambda>l. l_prompt_id l = Some pid \<and> l_job_id l = None)
          (\<lambda>l. l\<lparr>l_job_id := Some (j_id j), l_correlation_id := j_correlation_id j\<rparr>) (leases db)\<rparr>"

fun bind_owner_request :: "clock \<Rightarrow> job_row \<Rightarrow> string \<Rightarrow> db \<Rightarrow> store_error + db" where
  "bind_owner_request clk j pid db =
     (case j_user_id j of
        None \<Rightarrow> Inr db
      | Some uid \<Rightarrow>
          res_bind (update_requests
            (\<lambda>q. q_user_id q = uid \<and> q_request_id q = j_request_id j \<and>
                 (q_prompt_id q = None \<or> q_prompt_id q = Some pid))
            (\<lambda>q. q\<lparr>q_job_id := Some (j_id j), q_prompt_id := Some pid,
                   q_correlation_id := j_correlation_id j, q_updated_at := tx_now clk\<rparr>) db)
          (\<lambda>(n, db1). Inr db1))"

definition bind_generation_job_prompt ::
  "clock \<Rightarrow> int \<Rightarrow> string \<Rightarrow> db \<Rightarrow> store_error + (job_row \<times> db)" where
  "bind_generation_job_prompt clk jid prompt db =
     (let pid = trim_space prompt in
      if pid = [] then Inl ErrPromptRequired
      else
        (case update_job (\<lambda>j. j_id j = jid \<and> j_prompt_id j = None)
                (\<lambda>j. j\<lparr>j_prompt_id := Some pid, j_updated_at := tx_now clk\<rparr>) db of
           Inr (j, db1) \<Rightarrow>
             res_bind (bind_owner_request clk j pid db1) (\<lambda>db2.
             Inr (j, bump_job_revision (bind_leases j pid db2)))
         | Inl e \<Rightarrow>
             if e \<noteq> ErrNoRows then Inl e
             else
               res_bind (load_job (\<lambda>j. j_id j = jid) db) (\<lambda>j.
               if go_string (j_prompt_id j) \<noteq> pid then Inl ErrStateConflict
               else
                 res_bind (bind_owner_request clk j pid db) (\<lambda>db2.
                 Inr (j, bind_leases j pid db2)))))"

section \<open>The checked state transition\<close>

record transition_params =
  tp_state :: job_state
  tp_message :: string
  tp_error_code :: string
  tp_error_message :: string
  tp_attempt :: int

definition set_transition :: "clock \<Rightarrow> transition_params \<Rightarrow> int \<Rightarrow> job_row \<Rightarrow> job_row" where
  "set_transition clk p attempt j =
     j\<lparr>j_state := tp_state p, j_status_message := tp_message p, j_error_code := tp_error_code p,
       j_error_message := tp_error_message p, j_attempt := attempt,
       j_state_changed_at := tx_now clk, j_updated_at := tx_now clk,
       j_started_at :=
         (if tp_state p \<in> {Running, Postprocessing, Archiving, Completed} \<and> j_started_at j = None
          then Some (tx_now clk) else j_started_at j),
       j_finished_at :=
         (if tp_state p \<in> {Completed, Failed, Cancelled, Expired} \<and> j_finished_at j = None
          then Some (tx_now clk) else j_finished_at j)\<rparr>"

definition set_status :: "clock \<Rightarrow> transition_params \<Rightarrow> int \<Rightarrow> job_row \<Rightarrow> job_row" where
  "set_status clk p attempt j =
     j\<lparr>j_status_message := tp_message p, j_error_code := tp_error_code p,
       j_error_message := tp_error_message p, j_attempt := attempt, j_updated_at := tx_now clk\<rparr>"

definition logged_transition :: "clock \<Rightarrow> job_row \<Rightarrow> job_row \<Rightarrow> transition_row" where
  "logged_transition clk cur j =
     \<lparr>t_job_id = j_id j, t_correlation_id = j_correlation_id j, t_from = Some (j_state cur),
      t_to = j_state j, t_message = j_status_message j, t_error_code = j_error_code j,
      t_error_message = j_error_message j, t_attempt = j_attempt j,
      t_duration_ms = since_ms (go_now clk) (j_state_changed_at cur),
      t_created_at = tx_now clk\<rparr>"

text \<open>The parameters after trimming; details are kept for a failure only.\<close>

definition trim_transition_params :: "transition_params \<Rightarrow> store_error + transition_params" where
  "trim_transition_params p0 =
     (let p = p0\<lparr>tp_message := trim_space (tp_message p0),
                tp_error_code := trim_space (tp_error_code p0),
                tp_error_message := trim_space (tp_error_message p0)\<rparr> in
      if tp_state p = Failed then
        (if tp_message p = [] \<or> tp_error_code p = [] then Inl ErrFailureDetail else Inr p)
      else Inr (p\<lparr>tp_error_code := [], tp_error_message := []\<rparr>))"

definition record_transition :: "clock \<Rightarrow> job_row \<Rightarrow> job_row \<Rightarrow> db \<Rightarrow> store_error + db" where
  "record_transition clk cur j db =
     res_bind (append_transition (logged_transition clk cur j) db) (\<lambda>db1.
     res_bind (create_job_notification j db1) (\<lambda>db2.
     res_bind (bump_owner_revision (j_user_id j) db2) (\<lambda>db3.
     Inr (bump_job_revision db3))))"

text \<open>From the locked row and the checked parameters on.\<close>

definition apply_transition ::
  "clock \<Rightarrow> int \<Rightarrow> job_row \<Rightarrow> transition_params \<Rightarrow> int \<Rightarrow> db \<Rightarrow>
     store_error + ((job_row \<times> bool) \<times> db)" where
  "apply_transition clk jid cur p attempt db =
     (if j_state cur = tp_state p then
        (if j_status_message cur = tp_message p \<and> j_error_code cur = tp_error_code p \<and>
            j_error_message cur = tp_error_message p \<and> j_attempt cur = attempt
         then Inr ((cur, False), db)
         else if terminal (j_state cur) then Inl ErrStateConflict
         else
           res_bind (update_job (\<lambda>j. j_id j = jid) (set_status clk p attempt) db) (\<lambda>(j, db1).
           Inr ((j, True), bump_job_revision db1)))
      else if \<not> can_transition (j_state cur) (tp_state p) then Inl ErrStateConflict
      else if tp_state p = Queued \<and> go_string (j_prompt_id cur) = [] then Inl ErrStateConflict
      else if terminal (tp_state p) \<and> j_resources_released_at cur = None
      then Inl ErrStateConflict
      else
        res_bind (update_job (\<lambda>j. j_id j = jid) (set_transition clk p attempt) db)
          (\<lambda>(j, db1).
        res_bind (record_transition clk cur j db1) (\<lambda>db2. Inr ((j, True), db2))))"

definition chosen_attempt :: "transition_params \<Rightarrow> job_row \<Rightarrow> int" where
  "chosen_attempt p cur = (if tp_attempt p \<le> 0 then j_attempt cur else tp_attempt p)"

definition transition_generation_job ::
  "clock \<Rightarrow> int \<Rightarrow> transition_params \<Rightarrow> db \<Rightarrow> store_error + ((job_row \<times> bool) \<times> db)" where
  "transition_generation_job clk jid params db =
     (if \<not> job_state_valid (tp_state params) then Inl ErrInvalidState
      else
        res_bind (load_job (\<lambda>j. j_id j = jid) db) (\<lambda>cur.
        if chosen_attempt params cur < 1 \<or> chosen_attempt params cur > 100
        then Inl ErrInvalidAttempt
        else
          res_bind (trim_transition_params params) (\<lambda>p.
          apply_transition clk jid cur p (chosen_attempt params cur) db)))"

section \<open>Resources and cancellation\<close>

definition job_has_lease :: "int \<Rightarrow> db \<Rightarrow> bool" where
  "job_has_lease jid db = sql_exists (\<lambda>l. l_job_id l = Some jid) (leases db)"

definition mark_resources_released :: "clock \<Rightarrow> int \<Rightarrow> db \<Rightarrow> store_error + (job_row \<times> db)" where
  "mark_resources_released clk jid db =
     (case update_job
             (\<lambda>j. j_id j = jid \<and> j_resources_released_at j = None \<and> \<not> job_has_lease jid db)
             (\<lambda>j. j\<lparr>j_resources_released_at := Some (tx_now clk), j_updated_at := tx_now clk\<rparr>) db of
        Inr (j, db1) \<Rightarrow> Inr (j, bump_job_revision db1)
      | Inl e \<Rightarrow>
          if e \<noteq> ErrNoRows then Inl e
          else
            res_bind (load_job (\<lambda>j. j_id j = jid) db) (\<lambda>j.
            if j_resources_released_at j = None then Inl ErrStateConflict else Inr (j, db)))"

definition request_job_cancellation ::
  "clock \<Rightarrow> int \<Rightarrow> int \<Rightarrow> db \<Rightarrow> store_error + ((job_row \<times> bool) \<times> db)" where
  "request_job_cancellation clk jid uid db =
     res_bind (load_job (\<lambda>j. j_id j = jid \<and> j_user_id j = Some uid) db) (\<lambda>cur.
     if \<not> cancellable (j_state cur) then Inl ErrStateConflict
     else if j_cancel_requested_at cur \<noteq> None then Inr ((cur, False), db)
     else
       res_bind (update_job (\<lambda>j. j_id j = jid)
         (\<lambda>j. j\<lparr>j_cancel_requested_at := Some (tx_now clk), j_status_message := msg_cancelling,
                j_updated_at := tx_now clk\<rparr>) db) (\<lambda>(j, db1).
       Inr ((j, True), bump_job_revision db1)))"

definition clear_job_cancellation ::
  "clock \<Rightarrow> int \<Rightarrow> int \<Rightarrow> string \<Rightarrow> db \<Rightarrow> store_error + ((job_row \<times> bool) \<times> db)" where
  "clear_job_cancellation clk jid uid message db =
     (case update_job
             (\<lambda>j. j_id j = jid \<and> j_user_id j = Some uid \<and> j_cancel_requested_at j \<noteq> None \<and>
                  j_state j \<notin> {Completed, Failed, Cancelled, Expired})
             (\<lambda>j. j\<lparr>j_cancel_requested_at := None, j_cancel_confirmed_at := None,
                    j_status_message := trim_space message, j_updated_at := tx_now clk\<rparr>) db of
        Inr (j, db1) \<Rightarrow> Inr ((j, True), bump_job_revision db1)
      | Inl e \<Rightarrow>
          if e \<noteq> ErrNoRows then Inl e
          else res_bind (load_job (\<lambda>j. j_id j = jid \<and> j_user_id j = Some uid) db)
                 (\<lambda>j. Inr ((j, False), db)))"

text \<open>
  A cancellation is confirmed only when no submission can be in doubt: the executor's prompt
  is known, or no submission was begun, or the executor refused it.
\<close>

definition submission_settled :: "job_row \<Rightarrow> bool" where
  "submission_settled j =
     (j_prompt_id j \<noteq> None \<or> j_submission_started_at j = None \<or> j_submission_rejected_at j \<noteq> None)"

definition confirm_job_cancellation ::
  "clock \<Rightarrow> int \<Rightarrow> db \<Rightarrow> store_error + ((job_row \<times> bool) \<times> db)" where
  "confirm_job_cancellation clk jid db =
     (case update_job
             (\<lambda>j. j_id j = jid \<and> j_cancel_requested_at j \<noteq> None \<and> j_cancel_confirmed_at j = None \<and>
                  j_state j \<notin> {Completed, Failed, Cancelled, Expired} \<and> submission_settled j)
             (\<lambda>j. j\<lparr>j_cancel_confirmed_at := Some (tx_now clk),
                    j_status_message := msg_cancel_confirmed, j_updated_at := tx_now clk\<rparr>) db of
        Inr (j, db1) \<Rightarrow> Inr ((j, True), bump_job_revision db1)
      | Inl e \<Rightarrow>
          if e \<noteq> ErrNoRows then Inl e
          else res_bind (load_job (\<lambda>j. j_id j = jid) db) (\<lambda>j. Inr ((j, False), db)))"

section \<open>Queries\<close>

definition generation_job_by_request :: "int \<Rightarrow> string \<Rightarrow> db \<Rightarrow> store_error + job_row" where
  "generation_job_by_request uid rid db =
     load_job (\<lambda>j. j_user_id j = Some uid \<and> j_request_id j = trim_space rid) db"

definition generation_job_by_public_id :: "int \<Rightarrow> string \<Rightarrow> db \<Rightarrow> store_error + job_row" where
  "generation_job_by_public_id uid pid db =
     load_job (\<lambda>j. j_user_id j = Some uid \<and> j_public_id j = trim_space pid) db"

definition generation_job_by_prompt_id :: "string \<Rightarrow> db \<Rightarrow> store_error + job_row" where
  "generation_job_by_prompt_id pid db = load_job (\<lambda>j. j_prompt_id j = Some (trim_space pid)) db"

definition generation_job_by_id :: "int \<Rightarrow> db \<Rightarrow> store_error + job_row" where
  "generation_job_by_id jid db = load_job (\<lambda>j. j_id j = jid) db"

fun scan_jobs :: "job_row list \<Rightarrow> store_error + job_row list" where
  "scan_jobs [] = Inr []"
| "scan_jobs (j # js) =
     res_bind (scan_job j) (\<lambda>k. res_bind (scan_jobs js) (\<lambda>ks. Inr (k # ks)))"

definition list_generation_jobs ::
  "int \<Rightarrow> int \<Rightarrow> int \<Rightarrow> db \<Rightarrow> store_error + job_row list" where
  "list_generation_jobs uid limit finished_after db =
     scan_jobs (take (nat (bounded_limit limit 1 100))
       (sort_key (\<lambda>j. - j_created_at j) (sort_key (\<lambda>j. - j_id j)
         (filter (\<lambda>j. j_user_id j = Some uid \<and>
            (j_state j \<notin> {Completed, Failed, Cancelled, Expired} \<or>
             (case j_finished_at j of None \<Rightarrow> j_created_at j | Some t \<Rightarrow> t) > finished_after))
          (jobs db)))))"

definition list_active_generation_jobs :: "int \<Rightarrow> db \<Rightarrow> store_error + job_row list" where
  "list_active_generation_jobs limit db =
     scan_jobs (take (nat (bounded_limit limit 1 500))
       (sort_key j_created_at (sort_key j_id
         (filter (\<lambda>j. j_state j \<notin> {Completed, Failed, Cancelled, Expired}) (jobs db)))))"

definition generation_job_transitions :: "int \<Rightarrow> int \<Rightarrow> db \<Rightarrow> transition_row list" where
  "generation_job_transitions jid uid db =
     sort_key t_created_at (filter (\<lambda>t. t_job_id t = jid \<and>
        sql_exists (\<lambda>j. j_id j = jid \<and> j_user_id j = Some uid) (jobs db)) (transitions db))"

section \<open>The operations keep the rows' invariant\<close>

text \<open>
  For every operation \<open>op\<close>, a lemma \<open>op_safe\<close>: its commit keeps \<open>jobs_inv\<close> and changes
  rows only as \<open>row_evolves\<close> allows.
\<close>

lemma prompt_not_empty: "job_row_ok j \<Longrightarrow> j_prompt_id j = Some p \<Longrightarrow> p \<noteq> []"
  by (auto simp: job_row_ok_def text_between_def rune_count_def bytes_of_def)

lemma trim_transition_paramsD:
  "trim_transition_params p0 = Inr p \<Longrightarrow> tp_state p = tp_state p0 \<and>
     (if tp_state p = Failed then tp_error_code p \<noteq> [] \<and> tp_message p \<noteq> []
      else tp_error_code p = [] \<and> tp_error_message p = [])"
  by (auto simp: trim_transition_params_def Let_def split: if_splits)

lemma set_status_inv:
  assumes "job_inv j" "tp_state p = j_state j" "\<not> terminal (j_state j)"
    and "if tp_state p = Failed then tp_error_code p \<noteq> [] \<and> tp_message p \<noteq> []
      else tp_error_code p = [] \<and> tp_error_message p = []"
  shows "job_inv (set_status clk p a j) \<and> row_evolves j (set_status clk p a j)"
  using assms by (auto simp: set_status_def job_inv_def row_evolves_def)

lemma edge_into_bound:
  "can_transition p q \<Longrightarrow> q \<noteq> p \<Longrightarrow> q \<in> {Queued, Running, Postprocessing, Archiving, Completed} \<Longrightarrow>
     q = Queued \<or> p \<in> {Queued, Running, Postprocessing, Archiving, Completed}"
  by (cases p) (auto simp: can_transition_def)

lemma set_transition_inv:
  assumes "job_inv j" "job_row_ok j" "can_transition (j_state j) (tp_state p)" "tp_state p \<noteq> j_state j"
    and "tp_state p = Queued \<Longrightarrow> go_string (j_prompt_id j) \<noteq> []"
    and "terminal (tp_state p) \<Longrightarrow> j_resources_released_at j \<noteq> None"
    and "if tp_state p = Failed then tp_error_code p \<noteq> [] \<and> tp_message p \<noteq> []
      else tp_error_code p = [] \<and> tp_error_message p = []"
  shows "job_inv (set_transition clk p a j) \<and> row_evolves j (set_transition clk p a j)"
proof -
  have nt: "\<not> terminal (j_state j)"
    using assms(3,4) terminal_stuck by blast
  have fin: "tp_state p \<in> {Completed, Failed, Cancelled, Expired} \<longleftrightarrow> terminal (tp_state p)"
    by (auto simp: terminal_def)
  have bound: "j_state j \<in> {Queued, Running, Postprocessing, Archiving, Completed} \<Longrightarrow>
                 j_prompt_id j \<noteq> None"
    using assms(1) unfolding job_inv_def by blast
  have pr: "tp_state p \<in> {Queued, Running, Postprocessing, Archiving, Completed} \<Longrightarrow>
                   j_prompt_id j \<noteq> None"
    using bound edge_into_bound[OF assms(3,4)] assms(5) go_string_None by blast
  have fin0: "j_finished_at j = None" using assms(1) nt by (simp add: job_inv_def)
  have "job_inv (set_transition clk p a j)"
  proof (cases "tp_state p = Failed")
    case True
    with assms fin0 show ?thesis by (simp add: set_transition_def job_inv_def terminal_def)
  next
    case False
    have rest: "j_quota_committed_at j \<noteq> None \<longrightarrow> j_quota_reserved_on j \<noteq> None \<and> j_prompt_id j \<noteq> None"
      "j_cancel_confirmed_at j \<noteq> None \<longrightarrow> j_cancel_requested_at j \<noteq> None"
      "j_submission_rejected_at j \<noteq> None \<longrightarrow> j_submission_started_at j \<noteq> None"
      "j_dispatch_closed_at j \<noteq> None \<longrightarrow>
         j_dispatch_token j = [] \<and> j_dispatch_queued_at j = None \<and>
         (j_prompt_id j \<noteq> None \<or> j_submission_started_at j = None \<or>
          j_submission_rejected_at j \<noteq> None)"
      using assms(1) by (simp_all add: job_inv_def)
    from False assms(6,7) fin0 pr fin rest show ?thesis
      by (simp add: set_transition_def job_inv_def)
  qed
  moreover have "row_evolves j (set_transition clk p a j)"
    using assms(3) nt fin0
    by (simp add: set_transition_def row_evolves_def job_moves_step kept_iff)
  ultimately show ?thesis ..
qed

lemma default_row_inv: "job_inv (params_job_row clk p\<lparr>j_status_message := m, j_id := i\<rparr>)"
  by (simp add: params_job_row_def default_job_row_def job_inv_def terminal_def)

lemma claimed_row_inv: "job_inv (claimed_job_row clk p prompt\<lparr>j_id := i\<rparr>)"
  by (auto simp: claimed_job_row_def Let_def params_job_row_def default_job_row_def job_inv_def
      terminal_def)

lemma safe_record_created: "record_created clk uid j s = Inr t \<Longrightarrow> safe_step s t"
  unfolding record_created_def res_bind_Inr sum.inject
  by (blast intro: safe_step_trans safe_append_transition safe_bump_user_revision
      safe_bump_job_revision)

lemma safe_link_request: "link_request j uid rid b s = Inr t \<Longrightarrow> safe_step s t"
  by (auto simp: link_request_def res_bind_Inr intro: safe_update_requests)

lemma create_safe: 
  assumes "create_generation_job clk p s = Inr (x, t)" shows "safe_step s t"
proof -
  from assms consider "t = s" | j s1 m q where
    "insert_job ((params_job_row clk q)\<lparr>j_status_message := m\<rparr>) s = Inr (Some (j, s1))"
    "record_created clk (cp_user_id q) j s1 = Inr t"
    by (auto simp: create_generation_job_def res_bind_Inr split: if_splits option.splits prod.splits)
  then show ?thesis
  proof cases
    case 2
    then have "job_inv j" by (auto simp: insert_job_Inr default_row_inv)
    with 2 show ?thesis
      by (blast intro: safe_step_trans safe_insert_job safe_record_created)
  qed simp
qed

lemma claim_safe:
  assumes "claim_generation_job clk p s = Inr (x, t)" shows "safe_step s t"
proof -
  from assms obtain q s1 b where
    ins: "insert_request (new_request clk (cp_user_id q) (cp_request_id q) (cp_correlation_id q)) s = Inr (b, s1)"
    and rest: "(\<exists>j. link_request j (cp_user_id q) (cp_request_id q) True s1 = Inr t) \<or>
      (\<exists>j. link_request j (cp_user_id q) (cp_request_id q) False s1 = Inr t) \<or>
      (\<exists>prompt j s2 s3. insert_job (claimed_job_row clk q prompt) s1 = Inr (Some (j, s2)) \<and>
         link_request j (cp_user_id q) (cp_request_id q) False s2 = Inr s3 \<and>
         record_created clk (cp_user_id q) j s3 = Inr t)"
    by (auto simp: claim_generation_job_def res_bind_Inr Let_def
        split: if_splits option.splits sum.splits prod.splits) blast+
  have "safe_step s1 t"
    using rest
  proof (elim disjE exE conjE)
    fix prompt j s2 s3
    assume i: "insert_job (claimed_job_row clk q prompt) s1 = Inr (Some (j, s2))"
      and "link_request j (cp_user_id q) (cp_request_id q) False s2 = Inr s3"
        "record_created clk (cp_user_id q) j s3 = Inr t"
    moreover from i have "job_inv j" by (auto simp: insert_job_Inr claimed_row_inv)
    ultimately show ?thesis
      by (blast intro: safe_step_trans safe_insert_job safe_record_created safe_link_request)
  qed (auto intro: safe_link_request)
  with safe_insert_request[OF ins] show ?thesis by (rule safe_step_trans)
qed

lemma safe_bind_leases: "safe_step s (bind_leases j pid s)"
  by (rule same_jobs_safe) (simp add: bind_leases_def same_jobs_def)

lemma safe_bind_owner_request: "bind_owner_request clk j pid s = Inr t \<Longrightarrow> safe_step s t"
  by (auto simp: res_bind_Inr split: option.splits intro: safe_update_requests)

lemma prepare_safe: 
  assumes "prepare_generation_job clk jid pr s = Inr (x, t)" shows "safe_step s t"
proof -
  from assms obtain s1 f where upd: "update_job (\<lambda>j. j_id j = jid \<and> j_state j \<in> {Draft, Preparing, Uploading}) f s = Inr (x, s1)"
    and f: "f = (\<lambda>j. j\<lparr>j_template_id := trim_space (pr_template_id pr),
               j_workflow_id := trim_space (pr_workflow_id pr),
               j_model_name := trim_space (pr_model_name pr), j_seed := pr_seed pr,
               j_payload_cipher := pr_payload_cipher pr,
               j_dependencies := unique_strings (pr_dependencies pr),
               j_input_count := pr_input_count pr, j_updated_at := tx_now clk\<rparr>)"
    and t: "t = bump_job_revision s1"
    unfolding prepare_generation_job_def by (auto simp: res_bind_Inr)
  have "safe_step s s1"
    by (rule safe_update_job[OF upd]) (simp add: f job_inv_def row_evolves_def)
  then show ?thesis unfolding t by (rule safe_step_trans) (rule safe_bump_job_revision)
qed

lemma bind_safe:
  assumes "bind_generation_job_prompt clk jid p s = Inr (x, t)" shows "safe_step s t"
proof -
  let ?f = "\<lambda>j. j\<lparr>j_prompt_id := Some (trim_space p), j_updated_at := tx_now clk\<rparr>"
  from assms consider
      j s1 s2 where "update_job (\<lambda>j. j_id j = jid \<and> j_prompt_id j = None) ?f s = Inr (j, s1)"
        "bind_owner_request clk j (trim_space p) s1 = Inr s2"
        "t = bump_job_revision (bind_leases j (trim_space p) s2)"
    | j s2 where "bind_owner_request clk j (trim_space p) s = Inr s2"
        "t = bind_leases j (trim_space p) s2"
    by (auto simp: bind_generation_job_prompt_def res_bind_Inr Let_def
        simp del: bind_owner_request.simps split: if_splits sum.splits)
  then show ?thesis
  proof cases
    case 1
    have "safe_step s s1"
      by (rule safe_update_job[OF 1(1)]) (simp add: job_inv_def row_evolves_def)
    with 1 show ?thesis
      by (metis safe_step_trans safe_bind_owner_request safe_bind_leases safe_bump_job_revision)
  next
    case 2
    then show ?thesis by (metis safe_step_trans safe_bind_owner_request safe_bind_leases)
  qed
qed

lemma safe_record_transition: "record_transition clk cur j s = Inr t \<Longrightarrow> safe_step s t"
  unfolding record_transition_def res_bind_Inr sum.inject
  by (blast intro: safe_step_trans safe_append_transition safe_create_job_notification
      safe_bump_owner_revision safe_bump_job_revision)

lemma apply_transition_Inr:
  "apply_transition clk jid cur p a s = Inr ((k, c), t) \<longleftrightarrow>
     (if j_state cur = tp_state p then
        (if j_status_message cur = tp_message p \<and> j_error_code cur = tp_error_code p \<and>
            j_error_message cur = tp_error_message p \<and> j_attempt cur = a
         then k = cur \<and> \<not> c \<and> t = s
         else \<not> terminal (j_state cur) \<and> c \<and>
           (\<exists>s1. update_job (\<lambda>j. j_id j = jid) (set_status clk p a) s = Inr (k, s1) \<and>
                 t = bump_job_revision s1))
      else c \<and> can_transition (j_state cur) (tp_state p) \<and>
        (tp_state p = Queued \<longrightarrow> go_string (j_prompt_id cur) \<noteq> []) \<and>
        (terminal (tp_state p) \<longrightarrow> j_resources_released_at cur \<noteq> None) \<and>
        (\<exists>s1. update_job (\<lambda>j. j_id j = jid) (set_transition clk p a) s = Inr (k, s1) \<and>
              record_transition clk cur k s1 = Inr t))"
  by (auto simp: apply_transition_def res_bind_Inr)

lemma transition_generation_job_Inr:
  "transition_generation_job clk jid params s = Inr r \<longleftrightarrow>
     job_state_valid (tp_state params) \<and>
     (\<exists>cur p. load_job (\<lambda>j. j_id j = jid) s = Inr cur \<and>
        trim_transition_params params = Inr p \<and>
        1 \<le> chosen_attempt params cur \<and> chosen_attempt params cur \<le> 100 \<and>
        apply_transition clk jid cur p (chosen_attempt params cur) s = Inr r)"
  by (auto simp: transition_generation_job_def res_bind_Inr guard_Inr not_less)

lemma transition_safe:
  assumes "transition_generation_job clk jid params s = Inr (x, t)"
  shows "safe_step s t"
proof -
  obtain k c where x: "x = (k, c)" by (cases x)
  from assms obtain cur p where l: "load_job (\<lambda>j. j_id j = jid) s = Inr cur"
    and p: "trim_transition_params params = Inr p"
    and "apply_transition clk jid cur p (chosen_attempt params cur) s = Inr ((k, c), t)"
    unfolding x transition_generation_job_Inr by blast
  then obtain a where ap: "apply_transition clk jid cur p a s = Inr ((k, c), t)" by blast
  note det = trim_transition_paramsD[OF p, THEN conjunct2]
  have cur: "j = cur" if "jobs_inv s" "j \<in> set (jobs s)" "j_id j = jid" for j
    using load_job_by_id_unique[OF that(1) l that(2,3)] .
  consider "t = s"
    | s1 where "j_state cur = tp_state p" "\<not> terminal (j_state cur)"
        "update_job (\<lambda>j. j_id j = jid) (set_status clk p a) s = Inr (k, s1)"
        "t = bump_job_revision s1"
    | s1 where "j_state cur \<noteq> tp_state p" "can_transition (j_state cur) (tp_state p)"
        "tp_state p = Queued \<longrightarrow> go_string (j_prompt_id cur) \<noteq> []"
        "terminal (tp_state p) \<longrightarrow> j_resources_released_at cur \<noteq> None"
        "update_job (\<lambda>j. j_id j = jid) (set_transition clk p a) s = Inr (k, s1)"
        "record_transition clk cur k s1 = Inr t"
    using ap unfolding apply_transition_Inr by (auto split: if_split_asm)
  then show ?thesis
  proof cases
    case 2
    have "safe_step s s1"
    proof (rule safe_update_job[OF 2(3)])
      fix j
      assume "jobs_inv s" "j \<in> set (jobs s)" "j_id j = jid" and inv: "job_inv j"
      then have "j = cur" using cur by blast
      with 2 det inv show "job_inv (set_status clk p a j) \<and> row_evolves j (set_status clk p a j)"
        by (intro set_status_inv) auto
    qed
    with 2 show ?thesis using safe_step_trans safe_bump_job_revision by blast
  next
    case 3
    have "safe_step s s1"
    proof (rule safe_update_job[OF 3(5)])
      fix j
      assume "jobs_inv s" "j \<in> set (jobs s)" "j_id j = jid" and inv: "job_inv j" "job_row_ok j"
      then have "j = cur" using cur by blast
      with 3 det inv show "job_inv (set_transition clk p a j) \<and> row_evolves j (set_transition clk p a j)"
        by (intro set_transition_inv) auto
    qed
    with 3 show ?thesis using safe_step_trans safe_record_transition by blast
  qed simp
qed


lemma terminal_set: "q \<in> {Completed, Failed, Cancelled, Expired} \<longleftrightarrow> terminal q"
  by (auto simp: terminal_def)

lemma unreleased_open:
  "job_inv j \<Longrightarrow> j_resources_released_at j = None \<Longrightarrow> \<not> terminal (j_state j) \<and> j_finished_at j = None"
  unfolding job_inv_def by blast

lemma mark_released_safe:
  assumes "mark_resources_released clk jid s = Inr (x, t)"
  shows "safe_step s t"
proof -
  let ?f = "\<lambda>j. j\<lparr>j_resources_released_at := Some (tx_now clk), j_updated_at := tx_now clk\<rparr>"
  from assms consider "t = s"
    | s1 where "update_job (\<lambda>j. j_id j = jid \<and> j_resources_released_at j = None \<and>
          \<not> job_has_lease jid s) ?f s = Inr (x, s1)" "t = bump_job_revision s1"
    by (auto simp: mark_resources_released_def res_bind_Inr split: sum.splits if_splits)
  then show ?thesis
  proof cases
    case 2
    have "safe_step s s1"
    proof (rule safe_update_job[OF 2(1)])
      fix j
      assume "j_id j = jid \<and> j_resources_released_at j = None \<and> \<not> job_has_lease jid s"
        and inv: "job_inv j"
      then have "\<not> terminal (j_state j)" "j_finished_at j = None" "j_resources_released_at j = None"
        using unreleased_open by auto
      with inv show "job_inv (?f j) \<and> row_evolves j (?f j)"
        unfolding job_inv_def row_evolves_def by simp
    qed
    with 2 show ?thesis using safe_step_trans safe_bump_job_revision by blast
  qed simp
qed

lemma request_cancellation_safe:
  assumes "request_job_cancellation clk jid uid s = Inr (x, t)"
  shows "safe_step s t"
proof -
  let ?f = "\<lambda>j. j\<lparr>j_cancel_requested_at := Some (tx_now clk), j_status_message := msg_cancelling,
                j_updated_at := tx_now clk\<rparr>"
  from assms consider "t = s"
    | cur k s1 where "load_job (\<lambda>j. j_id j = jid \<and> j_user_id j = Some uid) s = Inr cur"
        "cancellable (j_state cur)" "update_job (\<lambda>j. j_id j = jid) ?f s = Inr (k, s1)"
        "t = bump_job_revision s1"
    by (auto simp: request_job_cancellation_def res_bind_Inr split: if_splits)
  then show ?thesis
  proof cases
    case 2
    have "safe_step s s1"
    proof (rule safe_update_job[OF 2(3)])
      fix j
      assume "jobs_inv s" "j \<in> set (jobs s)" "j_id j = jid" and inv: "job_inv j"
      moreover have "cur \<in> set (jobs s)" "j_id cur = jid" using load_job_in[OF 2(1)] by auto
      ultimately have "j = cur" using jobs_inv_unique unique_keyD by metis
      then have c: "cancellable (j_state j)" using 2 by simp
      then have "\<not> terminal (j_state j)" "j_state j \<noteq> Failed"
        by (auto dest: cancellable_not_terminal)
      with inv show "job_inv (?f j) \<and> row_evolves j (?f j)"
        by (simp add: job_inv_def row_evolves_def)
    qed
    with 2 show ?thesis using safe_step_trans safe_bump_job_revision by blast
  qed simp
qed

lemma clear_cancellation_safe:
  assumes "clear_job_cancellation clk jid uid m s = Inr (x, t)"
  shows "safe_step s t"
proof -
  let ?P = "\<lambda>j. j_id j = jid \<and> j_user_id j = Some uid \<and> j_cancel_requested_at j \<noteq> None \<and>
                  j_state j \<notin> {Completed, Failed, Cancelled, Expired}"
  let ?f = "\<lambda>j. j\<lparr>j_cancel_requested_at := None, j_cancel_confirmed_at := None,
                    j_status_message := trim_space m, j_updated_at := tx_now clk\<rparr>"
  from assms consider "t = s"
    | k s1 where "update_job ?P ?f s = Inr (k, s1)" "t = bump_job_revision s1"
    unfolding clear_job_cancellation_def
    by (auto simp: res_bind_Inr simp del: insert_iff split: sum.splits if_splits)
  then show ?thesis
  proof cases
    case 2
    have "safe_step s s1"
      by (rule safe_update_job[OF 2(1)]) (simp add: job_inv_def row_evolves_def terminal_def)
    with 2 show ?thesis using safe_step_trans safe_bump_job_revision by blast
  qed simp
qed

lemma confirm_cancellation_safe:
  assumes "confirm_job_cancellation clk jid s = Inr (x, t)"
  shows "safe_step s t"
proof -
  let ?P = "\<lambda>j. j_id j = jid \<and> j_cancel_requested_at j \<noteq> None \<and> j_cancel_confirmed_at j = None \<and>
                  j_state j \<notin> {Completed, Failed, Cancelled, Expired} \<and> submission_settled j"
  let ?f = "\<lambda>j. j\<lparr>j_cancel_confirmed_at := Some (tx_now clk),
                    j_status_message := msg_cancel_confirmed, j_updated_at := tx_now clk\<rparr>"
  from assms consider "t = s"
    | k s1 where "update_job ?P ?f s = Inr (k, s1)" "t = bump_job_revision s1"
    unfolding confirm_job_cancellation_def
    by (auto simp: res_bind_Inr simp del: insert_iff split: sum.splits if_splits)
  then show ?thesis
  proof cases
    case 2
    have "safe_step s s1"
      by (rule safe_update_job[OF 2(1)]) (simp add: job_inv_def row_evolves_def terminal_def)
    with 2 show ?thesis using safe_step_trans safe_bump_job_revision by blast
  qed simp
qed

end
