(* ===== verification/Dispatch.thy ===== *)
theory Dispatch
  imports JobStore
begin

text \<open>
  The dispatch queue (\<open>store/generation_dispatch.go\<close>): publishing a prepared job, the leased
  claim of the next one under the batch limits and the owner's priority, the marker written
  before the network call, its refusal or postponement, and the fence that closes a job
  before its resources are released.  \<open>FOR UPDATE SKIP LOCKED\<close> leaves out the rows another
  transaction holds; they are the parameter \<open>locked\<close>.
\<close>

definition generation_dispatch_lease :: int where
  "generation_dispatch_lease = 2 * minute_ns"

definition gpu_priority_head_start :: int where
  "gpu_priority_head_start = 10 * minute_ns"

definition gpu_text_valid :: "string \<Rightarrow> nat \<Rightarrow> bool" where
  "gpu_text_valid value limit =
     (utf8_valid value \<and> CHR 0x00 \<notin> set value \<and> rune_count value \<le> limit)"

definition queue_generation_dispatch ::
  "clock \<Rightarrow> int \<Rightarrow> db \<Rightarrow> store_error + (job_row \<times> db)" where
  "queue_generation_dispatch clk jid db =
     res_bind (on_no_rows ErrStateConflict (update_job
        (\<lambda>j. j_id j = jid \<and> j_state j = WaitingForResources \<and> j_batch_id j = None \<and>
             j_prompt_id j = None \<and> j_submission_started_at j = None \<and>
             j_cancel_requested_at j = None \<and> j_dispatch_closed_at j = None \<and>
             j_resources_released_at j = None \<and> j_quota_reserved_on j \<noteq> None \<and>
             (case j_payload_cipher j of None \<Rightarrow> False | Some c \<Rightarrow> length c > 0))
        (\<lambda>j. j\<lparr>j_dispatch_queued_at :=
                  (case j_dispatch_queued_at j of None \<Rightarrow> Some (tx_now clk) | Some q \<Rightarrow> Some q),
               j_updated_at := tx_now clk\<rparr>) db))
     (\<lambda>(j, db1). Inr (j, bump_job_revision db1))"

section \<open>The next job\<close>

definition running_states :: "job_state list" where
  "running_states =
     [Preparing, Uploading, WaitingForResources, Queued, Running, Postprocessing, Archiving]"

definition in_running_state :: "job_row \<Rightarrow> bool" where
  "in_running_state j = (j_state j \<in> set running_states)"

definition batch_cancelled :: "job_row \<Rightarrow> db \<Rightarrow> bool" where
  "batch_cancelled j db =
     (case j_batch_id j of
        None \<Rightarrow> False
      | Some bid \<Rightarrow> sql_exists (\<lambda>b. b_id b = bid \<and> b_cancel_requested_at b \<noteq> None) (batches db))"

text \<open>A sibling that must come first or is still working.\<close>

definition blocking_sibling :: "job_row \<Rightarrow> job_row \<Rightarrow> bool" where
  "blocking_sibling j s =
     (j_batch_id s = j_batch_id j \<and> j_batch_id j \<noteq> None \<and> j_id s \<noteq> j_id j \<and>
      (in_running_state s \<or>
       (j_state s = Draft \<and> j_batch_position s < j_batch_position j \<and>
        j_cancel_requested_at s = None)))"

definition active_batch_jobs :: "job_row \<Rightarrow> db \<Rightarrow> nat" where
  "active_batch_jobs j db =
     sql_count (\<lambda>a. j_batch_id a \<noteq> None \<and> j_id a \<noteq> j_id j \<and> in_running_state a) (jobs db)"

definition dispatch_candidate :: "clock \<Rightarrow> int \<Rightarrow> db \<Rightarrow> job_row \<Rightarrow> bool" where
  "dispatch_candidate clk max_batches db j =
     (j_prompt_id j = None \<and> j_submission_started_at j = None \<and>
      j_dispatch_closed_at j = None \<and> j_resources_released_at j = None \<and>
      j_cancel_requested_at j = None \<and> \<not> batch_cancelled j db \<and>
      (case j_dispatch_until j of None \<Rightarrow> True | Some u \<Rightarrow> u < tx_clock clk) \<and>
      ((j_batch_id j = None \<and> j_dispatch_queued_at j \<noteq> None \<and> j_state j = WaitingForResources) \<or>
       (j_batch_id j \<noteq> None \<and>
        (j_state j = Draft \<or>
         (j_dispatch_queued_at j \<noteq> None \<and> j_state j \<in> {Preparing, Uploading, WaitingForResources})) \<and>
        \<not> sql_exists (blocking_sibling j) (jobs db) \<and>
        int (active_batch_jobs j db) < max_batches)))"

definition owner_priority :: "job_row \<Rightarrow> db \<Rightarrow> bool" where
  "owner_priority j db =
     (case j_user_id j of
        None \<Rightarrow> False
      | Some uid \<Rightarrow>
          (case sql_find (\<lambda>u. u_id u = uid) (users db) of None \<Rightarrow> False | Some u \<Rightarrow> u_queue_priority u))"

definition dispatch_key :: "db \<Rightarrow> job_row \<Rightarrow> int" where
  "dispatch_key db j =
     j_created_at j - (if owner_priority j db then usec (dur_seconds gpu_priority_head_start) else 0)"

definition dispatch_before :: "db \<Rightarrow> job_row \<Rightarrow> job_row \<Rightarrow> bool" where
  "dispatch_before db j k =
     (dispatch_key db j < dispatch_key db k \<or>
      (dispatch_key db j = dispatch_key db k \<and> j_id j \<le> j_id k))"

definition next_dispatch :: "clock \<Rightarrow> (int \<Rightarrow> bool) \<Rightarrow> int \<Rightarrow> db \<Rightarrow> job_row option" where
  "next_dispatch clk locked max_batches db =
     sql_first (dispatch_before db)
       (filter (\<lambda>j. dispatch_candidate clk max_batches db j \<and> \<not> locked (j_id j)) (jobs db))"

definition clamp_batches :: "int \<Rightarrow> int" where
  "clamp_batches n = (if n < 1 then 1 else if n > 8 then 8 else n)"

definition set_claim :: "clock \<Rightarrow> string \<Rightarrow> job_row \<Rightarrow> job_row" where
  "set_claim clk token j =
     j\<lparr>j_dispatch_queued_at :=
         (case j_dispatch_queued_at j of None \<Rightarrow> Some (j_created_at j) | Some q \<Rightarrow> Some q),
       j_dispatch_token := token,
       j_dispatch_until := Some (tx_clock clk + usec (dur_seconds generation_dispatch_lease)),
       j_state := (if j_state j = Draft then Preparing else j_state j),
       j_status_message := msg_dispatching,
       j_state_changed_at := (if j_state j = Draft then tx_now clk else j_state_changed_at j),
       j_updated_at := tx_now clk\<rparr>"

definition claim_transition :: "clock \<Rightarrow> job_row \<Rightarrow> job_row \<Rightarrow> transition_row" where
  "claim_transition clk prev j =
     \<lparr>t_job_id = j_id prev, t_correlation_id = j_correlation_id j, t_from = Some (j_state prev),
      t_to = j_state j, t_message = j_status_message j, t_error_code = [], t_error_message = [],
      t_attempt = j_attempt j, t_duration_ms = since_ms (go_now clk) (j_state_changed_at prev),
      t_created_at = tx_now clk\<rparr>"

definition log_claim :: "clock \<Rightarrow> job_row \<Rightarrow> job_row \<Rightarrow> db \<Rightarrow> store_error + db" where
  "log_claim clk prev j db =
     (if j_state prev \<noteq> j_state j then append_transition (claim_transition clk prev j) db
      else Inr db)"

definition touch_batch :: "clock \<Rightarrow> int option \<Rightarrow> db \<Rightarrow> db" where
  "touch_batch clk bid db =
     (case bid of
        None \<Rightarrow> db
      | Some b \<Rightarrow> db\<lparr>batches := sql_update (\<lambda>r. b_id r = b) (\<lambda>r. r\<lparr>b_updated_at := tx_now clk\<rparr>)
                                (batches db)\<rparr>)"

definition claim_next_dispatch ::
  "clock \<Rightarrow> (int \<Rightarrow> bool) \<Rightarrow> string \<Rightarrow> int \<Rightarrow> db \<Rightarrow> store_error + (job_row \<times> db)" where
  "claim_next_dispatch clk locked token max_active db =
     (if token = [] \<or> \<not> gpu_text_valid token 96 then Inl ErrGpuInput
      else
        (case next_dispatch clk locked (clamp_batches max_active) db of
           None \<Rightarrow> Inl ErrNoRows
         | Some c \<Rightarrow>
             res_bind (load_job (\<lambda>j. j_id j = j_id c) db) (\<lambda>prev.
             res_bind (update_job (\<lambda>j. j_id j = j_id c) (set_claim clk token) db) (\<lambda>(j, db1).
             res_bind (log_claim clk prev j db1) (\<lambda>db2.
             res_bind (bump_owner_revision (j_user_id j) (touch_batch clk (j_batch_id j) db2)) (\<lambda>db3.
             Inr (j, bump_job_revision db3)))))))"

section \<open>The submission marker\<close>

text \<open>An UPDATE executed for its row count; \<open>id\<close> is the primary key, so it is 0 or 1.\<close>

definition exec_one :: "store_error + (job_row \<times> db) \<Rightarrow> store_error + db" where
  "exec_one r = res_bind (on_no_rows ErrStateConflict r) (\<lambda>(j, db1). Inr db1)"

definition begin_job_submission :: "clock \<Rightarrow> int \<Rightarrow> string \<Rightarrow> db \<Rightarrow> store_error + db" where
  "begin_job_submission clk jid token db =
     (if token = [] then Inl ErrStateConflict
      else exec_one (update_job
        (\<lambda>j. j_id j = jid \<and> j_dispatch_token j = token \<and>
             (case j_dispatch_until j of None \<Rightarrow> False | Some u \<Rightarrow> u > tx_clock clk) \<and>
             j_state j = WaitingForResources \<and> j_prompt_id j = None \<and>
             j_submission_started_at j = None \<and> j_cancel_requested_at j = None \<and>
             j_dispatch_closed_at j = None \<and> j_resources_released_at j = None)
        (\<lambda>j. j\<lparr>j_submission_started_at := Some (tx_clock clk), j_updated_at := tx_now clk\<rparr>) db))"

definition postpone_dispatch :: "clock \<Rightarrow> int \<Rightarrow> string \<Rightarrow> db \<Rightarrow> store_error + db" where
  "postpone_dispatch clk jid token db =
     exec_one (update_job
        (\<lambda>j. j_id j = jid \<and> j_dispatch_token j = token \<and> j_submission_started_at j = None \<and>
             j_prompt_id j = None \<and> j_state j = WaitingForResources \<and>
             j_cancel_requested_at j = None \<and> j_dispatch_closed_at j = None \<and>
             j_resources_released_at j = None)
        (\<lambda>j. j\<lparr>j_dispatch_token := [], j_dispatch_until := Some (tx_clock clk + usec 5),
               j_status_message := msg_waiting_slot, j_updated_at := tx_now clk\<rparr>) db)"

definition reject_job_submission :: "clock \<Rightarrow> int \<Rightarrow> string \<Rightarrow> db \<Rightarrow> store_error + db" where
  "reject_job_submission clk jid token db =
     exec_one (update_job
        (\<lambda>j. j_id j = jid \<and> j_dispatch_token j = token \<and> j_submission_started_at j \<noteq> None \<and>
             j_prompt_id j = None)
        (\<lambda>j. j\<lparr>j_submission_rejected_at := Some (tx_now clk), j_updated_at := tx_now clk\<rparr>) db)"

definition fence_resource_release ::
  "clock \<Rightarrow> int \<Rightarrow> string \<Rightarrow> db \<Rightarrow> store_error + (bool \<times> db)" where
  "fence_resource_release clk jid token db =
     (case update_job
        (\<lambda>j. j_id j = jid \<and>
             (j_dispatch_token j = token \<or> j_dispatch_token j = [] \<or> j_prompt_id j \<noteq> None) \<and>
             submission_settled j)
        (\<lambda>j. j\<lparr>j_dispatch_closed_at :=
                  (case j_dispatch_closed_at j of None \<Rightarrow> Some (tx_clock clk) | Some c \<Rightarrow> Some c),
               j_dispatch_until := Some (tx_clock clk), j_dispatch_queued_at := None,
               j_dispatch_token := []\<rparr>) db of
        Inr (j, db1) \<Rightarrow> Inr (True, db1)
      | Inl e \<Rightarrow> if e = ErrNoRows then Inr (False, db) else Inl e)"

section \<open>The operations keep the rows' invariant\<close>

lemma exec_one_Inr: "exec_one r = Inr t \<longleftrightarrow> (\<exists>j. r = Inr (j, t))"
  by (auto simp: exec_one_def res_bind_Inr)

lemma next_dispatch_candidate:
  assumes "next_dispatch clk locked n db = Some c"
  shows "c \<in> set (jobs db) \<and> dispatch_candidate clk n db c \<and> \<not> locked (j_id c)"
  using sql_first_in[OF assms[unfolded next_dispatch_def]] by simp

lemma candidate_open:
  "dispatch_candidate clk n db j \<Longrightarrow>
     j_state j \<in> {Draft, Preparing, Uploading, WaitingForResources} \<and> j_prompt_id j = None \<and>
     j_dispatch_closed_at j = None \<and> j_submission_started_at j = None"
  unfolding dispatch_candidate_def by auto

lemma set_claim_inv:
  assumes "job_inv j" "j_state j \<in> {Draft, Preparing, Uploading, WaitingForResources}"
    and "j_dispatch_closed_at j = None"
  shows "job_inv (set_claim clk token j) \<and> row_evolves j (set_claim clk token j)"
proof -
  have "job_moves (j_state j) (if j_state j = Draft then Preparing else j_state j)"
    by (auto intro: job_moves_step simp: can_transition_def)
  moreover have "j_finished_at j = None" "j_error_code j = []" "j_error_message j = []"
    using assms(2) job_inv_finished[OF assms(1)] job_inv_details[OF assms(1)]
    by (auto simp: terminal_def)
  ultimately show ?thesis
    using assms unfolding set_claim_def job_inv_def row_evolves_def
    by (elim insertE emptyE) (simp_all add: terminal_def)
qed

lemma queue_dispatch_safe:
  assumes "queue_generation_dispatch clk jid s = Inr (x, t)"
  shows "safe_step s t"
proof -
  from assms obtain P s1 where upd: "update_job P
        (\<lambda>j. j\<lparr>j_dispatch_queued_at :=
                  (case j_dispatch_queued_at j of None \<Rightarrow> Some (tx_now clk) | Some q \<Rightarrow> Some q),
               j_updated_at := tx_now clk\<rparr>) s = Inr (x, s1)"
    and P: "\<And>j. P j \<Longrightarrow> j_dispatch_closed_at j = None" and t: "t = bump_job_revision s1"
    by (auto simp: queue_generation_dispatch_def res_bind_Inr)
  have "safe_step s s1"
    by (rule safe_update_job[OF upd]) (simp add: P job_inv_def row_evolves_def)
  then show ?thesis unfolding t by (rule safe_step_trans) (rule safe_bump_job_revision)
qed

lemma safe_touch_batch: "safe_step s (touch_batch clk b s)"
  by (rule same_jobs_safe) (simp add: touch_batch_def same_jobs_def split: option.splits)

lemma claim_next_Inr:
  "claim_next_dispatch clk locked token n s = Inr (k, t) \<longleftrightarrow>
     token \<noteq> [] \<and> gpu_text_valid token 96 \<and>
     (\<exists>c prev s1 s2 s3. next_dispatch clk locked (clamp_batches n) s = Some c \<and>
        load_job (\<lambda>j. j_id j = j_id c) s = Inr prev \<and>
        update_job (\<lambda>j. j_id j = j_id c) (set_claim clk token) s = Inr (k, s1) \<and>
        log_claim clk prev k s1 = Inr s2 \<and>
        bump_owner_revision (j_user_id k) (touch_batch clk (j_batch_id k) s2) = Inr s3 \<and>
        t = bump_job_revision s3)"
  by (auto simp: claim_next_dispatch_def res_bind_Inr guard_Inr split: option.splits)

lemma claim_next_safe:
  assumes "claim_next_dispatch clk locked token n s = Inr (k, t)"
  shows "safe_step s t"
proof -
  from assms obtain c prev s1 s2 s3 where
    c: "next_dispatch clk locked (clamp_batches n) s = Some c"
    and upd: "update_job (\<lambda>j. j_id j = j_id c) (set_claim clk token) s = Inr (k, s1)"
    and tr: "log_claim clk prev k s1 = Inr s2"
    and rev: "bump_owner_revision (j_user_id k) (touch_batch clk (j_batch_id k) s2) = Inr s3"
    and t: "t = bump_job_revision s3"
    unfolding claim_next_Inr by blast
  note cand = next_dispatch_candidate[OF c]
  have "safe_step s s1"
  proof (rule safe_update_job[OF upd])
    fix j
    assume "jobs_inv s" "j \<in> set (jobs s)" "j_id j = j_id c" and inv: "job_inv j"
    moreover have "c \<in> set (jobs s)" using cand by blast
    ultimately have "j = c" using jobs_inv_unique unique_keyD by metis
    moreover have "j_state c \<in> {Draft, Preparing, Uploading, WaitingForResources}"
      "j_dispatch_closed_at c = None"
      using candidate_open cand by blast+
    ultimately show "job_inv (set_claim clk token j) \<and> row_evolves j (set_claim clk token j)"
      using inv by (intro set_claim_inv) simp_all
  qed
  moreover have "safe_step s1 s2"
    using tr by (auto simp: log_claim_def split: if_splits intro: safe_append_transition)
  moreover have "safe_step s2 t"
    unfolding t
    by (rule safe_step_trans[OF safe_touch_batch
          safe_step_trans[OF safe_bump_owner_revision[OF rev] safe_bump_job_revision]])
  ultimately show ?thesis using safe_step_trans by blast
qed

lemma begin_safe:
  assumes "begin_job_submission clk jid token s = Inr t"
  shows "safe_step s t"
proof -
  from assms obtain P x where upd: "update_job P
      (\<lambda>j. j\<lparr>j_submission_started_at := Some (tx_clock clk), j_updated_at := tx_now clk\<rparr>) s = Inr (x, t)"
    and P: "\<And>j. P j \<Longrightarrow> j_dispatch_closed_at j = None \<and> j_submission_started_at j = None"
    by (auto simp: begin_job_submission_def exec_one_Inr guard_Inr)
  show ?thesis
    by (rule safe_update_job[OF upd]) (use P in \<open>simp add: job_inv_def row_evolves_def\<close>)
qed

lemma postpone_safe:
  assumes "postpone_dispatch clk jid token s = Inr t"
  shows "safe_step s t"
proof -
  from assms obtain P x where upd: "update_job P
      (\<lambda>j. j\<lparr>j_dispatch_token := [], j_dispatch_until := Some (tx_clock clk + usec 5),
               j_status_message := msg_waiting_slot, j_updated_at := tx_now clk\<rparr>) s = Inr (x, t)"
    and P: "\<And>j. P j \<Longrightarrow> j_state j = WaitingForResources"
    by (auto simp: postpone_dispatch_def exec_one_Inr)
  show ?thesis
    by (rule safe_update_job[OF upd]) (use P in \<open>simp add: job_inv_def row_evolves_def terminal_def\<close>)
qed

lemma reject_safe:
  assumes "reject_job_submission clk jid token s = Inr t"
  shows "safe_step s t"
proof -
  from assms obtain P x where upd: "update_job P
      (\<lambda>j. j\<lparr>j_submission_rejected_at := Some (tx_now clk), j_updated_at := tx_now clk\<rparr>) s = Inr (x, t)"
    and P: "\<And>j. P j \<Longrightarrow> j_submission_started_at j \<noteq> None"
    by (auto simp: reject_job_submission_def exec_one_Inr)
  show ?thesis
    by (rule safe_update_job[OF upd]) (use P in \<open>simp add: job_inv_def row_evolves_def\<close>)
qed

lemma fence_safe:
  assumes "fence_resource_release clk jid token s = Inr (b, t)"
  shows "safe_step s t"
proof -
  let ?f = "\<lambda>j. j\<lparr>j_dispatch_closed_at :=
                  (case j_dispatch_closed_at j of None \<Rightarrow> Some (tx_clock clk) | Some c \<Rightarrow> Some c),
               j_dispatch_until := Some (tx_clock clk), j_dispatch_queued_at := None,
               j_dispatch_token := []\<rparr>"
  from assms consider "t = s"
    | P x where "update_job P ?f s = Inr (x, t)" "\<And>j. P j \<Longrightarrow> submission_settled j"
    by (auto simp: fence_resource_release_def split: sum.splits if_splits)
  then show ?thesis
  proof cases
    case 2
    show ?thesis
    proof (rule safe_update_job[OF 2(1)])
      fix j
      assume "P j" "job_inv j"
      with 2(2)[of j] show "job_inv (?f j) \<and> row_evolves j (?f j)"
        by (simp add: job_inv_def row_evolves_def submission_settled_def kept_iff split: option.splits)
    qed
  qed simp
qed

end
