(* ===== verification/GpuWork.thy ===== *)
theory GpuWork
  imports Dispatch
begin

text \<open>
  Admission to the shared GPU (\<open>store/gpu_work.go\<close>, \<open>domain/gpu_work.go\<close>).  Work waits for a
  resource in the order of its queue time, with a head start for prioritised users; at most
  one work holds a resource; a holder whose lease ran out becomes uncertain and keeps the
  resource until evidence about the executor releases it.  Evidence carries the resource's
  revision, which every change of the holder raises.  The order of text ids is the
  database's collation, the parameter \<open>tle\<close>.
\<close>

datatype gpu_kind = GpuGeneration | GpuTraining | GpuCaption | GpuAssistant | GpuUnknownKind string
datatype gpu_state = Waiting | Held | Uncertain | Released | GpuCancelled

fun gpu_kind_name :: "gpu_kind \<Rightarrow> string" where
  "gpu_kind_name GpuGeneration = ''generation''"
| "gpu_kind_name GpuTraining = ''lora_training''"
| "gpu_kind_name GpuCaption = ''lora_caption''"
| "gpu_kind_name GpuAssistant = ''prompt_assistant''"
| "gpu_kind_name (GpuUnknownKind s) = s"

fun gpu_kind_valid :: "gpu_kind \<Rightarrow> bool" where
  "gpu_kind_valid (GpuUnknownKind s) =
     (s \<in> {''generation'', ''lora_training'', ''lora_caption'', ''prompt_assistant''})"
| "gpu_kind_valid _ = True"

definition gpu_intent_lifetime :: int where "gpu_intent_lifetime = 5 * minute_ns"
definition gpu_max_lease_duration :: int where "gpu_max_lease_duration = 5 * minute_ns"

record gpu_resource =
  r_id :: string
  r_revision :: int
  r_observation :: string
  r_message :: string
  r_observed_at :: int
  r_valid_until :: int

record gpu_work =
  w_id :: string
  w_resource_id :: string
  w_kind :: gpu_kind
  w_job_key :: string
  w_user_id :: "int option"
  w_priority :: bool
  w_state :: gpu_state
  w_phase :: string
  w_lease_token :: string
  w_lease_until :: "int option"
  w_external_id :: string
  w_cancel_requested :: bool
  w_ready_until :: int
  w_queued_at :: int
  w_created_at :: int
  w_updated_at :: int
  w_held_at :: "int option"
  w_released_at :: "int option"

record gpu_event =
  e_work_id :: string
  e_state :: gpu_state
  e_code :: string
  e_detail :: string

record gpu_db =
  resources :: "gpu_resource list"
  works :: "gpu_work list"
  events :: "gpu_event list"
  gpu_users :: "user_row list"

section \<open>Constraints and statements\<close>

definition holding :: "gpu_work \<Rightarrow> bool" where
  "holding w = (w_state w = Held \<or> w_state w = Uncertain)"

definition gpu_work_row_ok :: "gpu_work \<Rightarrow> bool" where
  "gpu_work_row_ok w =
     (text_between 1 96 (w_id w) \<and> gpu_kind_valid (w_kind w) \<and> text_between 1 96 (w_job_key w) \<and>
      w_phase w \<in> {''reserved'', ''dispatching'', ''running''} \<and> pg_text 200 (w_external_id w) \<and>
      holding w = (w_lease_token w \<noteq> []) \<and> holding w = (w_lease_until w \<noteq> None))"

definition gpu_conflict :: "gpu_work \<Rightarrow> gpu_work \<Rightarrow> bool" where
  "gpu_conflict v w =
     (w_id v = w_id w \<or>
      gpu_kind_name (w_kind v) = gpu_kind_name (w_kind w) \<and> w_job_key v = w_job_key w \<or>
      holding v \<and> holding w \<and> w_resource_id v = w_resource_id w)"

definition load_work :: "string \<Rightarrow> gpu_db \<Rightarrow> store_error + gpu_work" where
  "load_work wid g =
     (case sql_find (\<lambda>w. w_id w = wid) (works g) of None \<Rightarrow> Inl ErrNoRows | Some w \<Rightarrow> Inr w)"

definition load_resource :: "string \<Rightarrow> gpu_db \<Rightarrow> store_error + gpu_resource" where
  "load_resource rid g =
     (case sql_find (\<lambda>r. r_id r = rid) (resources g) of None \<Rightarrow> Inl ErrNoRows | Some r \<Rightarrow> Inr r)"

definition update_work ::
  "(gpu_work \<Rightarrow> bool) \<Rightarrow> (gpu_work \<Rightarrow> gpu_work) \<Rightarrow> gpu_db \<Rightarrow> store_error + (gpu_work \<times> gpu_db)" where
  "update_work P f g =
     (case sql_find P (works g) of
        None \<Rightarrow> Inl ErrNoRows
      | Some w \<Rightarrow>
          (let ws = sql_update P f (works g) in
           if list_all (\<lambda>v. P v \<longrightarrow> gpu_work_row_ok (f v)) (works g) \<and> no_conflicts gpu_conflict ws
           then Inr (f w, g\<lparr>works := ws\<rparr>) else Inl ErrConstraint))"

definition gpu_event_row :: "string \<Rightarrow> gpu_state \<Rightarrow> string \<Rightarrow> string \<Rightarrow> gpu_db \<Rightarrow> store_error + gpu_db" where
  "gpu_event_row wid st code detail g =
     (if pg_text 1000 detail
      then Inr (g\<lparr>events := events g @
             [\<lparr>e_work_id = wid, e_state = st, e_code = code, e_detail = detail\<rparr>]\<rparr>)
      else Inl ErrConstraint)"

definition invalidate_observation :: "clock \<Rightarrow> string \<Rightarrow> gpu_db \<Rightarrow> gpu_db" where
  "invalidate_observation clk rid g =
     g\<lparr>resources := sql_update (\<lambda>r. r_id r = rid)
          (\<lambda>r. r\<lparr>r_revision := r_revision r + 1, r_observation := ''unknown'',
                 r_message := ''Executor check required'', r_valid_until := tx_now clk\<rparr>)
          (resources g)\<rparr>"

definition gpu_lease_valid :: "string \<Rightarrow> int \<Rightarrow> bool" where
  "gpu_lease_valid token duration =
     (token \<noteq> [] \<and> gpu_text_valid token 96 \<and> second_ns \<le> duration \<and>
      duration \<le> gpu_max_lease_duration)"

section \<open>Enqueueing and observing\<close>

record gpu_request =
  gq_id :: string
  gq_resource_id :: string
  gq_kind :: gpu_kind
  gq_job_key :: string
  gq_user_id :: int
  gq_priority :: bool

definition new_gpu_work :: "clock \<Rightarrow> gpu_request \<Rightarrow> gpu_work" where
  "new_gpu_work clk q =
     \<lparr>w_id = gq_id q, w_resource_id = gq_resource_id q, w_kind = gq_kind q,
      w_job_key = gq_job_key q, w_user_id = Some (gq_user_id q), w_priority = gq_priority q,
      w_state = Waiting, w_phase = ''reserved'', w_lease_token = [], w_lease_until = None,
      w_external_id = [], w_cancel_requested = False, w_ready_until = tx_now clk + usec 300,
      w_queued_at = tx_now clk, w_created_at = tx_now clk, w_updated_at = tx_now clk,
      w_held_at = None, w_released_at = None\<rparr>"

definition ensure_resource :: "clock \<Rightarrow> string \<Rightarrow> gpu_db \<Rightarrow> gpu_db" where
  "ensure_resource clk rid g =
     (if sql_exists (\<lambda>r. r_id r = rid) (resources g) then g
      else g\<lparr>resources := resources g @
             [\<lparr>r_id = rid, r_revision = 1, r_observation = ''unknown'', r_message = [],
               r_observed_at = tx_now clk, r_valid_until = tx_now clk\<rparr>]\<rparr>)"

definition same_job :: "gpu_request \<Rightarrow> gpu_work \<Rightarrow> bool" where
  "same_job q w =
     (gpu_kind_name (w_kind w) = gpu_kind_name (gq_kind q) \<and> w_job_key w = gq_job_key q)"

text \<open>INSERT ... ON CONFLICT(kind,job_key) DO NOTHING: another conflict is an error.\<close>

definition insert_work :: "clock \<Rightarrow> gpu_request \<Rightarrow> gpu_db \<Rightarrow> store_error + (bool \<times> gpu_db)" where
  "insert_work clk q g =
     (let w = new_gpu_work clk q in
      if \<not> gpu_work_row_ok w then Inl ErrConstraint
      else if sql_exists (same_job q) (works g) then Inr (False, g)
      else if list_ex (\<lambda>v. gpu_conflict v w) (works g) then Inl ErrConstraint
      else if \<not> sql_exists (\<lambda>u. u_id u = gq_user_id q) (gpu_users g) then Inl ErrConstraint
      else Inr (True, g\<lparr>works := works g @ [w]\<rparr>))"

definition enqueue_gpu_work :: "clock \<Rightarrow> gpu_request \<Rightarrow> gpu_db \<Rightarrow> store_error + (gpu_work \<times> gpu_db)" where
  "enqueue_gpu_work clk q g =
     (if gq_id q = [] \<or> gq_resource_id q = [] \<or> gq_job_key q = [] \<or> \<not> gpu_kind_valid (gq_kind q) \<or>
         gq_user_id q \<le> 0 \<or> \<not> gpu_text_valid (gq_id q) 96 \<or>
         \<not> gpu_text_valid (gq_resource_id q) 64 \<or> \<not> gpu_text_valid (gq_job_key q) 96
      then Inl ErrGpuInput
      else
        (let g1 = ensure_resource clk (gq_resource_id q) g in
         res_bind (load_resource (gq_resource_id q) g1) (\<lambda>_.
         res_bind (insert_work clk q g1) (\<lambda>(inserted, g2).
         case sql_find (same_job q) (works g2) of
           None \<Rightarrow> Inl ErrNoRows
         | Some w \<Rightarrow>
             if w_resource_id w \<noteq> gq_resource_id q \<or> w_user_id w \<noteq> Some (gq_user_id q)
             then Inl ErrGpuConflict
             else
               res_bind (if inserted then gpu_event_row (w_id w) (w_state w) ''enqueued'' [] g2
                         else Inr g2) (\<lambda>g3.
               if w_state w = Waiting
               then update_work (\<lambda>v. w_id v = w_id w)
                      (\<lambda>v. v\<lparr>w_ready_until := tx_now clk + usec (dur_seconds gpu_intent_lifetime),
                             w_priority := gq_priority q\<rparr>) g3
               else Inr (w, g3))))))"

definition observe_gpu_resource ::
  "clock \<Rightarrow> string \<Rightarrow> int \<Rightarrow> string \<Rightarrow> string \<Rightarrow> int \<Rightarrow> gpu_db \<Rightarrow> store_error + (gpu_resource \<times> gpu_db)"
where
  "observe_gpu_resource clk rid revision observation message valid_for g =
     (if observation \<notin> {''idle'', ''busy'', ''unknown''} \<or> \<not> gpu_text_valid message 1000 \<or>
         valid_for < second_ns \<or> valid_for > 30 * second_ns
      then Inl ErrGpuInput
      else
        (let P = (\<lambda>r. r_id r = rid \<and> r_revision r = revision);
             f = (\<lambda>r. r\<lparr>r_revision := r_revision r + 1, r_observation := observation,
                        r_message := message, r_observed_at := tx_now clk,
                        r_valid_until := tx_now clk + usec (dur_seconds valid_for)\<rparr>) in
         case sql_find P (resources g) of
           None \<Rightarrow> Inl ErrGpuConflict
         | Some r \<Rightarrow> Inr (f r, g\<lparr>resources := sql_update P f (resources g)\<rparr>)))"

section \<open>Admission\<close>

definition lock_gpu_work :: "string \<Rightarrow> gpu_db \<Rightarrow> store_error + (gpu_resource \<times> gpu_work)" where
  "lock_gpu_work wid g =
     res_bind (load_work wid g) (\<lambda>w.
     res_bind (load_resource (w_resource_id w) g) (\<lambda>r. Inr (r, w)))"

definition owner_admitted :: "clock \<Rightarrow> gpu_work \<Rightarrow> gpu_db \<Rightarrow> bool" where
  "owner_admitted clk w g =
     (case w_user_id w of
        None \<Rightarrow> False
      | Some uid \<Rightarrow>
          sql_exists (\<lambda>u. u_id u = uid \<and> \<not> u_disabled u \<and>
            (case u_expires_at u of None \<Rightarrow> True | Some e \<Rightarrow> e > tx_now clk)) (gpu_users g))"

definition gpu_eligible :: "clock \<Rightarrow> string \<Rightarrow> gpu_db \<Rightarrow> gpu_work \<Rightarrow> bool" where
  "gpu_eligible clk rid g w =
     (w_resource_id w = rid \<and> w_state w = Waiting \<and> w_ready_until w > tx_now clk \<and>
      \<not> w_cancel_requested w \<and> owner_admitted clk w g)"

definition gpu_queue_key :: "gpu_work \<Rightarrow> int" where
  "gpu_queue_key w =
     w_queued_at w - (if w_priority w then usec (dur_seconds gpu_priority_head_start) else 0)"

definition gpu_before :: "(string \<Rightarrow> string \<Rightarrow> bool) \<Rightarrow> gpu_work \<Rightarrow> gpu_work \<Rightarrow> bool" where
  "gpu_before tle v w =
     (gpu_queue_key v < gpu_queue_key w \<or>
      (gpu_queue_key v = gpu_queue_key w \<and> tle (w_id v) (w_id w)))"

definition gpu_queue :: "clock \<Rightarrow> string \<Rightarrow> gpu_db \<Rightarrow> gpu_work list" where
  "gpu_queue clk rid g = filter (gpu_eligible clk rid g) (works g)"

text \<open>\<open>row_number()\<close> in the queue's order; 0 for a row that is not in it.\<close>

definition gpu_position :: "(string \<Rightarrow> string \<Rightarrow> bool) \<Rightarrow> clock \<Rightarrow> gpu_work \<Rightarrow> string \<Rightarrow> gpu_db \<Rightarrow> nat" where
  "gpu_position tle clk w rid g =
     (if gpu_eligible clk rid g w then sql_count (\<lambda>v. gpu_before tle v w) (gpu_queue clk rid g) else 0)"

datatype wait_code =
    NoWait | GpuInUse | ExecutorUnconfirmed | NotWaiting | IntentExpired
  | ExecutorUnavailable | ExternalWork | OwnerUnavailable | WaitingTurn

record admission =
  ad_work :: gpu_work
  ad_revision :: int
  ad_position :: nat
  ad_granted :: bool
  ad_wait :: wait_code

definition lease_live :: "clock \<Rightarrow> gpu_work \<Rightarrow> bool" where
  "lease_live clk w = (case w_lease_until w of None \<Rightarrow> False | Some u \<Rightarrow> u > tx_clock clk)"

text \<open>A holder whose lease ran out is marked uncertain, and the observation is void.\<close>

definition expire_holder ::
  "clock \<Rightarrow> gpu_work \<Rightarrow> gpu_db \<Rightarrow> store_error + (gpu_work \<times> int \<times> gpu_db)" where
  "expire_holder clk h g =
     (if w_state h = Held \<and> \<not> lease_live clk h then
        res_bind (update_work (\<lambda>v. w_id v = w_id h)
          (\<lambda>v. v\<lparr>w_state := Uncertain, w_updated_at := tx_now clk\<rparr>) g) (\<lambda>(h1, g1).
        res_bind (gpu_event_row (w_id h1) (w_state h1) ''lease_expired''
          ''Executor completion is unconfirmed'' g1) (\<lambda>g2.
        Inr (h1, 1, invalidate_observation clk (w_resource_id h) g2)))
      else Inr (h, 0, g))"

definition admit ::
  "clock \<Rightarrow> string \<Rightarrow> string \<Rightarrow> string \<Rightarrow> int \<Rightarrow> gpu_db \<Rightarrow> store_error + (gpu_work \<times> gpu_db)" where
  "admit clk wid rid token duration g =
     res_bind (update_work (\<lambda>v. w_id v = wid)
       (\<lambda>v. v\<lparr>w_state := Held, w_phase := ''reserved'', w_lease_token := token,
              w_lease_until := Some (tx_now clk + usec (dur_seconds duration)),
              w_held_at := Some (tx_now clk), w_updated_at := tx_now clk\<rparr>) g) (\<lambda>(w, g1).
     res_bind (gpu_event_row wid Held ''admitted'' [] g1) (\<lambda>g2.
     Inr (w, invalidate_observation clk rid g2)))"

definition acquire_gpu_work ::
  "(string \<Rightarrow> string \<Rightarrow> bool) \<Rightarrow> clock \<Rightarrow> string \<Rightarrow> string \<Rightarrow> int \<Rightarrow> gpu_db \<Rightarrow>
     store_error + (admission \<times> gpu_db)" where
  "acquire_gpu_work tle clk wid token duration g =
     (if \<not> gpu_lease_valid token duration then Inl ErrGpuInput
      else
        res_bind (lock_gpu_work wid g) (\<lambda>(r, w).
        let rid = r_id r;
            pos = (if w_state w = Waiting then gpu_position tle clk w rid g else 0);
            refuse = (\<lambda>code. Inr (\<lparr>ad_work = w, ad_revision = r_revision r, ad_position = pos,
                                  ad_granted = False, ad_wait = code\<rparr>, g)) in
        case sql_find (\<lambda>v. w_resource_id v = rid \<and> holding v) (works g) of
          Some h0 \<Rightarrow>
            res_bind (expire_holder clk h0 g) (\<lambda>(h, bumped, g1).
            let granted = (w_id h = w_id w \<and> w_state h = Held \<and> w_lease_token h = token \<and>
                           \<not> w_cancel_requested h) in
            Inr (\<lparr>ad_work = (if w_id h = w_id w then h else w),
                  ad_revision = r_revision r + bumped, ad_position = pos, ad_granted = granted,
                  ad_wait = (if granted then NoWait
                             else if w_state h = Uncertain then ExecutorUnconfirmed
                             else GpuInUse)\<rparr>, g1))
        | None \<Rightarrow>
            if w_state w \<noteq> Waiting \<or> w_cancel_requested w then refuse NotWaiting
            else if \<not> w_ready_until w > tx_clock clk then refuse IntentExpired
            else if r_observation r \<noteq> ''idle'' \<or> \<not> r_valid_until r > tx_clock clk
            then refuse (if r_observation r = ''busy'' \<and> r_valid_until r > tx_clock clk
                         then ExternalWork else ExecutorUnavailable)
            else
              (case sql_first (gpu_before tle) (gpu_queue clk rid g) of
                 None \<Rightarrow> refuse OwnerUnavailable
               | Some next \<Rightarrow>
                   if w_id next \<noteq> wid then refuse WaitingTurn
                   else
                     res_bind (admit clk wid rid token duration g) (\<lambda>(w1, g1).
                     Inr (\<lparr>ad_work = w1, ad_revision = r_revision r + 1, ad_position = pos,
                           ad_granted = True, ad_wait = NoWait\<rparr>, g1)))))"

section \<open>Keeping and leaving the resource\<close>

definition heartbeat_gpu_work ::
  "clock \<Rightarrow> string \<Rightarrow> string \<Rightarrow> int \<Rightarrow> gpu_db \<Rightarrow> store_error + (bool \<times> gpu_db)" where
  "heartbeat_gpu_work clk wid token duration g =
     (if \<not> gpu_lease_valid token duration then Inl ErrGpuInput
      else
        (case update_work
           (\<lambda>v. w_id v = wid \<and> w_lease_token v = token \<and> w_state v = Held \<and> lease_live clk v \<and>
                \<not> w_cancel_requested v)
           (\<lambda>v. v\<lparr>w_lease_until := Some (tx_clock clk + usec (dur_seconds duration)),
                  w_updated_at := tx_now clk\<rparr>) g of
           Inr (w, g1) \<Rightarrow> Inr (True, g1)
         | Inl e \<Rightarrow> if e = ErrNoRows then Inr (False, g) else Inl e))"

definition set_gpu_work_phase ::
  "clock \<Rightarrow> string \<Rightarrow> string \<Rightarrow> string \<Rightarrow> string \<Rightarrow> gpu_db \<Rightarrow> store_error + (gpu_work \<times> gpu_db)"
where
  "set_gpu_work_phase clk wid token phase ext g =
     (if (phase \<noteq> ''dispatching'' \<and> phase \<noteq> ''running'') \<or> \<not> gpu_text_valid ext 200
      then Inl ErrGpuInput
      else
        res_bind (lock_gpu_work wid g) (\<lambda>(r, w).
        if w_state w \<noteq> Held \<or> w_lease_token w \<noteq> token \<or> w_cancel_requested w \<or>
           (w_phase w = ''running'' \<and> (phase \<noteq> ''running'' \<or> ext \<noteq> w_external_id w)) \<or>
           (w_phase w = ''reserved'' \<and> phase = ''running'')
        then Inl ErrGpuConflict
        else
          res_bind (on_no_rows ErrGpuConflict (update_work
            (\<lambda>v. w_id v = wid \<and> w_lease_token v = token \<and> lease_live clk v)
            (\<lambda>v. v\<lparr>w_phase := phase, w_external_id := ext, w_updated_at := tx_now clk\<rparr>) g))
            (\<lambda>(w1, g1).
          res_bind (gpu_event_row wid (w_state w1) phase ext g1) (\<lambda>g2.
          Inr (w1, invalidate_observation clk (r_id r) g2)))))"

definition request_gpu_cancellation ::
  "clock \<Rightarrow> string \<Rightarrow> gpu_db \<Rightarrow> store_error + (gpu_work \<times> gpu_db)" where
  "request_gpu_cancellation clk wid g =
     res_bind (lock_gpu_work wid g) (\<lambda>(r, w).
     if w_state w = Released \<or> w_state w = GpuCancelled \<or> w_cancel_requested w then Inr (w, g)
     else
       res_bind (update_work (\<lambda>v. w_id v = wid)
         (\<lambda>v. v\<lparr>w_cancel_requested := True,
                w_state := (if w_state v = Waiting then GpuCancelled else w_state v),
                w_released_at := (if w_state v = Waiting then Some (tx_now clk) else w_released_at v),
                w_updated_at := tx_now clk\<rparr>) g) (\<lambda>(w1, g1).
       res_bind (gpu_event_row wid (w_state w1) ''cancellation_requested'' [] g1) (\<lambda>g2.
       Inr (w1, g2))))"

record evidence =
  ev_code :: string
  ev_detail :: string
  ev_revision :: int

text \<open>What the evidence must show: the executor's own account, or the holder's under a live
  lease, for a work not yet dispatched or one that ran inside the request.\<close>

definition evidence_valid :: "clock \<Rightarrow> gpu_work \<Rightarrow> string \<Rightarrow> bool" where
  "evidence_valid clk w code =
     (let owned = (w_state w = Held \<and> lease_live clk w) in
      code = ''executor_terminal'' \<or> code = ''executor_idle'' \<or>
      (owned \<and> code = ''not_dispatched'' \<and> w_phase w = ''reserved'') \<or>
      (owned \<and> w_phase w \<noteq> ''reserved'' \<and> code = ''request_completed'' \<and>
       (gpu_kind_name (w_kind w) = ''lora_caption'' \<or>
        gpu_kind_name (w_kind w) = ''prompt_assistant'')))"

definition release_gpu_work ::
  "clock \<Rightarrow> string \<Rightarrow> string \<Rightarrow> evidence \<Rightarrow> gpu_db \<Rightarrow> store_error + (gpu_work \<times> gpu_db)" where
  "release_gpu_work clk wid token ev g =
     (if \<not> gpu_text_valid (ev_detail ev) 1000 then Inl ErrGpuInput
      else
        res_bind (lock_gpu_work wid g) (\<lambda>(r, w).
        if r_revision r \<noteq> ev_revision ev \<or> w_lease_token w \<noteq> token \<or>
           (w_state w \<noteq> Held \<and> w_state w \<noteq> Uncertain)
        then Inl ErrGpuConflict
        else if \<not> evidence_valid clk w (ev_code ev) then Inl ErrGpuInput
        else
          res_bind (update_work (\<lambda>v. w_id v = wid)
            (\<lambda>v. v\<lparr>w_state := (if w_cancel_requested v then GpuCancelled else Released),
                   w_lease_token := [], w_lease_until := None, w_released_at := Some (tx_now clk),
                   w_updated_at := tx_now clk\<rparr>) g) (\<lambda>(w1, g1).
          res_bind (gpu_event_row wid (w_state w1) (ev_code ev) (ev_detail ev) g1) (\<lambda>g2.
          Inr (w1, invalidate_observation clk (r_id r) g2)))))"

definition retry_gpu_work :: "clock \<Rightarrow> string \<Rightarrow> gpu_db \<Rightarrow> store_error + (gpu_work \<times> gpu_db)" where
  "retry_gpu_work clk wid g =
     res_bind (lock_gpu_work wid g) (\<lambda>(r, w).
     if w_state w \<noteq> Released \<and> w_state w \<noteq> GpuCancelled then Inl ErrGpuConflict
     else
       res_bind (update_work (\<lambda>v. w_id v = wid)
         (\<lambda>v. v\<lparr>w_state := Waiting, w_phase := ''reserved'', w_external_id := [],
                w_cancel_requested := False, w_queued_at := tx_now clk,
                w_ready_until := tx_now clk + usec (dur_seconds gpu_intent_lifetime),
                w_held_at := None, w_released_at := None, w_updated_at := tx_now clk\<rparr>) g)
         (\<lambda>(w1, g1).
       res_bind (gpu_event_row wid (w_state w1) ''retry'' [] g1) (\<lambda>g2. Inr (w1, g2))))"

definition active_gpu_work :: "string \<Rightarrow> gpu_db \<Rightarrow> store_error + gpu_work" where
  "active_gpu_work rid g =
     (case sql_find (\<lambda>w. w_resource_id w = rid \<and> holding w) (works g) of
        None \<Rightarrow> Inl ErrNoRows | Some w \<Rightarrow> Inr w)"

section \<open>The invariant of the tables\<close>

definition gpu_inv :: "gpu_db \<Rightarrow> bool" where
  "gpu_inv g \<longleftrightarrow>
     list_all gpu_work_row_ok (works g) \<and> no_conflicts gpu_conflict (works g) \<and>
     unique_key r_id (resources g)"

lemma gpu_conflict_sym: "gpu_conflict v w \<Longrightarrow> gpu_conflict w v"
  by (auto simp: gpu_conflict_def)

lemma gpu_unique_id: "gpu_inv g \<Longrightarrow> v \<in> set (works g) \<Longrightarrow> w \<in> set (works g) \<Longrightarrow> w_id v = w_id w \<Longrightarrow> v = w"
  using no_conflictsD[of gpu_conflict "works g" v w] gpu_conflict_sym
  by (auto simp: gpu_inv_def gpu_conflict_def)

lemma gpu_one_holder:
  "gpu_inv g \<Longrightarrow> v \<in> set (works g) \<Longrightarrow> w \<in> set (works g) \<Longrightarrow> holding v \<Longrightarrow> holding w \<Longrightarrow>
     w_resource_id v = w_resource_id w \<Longrightarrow> v = w"
  using no_conflictsD[of gpu_conflict "works g" v w] gpu_conflict_sym
  by (auto simp: gpu_inv_def gpu_conflict_def)

lemma load_work_Inr: "load_work wid g = Inr w \<longleftrightarrow> sql_find (\<lambda>w. w_id w = wid) (works g) = Some w"
  by (auto simp: load_work_def split: option.splits)

lemma load_resource_Inr:
  "load_resource rid g = Inr r \<longleftrightarrow> sql_find (\<lambda>r. r_id r = rid) (resources g) = Some r"
  by (auto simp: load_resource_def split: option.splits)

lemma lock_gpu_work_Inr:
  assumes "lock_gpu_work wid g = Inr (r, w)"
  shows "w \<in> set (works g)" "w_id w = wid" "r \<in> set (resources g)" "r_id r = w_resource_id w"
  using assms
  by (auto simp: lock_gpu_work_def res_bind_Inr load_work_Inr load_resource_Inr dest: sql_find_Some)

lemma update_work_Inr:
  "update_work P f g = Inr (k, t) \<longleftrightarrow>
     (\<exists>w. sql_find P (works g) = Some w \<and> k = f w \<and>
        list_all (\<lambda>v. P v \<longrightarrow> gpu_work_row_ok (f v)) (works g) \<and>
        no_conflicts gpu_conflict (sql_update P f (works g)) \<and>
        t = g\<lparr>works := sql_update P f (works g)\<rparr>)"
  by (auto simp: update_work_def Let_def split: option.splits)

lemma update_work_inv:
  assumes "update_work P f g = Inr (k, t)" "gpu_inv g"
  shows "gpu_inv t \<and> resources t = resources g \<and> gpu_users t = gpu_users g"
  using assms by (auto simp: update_work_Inr gpu_inv_def list_all_iff set_sql_update)

lemma gpu_event_frame:
  "gpu_event_row wid st c d g = Inr t \<Longrightarrow>
     works t = works g \<and> resources t = resources g \<and> gpu_users t = gpu_users g"
  by (auto simp: gpu_event_row_def split: if_splits)

lemma invalidate_frame [simp]:
  "works (invalidate_observation clk rid g) = works g"
  "gpu_users (invalidate_observation clk rid g) = gpu_users g"
  by (simp_all add: invalidate_observation_def)

lemma gpu_inv_cong:
  "works t = works g \<Longrightarrow> map r_id (resources t) = map r_id (resources g) \<Longrightarrow> gpu_inv t = gpu_inv g"
  by (simp add: gpu_inv_def unique_key_def)

lemma invalidate_ids: "map r_id (resources (invalidate_observation clk rid g)) = map r_id (resources g)"
  by (simp add: invalidate_observation_def sql_update_def)

lemma gpu_inv_invalidate [simp]: "gpu_inv (invalidate_observation clk rid g) = gpu_inv g"
  by (rule gpu_inv_cong) (simp_all add: invalidate_ids)

section \<open>Evidence and the revision\<close>

text \<open>What evidence about a resource speaks of: its holder, and how far the holder got.\<close>

definition holder_view :: "string \<Rightarrow> gpu_db \<Rightarrow> (string \<times> string \<times> gpu_state \<times> string \<times> string) option" where
  "holder_view rid g =
     map_option (\<lambda>w. (w_id w, w_lease_token w, w_state w, w_phase w, w_external_id w))
       (sql_find (\<lambda>w. w_resource_id w = rid \<and> holding w) (works g))"

text \<open>The revision never falls, and while it stands the holder is the same.\<close>

definition gpu_evolves :: "gpu_db \<Rightarrow> gpu_db \<Rightarrow> bool" where
  "gpu_evolves s t \<longleftrightarrow>
     (\<forall>r\<in>set (resources s). \<exists>q\<in>set (resources t).
        r_id q = r_id r \<and> r_revision r \<le> r_revision q \<and>
        (r_revision q = r_revision r \<longrightarrow> holder_view (r_id r) t = holder_view (r_id r) s))"

lemma gpu_evolves_refl: "gpu_evolves s s"
  unfolding gpu_evolves_def by blast

lemma gpu_evolves_trans:
  assumes st: "gpu_evolves s t" and tu: "gpu_evolves t u"
  shows "gpu_evolves s u"
  unfolding gpu_evolves_def
proof
  fix r assume "r \<in> set (resources s)"
  with st obtain q where q: "q \<in> set (resources t)" "r_id q = r_id r" "r_revision r \<le> r_revision q"
    "r_revision q = r_revision r \<longrightarrow> holder_view (r_id r) t = holder_view (r_id r) s"
    unfolding gpu_evolves_def by blast
  with tu obtain p where p: "p \<in> set (resources u)" "r_id p = r_id q" "r_revision q \<le> r_revision p"
    "r_revision p = r_revision q \<longrightarrow> holder_view (r_id q) u = holder_view (r_id q) t"
    unfolding gpu_evolves_def by blast
  from p q show "\<exists>q\<in>set (resources u). r_id q = r_id r \<and> r_revision r \<le> r_revision q \<and>
        (r_revision q = r_revision r \<longrightarrow> holder_view (r_id r) u = holder_view (r_id r) s)"
    by (intro bexI[OF _ p(1)]) auto
qed

lemma gpu_evolves_quiet:
  assumes "resources t = resources s" "\<And>rid. holder_view rid t = holder_view rid s"
  shows "gpu_evolves s t"
  using assms unfolding gpu_evolves_def by auto

lemma gpu_evolves_bump:
  assumes res: "resources t = sql_update (\<lambda>r. r_id r = rid) f (resources s)"
    and f: "\<And>r. r_id (f r) = r_id r \<and> r_revision r < r_revision (f r)"
    and others: "\<And>rid'. rid' \<noteq> rid \<Longrightarrow> holder_view rid' t = holder_view rid' s"
  shows "gpu_evolves s t"
  unfolding gpu_evolves_def
proof
  fix r assume r: "r \<in> set (resources s)"
  let ?q = "if r_id r = rid then f r else r"
  have "?q \<in> set (resources t)" using r res by (auto simp: set_sql_update)
  moreover have "r_id ?q = r_id r \<and> r_revision r \<le> r_revision ?q \<and>
        (r_revision ?q = r_revision r \<longrightarrow> holder_view (r_id r) t = holder_view (r_id r) s)"
    using f[of r] others[of "r_id r"] by auto
  ultimately show "\<exists>q\<in>set (resources t). r_id q = r_id r \<and> r_revision r \<le> r_revision q \<and>
        (r_revision q = r_revision r \<longrightarrow> holder_view (r_id r) t = holder_view (r_id r) s)"
    by blast
qed

lemma holder_view_update:
  assumes "update_work P f g = Inr (k, t)"
    and "\<And>v. v \<in> set (works g) \<Longrightarrow> P v \<Longrightarrow> w_resource_id (f v) = w_resource_id v \<and>
           (w_resource_id v = rid \<longrightarrow> holding (f v) = holding v \<and>
             (holding v \<longrightarrow> w_id (f v) = w_id v \<and> w_lease_token (f v) = w_lease_token v \<and>
               w_state (f v) = w_state v \<and> w_phase (f v) = w_phase v \<and>
               w_external_id (f v) = w_external_id v))"
  shows "holder_view rid t = holder_view rid g"
proof -
  from assms(1) have t: "works t = sql_update P f (works g)" by (auto simp: update_work_Inr)
  show ?thesis
    unfolding holder_view_def t
    by (rule sql_find_view_update) (use assms(2) in auto)
qed

lemma holder_view_cong: "works t = works s \<Longrightarrow> holder_view rid t = holder_view rid s"
  by (simp add: holder_view_def)

text \<open>A change of one work, logged, with the observation of its resource made void.\<close>

lemma gpu_bump_step:
  assumes inv: "gpu_inv s" and w: "w \<in> set (works s)" and rid: "w_resource_id w = rid"
    and upd: "update_work P f s = Inr (k, s1)"
    and P: "\<And>v. P v \<Longrightarrow> w_id v = w_id w" and f: "\<And>v. w_resource_id (f v) = w_resource_id v"
    and ev: "gpu_event_row wid st c d s1 = Inr s2"
    and t: "t = invalidate_observation clk rid s2"
  shows "gpu_inv t \<and> gpu_evolves s t"
proof
  note u = update_work_inv[OF upd inv] and e = gpu_event_frame[OF ev]
  have "gpu_inv s2" using u e gpu_inv_cong[of s2 s1] by simp
  then show "gpu_inv t" by (simp add: t)
  have "v = w" if "v \<in> set (works s)" "P v" for v
    using gpu_unique_id[OF inv that(1) w P[OF that(2)]] .
  then have "holder_view rid' s1 = holder_view rid' s" if "rid' \<noteq> rid" for rid'
    by (intro holder_view_update[OF upd]) (use f rid that in auto)
  moreover have "holder_view rid' t = holder_view rid' s1" for rid'
    by (rule holder_view_cong) (simp add: t e)
  ultimately show "gpu_evolves s t"
    using u e
    by (intro gpu_evolves_bump[where rid = rid and
          f = "\<lambda>r. r\<lparr>r_revision := r_revision r + 1, r_observation := ''unknown'',
                 r_message := ''Executor check required'', r_valid_until := tx_now clk\<rparr>"])
      (simp_all add: t invalidate_observation_def)
qed

section \<open>Every operation\<close>

lemma gpu_quiet_step:
  assumes "gpu_inv s" "update_work P f s = Inr (k, s1)"
    and "\<And>v rid. P v \<Longrightarrow> v \<in> set (works s) \<Longrightarrow> w_resource_id (f v) = w_resource_id v \<and>
             holding (f v) = holding v \<and>
             (holding v \<longrightarrow> w_id (f v) = w_id v \<and> w_lease_token (f v) = w_lease_token v \<and>
               w_state (f v) = w_state v \<and> w_phase (f v) = w_phase v \<and>
               w_external_id (f v) = w_external_id v)"
    and "works t = works s1" "resources t = resources s1"
  shows "gpu_inv t \<and> gpu_evolves s t"
proof
  note u = update_work_inv[OF assms(2,1)]
  show "gpu_inv t" using u assms(4,5) gpu_inv_cong[of t s1] by simp
  have "holder_view rid t = holder_view rid s" for rid
    using holder_view_update[OF assms(2), of rid] assms(3) holder_view_cong[OF assms(4)] by simp
  then show "gpu_evolves s t" using u assms(5) by (intro gpu_evolves_quiet) auto
qed

lemma expire_holder_ok:
  assumes "expire_holder clk h s = Inr (h', b, t)" "gpu_inv s" "h \<in> set (works s)"
  shows "gpu_inv t \<and> gpu_evolves s t"
proof (cases "w_state h = Held \<and> \<not> lease_live clk h")
  case False
  with assms show ?thesis by (auto simp: expire_holder_def gpu_evolves_refl)
next
  case True
  with assms(1) obtain s1 s2 where
    u: "update_work (\<lambda>v. w_id v = w_id h) (\<lambda>v. v\<lparr>w_state := Uncertain, w_updated_at := tx_now clk\<rparr>) s = Inr (h', s1)"
    and e: "gpu_event_row (w_id h') (w_state h') ''lease_expired''
              ''Executor completion is unconfirmed'' s1 = Inr s2"
    and t: "t = invalidate_observation clk (w_resource_id h) s2"
    by (auto simp: expire_holder_def res_bind_Inr)
  show ?thesis by (rule gpu_bump_step[OF assms(2,3) refl u _ _ e t]) auto
qed

lemma admit_ok:
  assumes "admit clk wid rid token d s = Inr (w1, t)" "gpu_inv s"
    and "w \<in> set (works s)" "w_id w = wid" "w_resource_id w = rid"
  shows "gpu_inv t \<and> gpu_evolves s t"
proof -
  from assms(1) obtain s1 s2 where
    u: "update_work (\<lambda>v. w_id v = wid)
       (\<lambda>v. v\<lparr>w_state := Held, w_phase := ''reserved'', w_lease_token := token,
              w_lease_until := Some (tx_now clk + usec (dur_seconds d)),
              w_held_at := Some (tx_now clk), w_updated_at := tx_now clk\<rparr>) s = Inr (w1, s1)"
    and e: "gpu_event_row wid Held ''admitted'' [] s1 = Inr s2"
    and t: "t = invalidate_observation clk rid s2"
    by (auto simp: admit_def res_bind_Inr)
  show ?thesis by (rule gpu_bump_step[OF assms(2,3,5) u _ _ e t]) (auto simp: assms(4))
qed

lemma acquire_cases:
  assumes "acquire_gpu_work tle clk wid token d s = Inr (a, t)"
  obtains
      (occupied) r w h0 h b where "lock_gpu_work wid s = Inr (r, w)"
        "sql_find (\<lambda>v. w_resource_id v = r_id r \<and> holding v) (works s) = Some h0"
        "expire_holder clk h0 s = Inr (h, b, t)"
        "ad_granted a = (w_id h = w_id w \<and> w_state h = Held \<and> w_lease_token h = token \<and>
                         \<not> w_cancel_requested h)"
    | (refused) "t = s" "\<not> ad_granted a"
    | (admitted) r w n w1 where "lock_gpu_work wid s = Inr (r, w)"
        "sql_find (\<lambda>v. w_resource_id v = r_id r \<and> holding v) (works s) = None"
        "w_state w = Waiting" "\<not> w_cancel_requested w" "w_ready_until w > tx_clock clk"
        "r_observation r = ''idle''" "r_valid_until r > tx_clock clk"
        "sql_first (gpu_before tle) (gpu_queue clk (r_id r) s) = Some n" "w_id n = wid"
        "admit clk wid (r_id r) token d s = Inr (w1, t)" "ad_granted a" "ad_work a = w1"
proof -
  from assms obtain r w where lk: "lock_gpu_work wid s = Inr (r, w)" and "gpu_lease_valid token d"
    by (auto simp: acquire_gpu_work_def res_bind_Inr guard_Inr)
  show ?thesis
  proof (cases "sql_find (\<lambda>v. w_resource_id v = r_id r \<and> holding v) (works s)")
    case (Some h0)
    with assms lk show ?thesis
      by (auto simp: acquire_gpu_work_def res_bind_Inr guard_Inr Let_def intro!: occupied[OF lk Some])
  next
    case None
    consider (go) n where "w_state w = Waiting" "\<not> w_cancel_requested w" "w_ready_until w > tx_clock clk"
        "r_observation r = ''idle''" "r_valid_until r > tx_clock clk"
        "sql_first (gpu_before tle) (gpu_queue clk (r_id r) s) = Some n" "w_id n = wid"
      | (stop) "w_state w \<noteq> Waiting \<or> w_cancel_requested w \<or> \<not> w_ready_until w > tx_clock clk \<or>
          r_observation r \<noteq> ''idle'' \<or> \<not> r_valid_until r > tx_clock clk \<or>
          (case sql_first (gpu_before tle) (gpu_queue clk (r_id r) s) of
             None \<Rightarrow> True | Some n \<Rightarrow> w_id n \<noteq> wid)"
      by (cases "sql_first (gpu_before tle) (gpu_queue clk (r_id r) s)") auto
    then show ?thesis
    proof cases
      case go
      with assms lk None show ?thesis
        by (auto simp: acquire_gpu_work_def res_bind_Inr guard_Inr Let_def
            intro!: admitted[OF lk None go])
    next
      case stop
      with assms lk None have "t = s \<and> \<not> ad_granted a"
        by (auto simp: acquire_gpu_work_def res_bind_Inr guard_Inr Let_def
            split: option.splits if_split_asm)
      then show ?thesis using refused by blast
    qed
  qed
qed

lemma acquire_ok:
  assumes op: "acquire_gpu_work tle clk wid token d s = Inr (a, t)" and inv: "gpu_inv s"
  shows "gpu_inv t \<and> gpu_evolves s t"
  using op
proof (cases rule: acquire_cases)
  case (occupied r w h0 h b)
  then have "h0 \<in> set (works s)" by (auto dest: sql_find_Some)
  with occupied(3) inv show ?thesis by (intro expire_holder_ok)
next
  case (admitted r w n w1)
  with lock_gpu_work_Inr[OF admitted(1)] inv show ?thesis by (intro admit_ok[of clk wid _ token]) auto
qed (use inv in \<open>simp add: gpu_evolves_refl\<close>)

lemma heartbeat_ok:
  assumes "heartbeat_gpu_work clk wid token d s = Inr (b, t)" "gpu_inv s"
  shows "gpu_inv t \<and> gpu_evolves s t"
proof -
  let ?P = "\<lambda>v. w_id v = wid \<and> w_lease_token v = token \<and> w_state v = Held \<and> lease_live clk v \<and>
                \<not> w_cancel_requested v"
  from assms(1) consider "t = s" | w where "update_work ?P
      (\<lambda>v. v\<lparr>w_lease_until := Some (tx_clock clk + usec (dur_seconds d)),
                  w_updated_at := tx_now clk\<rparr>) s = Inr (w, t)"
    by (auto simp: heartbeat_gpu_work_def guard_Inr split: sum.splits if_splits)
  then show ?thesis
  proof cases
    case 1
    with assms(2) show ?thesis by (simp add: gpu_evolves_refl)
  next
    case 2
    show ?thesis by (rule gpu_quiet_step[OF assms(2) 2]) (auto simp: holding_def)
  qed
qed

lemma set_phase_ok:
  assumes "set_gpu_work_phase clk wid token ph ext s = Inr (k, t)" "gpu_inv s"
  shows "gpu_inv t \<and> gpu_evolves s t"
proof -
  from assms(1) obtain r w s1 s2 where lk: "lock_gpu_work wid s = Inr (r, w)"
    and u: "update_work (\<lambda>v. w_id v = wid \<and> w_lease_token v = token \<and> lease_live clk v)
            (\<lambda>v. v\<lparr>w_phase := ph, w_external_id := ext, w_updated_at := tx_now clk\<rparr>) s = Inr (k, s1)"
    and e: "gpu_event_row wid (w_state k) ph ext s1 = Inr s2"
    and t: "t = invalidate_observation clk (r_id r) s2"
    by (auto simp: set_gpu_work_phase_def res_bind_Inr guard_Inr)
  note l = lock_gpu_work_Inr[OF lk]
  show ?thesis by (rule gpu_bump_step[OF assms(2) l(1) l(4)[symmetric] u _ _ e t]) (auto simp: l)
qed

lemma cancel_ok:
  assumes "request_gpu_cancellation clk wid s = Inr (k, t)" "gpu_inv s"
  shows "gpu_inv t \<and> gpu_evolves s t"
proof -
  let ?f = "\<lambda>v. v\<lparr>w_cancel_requested := True,
                w_state := (if w_state v = Waiting then GpuCancelled else w_state v),
                w_released_at := (if w_state v = Waiting then Some (tx_now clk) else w_released_at v),
                w_updated_at := tx_now clk\<rparr>"
  from assms(1) consider "t = s" | s1 where "update_work (\<lambda>v. w_id v = wid) ?f s = Inr (k, s1)"
      "gpu_event_row wid (w_state k) ''cancellation_requested'' [] s1 = Inr t"
    by (auto simp: request_gpu_cancellation_def res_bind_Inr split: if_splits)
  then show ?thesis
  proof cases
    case 1
    with assms(2) show ?thesis by (simp add: gpu_evolves_refl)
  next
    case 2
    show ?thesis
      by (rule gpu_quiet_step[OF assms(2) 2(1)])
        (auto simp: holding_def gpu_event_frame[OF 2(2)])
  qed
qed

lemma release_Inr_gpu:
  assumes "release_gpu_work clk wid token ev s = Inr (k, t)"
  obtains r w s1 s2 where "lock_gpu_work wid s = Inr (r, w)" "r_revision r = ev_revision ev"
    "w_lease_token w = token" "holding w" "evidence_valid clk w (ev_code ev)"
    "update_work (\<lambda>v. w_id v = wid)
            (\<lambda>v. v\<lparr>w_state := (if w_cancel_requested v then GpuCancelled else Released),
                   w_lease_token := [], w_lease_until := None, w_released_at := Some (tx_now clk),
                   w_updated_at := tx_now clk\<rparr>) s = Inr (k, s1)"
    "gpu_event_row wid (w_state k) (ev_code ev) (ev_detail ev) s1 = Inr s2"
    "t = invalidate_observation clk (r_id r) s2"
  using assms by (auto simp: release_gpu_work_def res_bind_Inr guard_Inr holding_def)

lemma release_gpu_ok:
  assumes op: "release_gpu_work clk wid token ev s = Inr (k, t)" and inv: "gpu_inv s"
  shows "gpu_inv t \<and> gpu_evolves s t"
  using op
proof (cases rule: release_Inr_gpu)
  case (1 r w s1 s2)
  note l = lock_gpu_work_Inr[OF 1(1)]
  show ?thesis
    by (rule gpu_bump_step[OF inv l(1) l(4)[symmetric] 1(6) _ _ 1(7) 1(8)]) (auto simp: l)
qed

lemma retry_ok:
  assumes "retry_gpu_work clk wid s = Inr (k, t)" and inv: "gpu_inv s"
  shows "gpu_inv t \<and> gpu_evolves s t"
proof -
  from assms(1) obtain r w s1 where lk: "lock_gpu_work wid s = Inr (r, w)"
    and st: "w_state w = Released \<or> w_state w = GpuCancelled"
    and u: "update_work (\<lambda>v. w_id v = wid)
         (\<lambda>v. v\<lparr>w_state := Waiting, w_phase := ''reserved'', w_external_id := [],
                w_cancel_requested := False, w_queued_at := tx_now clk,
                w_ready_until := tx_now clk + usec (dur_seconds gpu_intent_lifetime),
                w_held_at := None, w_released_at := None, w_updated_at := tx_now clk\<rparr>) s = Inr (k, s1)"
    and e: "gpu_event_row wid (w_state k) ''retry'' [] s1 = Inr t"
    by (auto simp: retry_gpu_work_def res_bind_Inr guard_Inr)
  have "v = w" if "v \<in> set (works s)" "w_id v = wid" for v
    using lock_gpu_work_Inr[OF lk] gpu_unique_id[OF inv that(1)] that(2) by simp
  with st have "\<not> holding v" if "v \<in> set (works s)" "w_id v = wid" for v
    using that by (auto simp: holding_def)
  then show ?thesis
    by (intro gpu_quiet_step[OF inv u]) (auto simp: holding_def gpu_event_frame[OF e])
qed


lemma observe_ok:
  assumes "observe_gpu_resource clk rid n obs m d s = Inr (r, t)" "gpu_inv s"
  shows "gpu_inv t \<and> gpu_evolves s t"
proof -
  let ?P = "\<lambda>r. r_id r = rid \<and> r_revision r = n"
  let ?f = "\<lambda>r. r\<lparr>r_revision := r_revision r + 1, r_observation := obs,
                        r_message := m, r_observed_at := tx_now clk,
                        r_valid_until := tx_now clk + usec (dur_seconds d)\<rparr>"
  from assms(1) have t: "t = s\<lparr>resources := sql_update ?P ?f (resources s)\<rparr>"
    by (auto simp: observe_gpu_resource_def guard_Inr Let_def split: option.splits)
  have "gpu_inv t"
    using assms(2) by (simp add: t gpu_inv_def unique_key_update)
  moreover have "gpu_evolves s t"
    unfolding gpu_evolves_def
  proof
    fix r assume "r \<in> set (resources s)"
    then have "(if ?P r then ?f r else r) \<in> set (resources t)" by (auto simp: t set_sql_update)
    moreover have "holder_view x t = holder_view x s" for x by (rule holder_view_cong) (simp add: t)
    ultimately show "\<exists>q\<in>set (resources t). r_id q = r_id r \<and> r_revision r \<le> r_revision q \<and>
        (r_revision q = r_revision r \<longrightarrow> holder_view (r_id r) t = holder_view (r_id r) s)"
      by (intro bexI[of _ "if ?P r then ?f r else r"]) auto
  qed
  ultimately show ?thesis ..
qed

lemma holder_view_append:
  "works t = works s @ [w] \<Longrightarrow> \<not> holding w \<Longrightarrow> holder_view rid t = holder_view rid s"
  by (simp add: holder_view_def sql_find_append split: option.splits)

lemma insert_work_ok:
  assumes "insert_work clk q s = Inr (b, t)" "gpu_inv s"
  shows "gpu_inv t \<and> gpu_evolves s t"
proof -
  let ?w = "new_gpu_work clk q"
  have nh: "\<not> holding ?w" by (simp add: new_gpu_work_def holding_def)
  have ok: "gpu_work_row_ok ?w"
    using assms(1) unfolding insert_work_def Let_def guard_Inr by (elim conjE) blast
  show ?thesis
  proof (cases "sql_exists (same_job q) (works s)")
    case True
    with assms(1) ok have "t = s" by (simp add: insert_work_def Let_def)
    with assms(2) show ?thesis by (simp add: gpu_evolves_refl)
  next
    case False
    with assms(1) ok have nc: "\<not> list_ex (\<lambda>v. gpu_conflict v ?w) (works s)"
      and t: "s\<lparr>works := works s @ [?w]\<rparr> = t"
      by (simp_all add: insert_work_def Let_def guard_Inr)
    have "gpu_evolves s t"
      by (rule gpu_evolves_quiet) (simp_all add: t[symmetric] holder_view_append[OF _ nh])
    with assms(2) ok nc show ?thesis
      by (simp add: t[symmetric] gpu_inv_def no_conflicts_append list_ex_iff list_all_iff)
  qed
qed

lemma ensure_resource_ok:
  assumes "gpu_inv s"
  shows "gpu_inv (ensure_resource clk rid s) \<and> gpu_evolves s (ensure_resource clk rid s)"
proof
  show "gpu_inv (ensure_resource clk rid s)"
    using assms by (auto simp: ensure_resource_def gpu_inv_def unique_key_append sql_exists_iff)
  have "holder_view x (ensure_resource clk rid s) = holder_view x s" for x
    by (rule holder_view_cong) (simp add: ensure_resource_def)
  then show "gpu_evolves s (ensure_resource clk rid s)"
    unfolding gpu_evolves_def by (auto simp: ensure_resource_def)
qed

lemma enqueue_ok:
  assumes "enqueue_gpu_work clk q s = Inr (k, t)" "gpu_inv s"
  shows "gpu_inv t \<and> gpu_evolves s t"
proof -
  let ?s1 = "ensure_resource clk (gq_resource_id q) s"
  let ?f = "\<lambda>v. v\<lparr>w_ready_until := tx_now clk + usec (dur_seconds gpu_intent_lifetime),
                             w_priority := gq_priority q\<rparr>"
  from assms(1) obtain b s2 w s3 where ins: "insert_work clk q ?s1 = Inr (b, s2)"
    and ev: "(if b then gpu_event_row (w_id w) (w_state w) ''enqueued'' [] s2 else Inr s2) = Inr s3"
    and fin: "(if w_state w = Waiting then update_work (\<lambda>v. w_id v = w_id w) ?f s3
               else Inr (w, s3)) = Inr (k, t)"
    by (auto simp: enqueue_gpu_work_def guard_Inr Let_def res_bind_Inr split: option.splits)
  note e1 = ensure_resource_ok[OF assms(2), of clk "gq_resource_id q"]
  note e2 = insert_work_ok[OF ins e1[THEN conjunct1]]
  have fr: "works s3 = works s2" "resources s3 = resources s2"
    using ev by (auto split: if_splits dest: gpu_event_frame)
  have inv3: "gpu_inv s3" using e2 fr gpu_inv_cong[of s3 s2] by simp
  have e3: "gpu_evolves s2 s3"
    by (rule gpu_evolves_quiet[OF fr(2) holder_view_cong[OF fr(1)]])
  have "gpu_inv t \<and> gpu_evolves s3 t"
  proof (cases "w_state w = Waiting")
    case True
    with fin have u: "update_work (\<lambda>v. w_id v = w_id w) ?f s3 = Inr (k, t)" by simp
    show ?thesis by (rule gpu_quiet_step[OF inv3 u]) (auto simp: holding_def)
  next
    case False
    with fin inv3 show ?thesis by (auto simp: gpu_evolves_refl)
  qed
  with e1 e2 e3 show ?thesis using gpu_evolves_trans by blast
qed

section \<open>Runs\<close>

inductive gpu_step :: "gpu_db \<Rightarrow> gpu_db \<Rightarrow> bool" where
  gs_enqueue: "enqueue_gpu_work clk q s = Inr (w, t) \<Longrightarrow> gpu_step s t"
| gs_observe: "observe_gpu_resource clk rid n obs m d s = Inr (r, t) \<Longrightarrow> gpu_step s t"
| gs_acquire: "acquire_gpu_work tle clk wid token d s = Inr (a, t) \<Longrightarrow> gpu_step s t"
| gs_heartbeat: "heartbeat_gpu_work clk wid token d s = Inr (b, t) \<Longrightarrow> gpu_step s t"
| gs_phase: "set_gpu_work_phase clk wid token ph ext s = Inr (w, t) \<Longrightarrow> gpu_step s t"
| gs_cancel: "request_gpu_cancellation clk wid s = Inr (w, t) \<Longrightarrow> gpu_step s t"
| gs_release: "release_gpu_work clk wid token ev s = Inr (w, t) \<Longrightarrow> gpu_step s t"
| gs_retry: "retry_gpu_work clk wid s = Inr (w, t) \<Longrightarrow> gpu_step s t"

lemma gpu_step_ok: "gpu_step s t \<Longrightarrow> gpu_inv s \<Longrightarrow> gpu_inv t \<and> gpu_evolves s t"
  by (induction rule: gpu_step.induct)
    (blast dest: enqueue_ok observe_ok acquire_ok heartbeat_ok set_phase_ok cancel_ok release_gpu_ok
      retry_ok)+

definition gpu_start :: "gpu_db \<Rightarrow> bool" where
  "gpu_start g = (resources g = [] \<and> works g = [])"

interpretation gpu: evolution gpu_start gpu_step gpu_inv gpu_evolves
proof
  fix s t u
  show "gpu_start s \<Longrightarrow> gpu_inv s" by (simp add: gpu_start_def gpu_inv_def)
  show "gpu_step s t \<Longrightarrow> gpu_inv s \<Longrightarrow> gpu_inv t" using gpu_step_ok by blast
  show "gpu_evolves s s" by (rule gpu_evolves_refl)
  show "gpu_evolves s t \<Longrightarrow> gpu_evolves t u \<Longrightarrow> gpu_evolves s u" by (rule gpu_evolves_trans)
  show "gpu_step s t \<Longrightarrow> gpu_inv s \<Longrightarrow> gpu_evolves s t" using gpu_step_ok by blast
qed

section \<open>Exclusive admission\<close>

lemma no_conflicts_update_one:
  assumes nc: "no_conflicts C ws"
    and sym: "\<And>a b. C a b \<Longrightarrow> C b a"
    and keep: "\<And>v. v \<in> set ws \<Longrightarrow> v \<noteq> w \<Longrightarrow> \<not> C (f w) v"
    and P: "\<And>v. v \<in> set ws \<Longrightarrow> P v \<Longrightarrow> v = w"
    and refl: "\<And>v. C v v"
  shows "no_conflicts C (sql_update P f ws)"
  using nc keep P
proof (induction ws)
  case Nil
  then show ?case by simp
next
  case (Cons v vs)
  have vs: "v \<notin> set vs" using Cons.prems(1) refl by (auto simp: list_all_iff)
  have IH: "no_conflicts C (sql_update P f vs)"
    by (rule Cons.IH) (use Cons.prems in auto)
  have "\<not> C (if P v then f v else v) u" if u: "u \<in> set (sql_update P f vs)" for u
    using u
  proof (cases rule: in_sql_updateE)
    case same
    with Cons.prems vs show ?thesis by (cases "P v") (auto simp: list_all_iff)
  next
    case (upd x)
    with Cons.prems(3) have "x = w" by auto
    moreover have "v \<noteq> w" using vs upd \<open>x = w\<close> by auto
    moreover have "\<not> P v" using Cons.prems(3)[of v] \<open>v \<noteq> w\<close> by auto
    ultimately show ?thesis using Cons.prems(2)[of v] upd(3) sym by auto
  qed
  with IH show ?case by (simp add: list_all_iff)
qed

lemma update_work_succeeds:
  assumes inv: "gpu_inv g" and w: "w \<in> set (works g)" "P w"
    and P: "\<And>v. v \<in> set (works g) \<Longrightarrow> P v \<Longrightarrow> v = w"
    and ok: "gpu_work_row_ok (f w)" and keys: "w_id (f w) = w_id w" "w_kind (f w) = w_kind w"
      "w_job_key (f w) = w_job_key w" "w_resource_id (f w) = w_resource_id w"
    and hold: "holding (f w) \<Longrightarrow> holding w \<or>
       (\<forall>v\<in>set (works g). w_resource_id v = w_resource_id w \<longrightarrow> \<not> holding v)"
  shows "update_work P f g \<noteq> Inl ErrConstraint"
proof -
  have "\<not> gpu_conflict (f w) v" if "v \<in> set (works g)" "v \<noteq> w" for v
  proof -
    have "\<not> gpu_conflict w v"
      using inv no_conflictsD[of gpu_conflict "works g" w v] gpu_conflict_sym that w(1)
      unfolding gpu_inv_def by blast
    with keys hold that show ?thesis by (auto simp: gpu_conflict_def)
  qed
  moreover have "no_conflicts gpu_conflict (works g)" using inv by (simp add: gpu_inv_def)
  ultimately have "no_conflicts gpu_conflict (sql_update P f (works g))"
    by (intro no_conflicts_update_one[where w = w])
      (auto simp: P gpu_conflict_sym, auto simp: gpu_conflict_def)
  moreover have "list_all (\<lambda>v. P v \<longrightarrow> gpu_work_row_ok (f v)) (works g)"
    using P ok by (auto simp: list_all_iff)
  ultimately show ?thesis by (simp add: update_work_def Let_def split: option.splits)
qed

lemma gpu_row_okD: "gpu_inv g \<Longrightarrow> w \<in> set (works g) \<Longrightarrow> gpu_work_row_ok w"
  by (auto simp: gpu_inv_def list_all_iff)

lemma lease_expired_text: "pg_text 1000 ''Executor completion is unconfirmed''"
  by code_simp

lemma expire_holder_no_constraint:
  assumes inv: "gpu_inv g" and h: "h \<in> set (works g)" "holding h"
  shows "expire_holder clk h g \<noteq> Inl ErrConstraint"
proof -
  let ?f = "\<lambda>v. v\<lparr>w_state := Uncertain, w_updated_at := tx_now clk\<rparr>"
  have "update_work (\<lambda>v. w_id v = w_id h) ?f g \<noteq> Inl ErrConstraint"
  proof (rule update_work_succeeds[OF inv h(1)])
    show "gpu_work_row_ok (?f h)"
      using gpu_row_okD[OF inv h(1)] h(2) unfolding gpu_work_row_ok_def holding_def by auto
  qed (use h gpu_unique_id[OF inv] in auto)
  then show ?thesis
    by (cases "update_work (\<lambda>v. w_id v = w_id h) ?f g")
      (auto simp: expire_holder_def gpu_event_row_def lease_expired_text)
qed

lemma admit_no_constraint:
  assumes inv: "gpu_inv g" and w: "w \<in> set (works g)" "w_id w = wid"
    and lease: "gpu_lease_valid token d"
    and free: "\<forall>v\<in>set (works g). w_resource_id v = w_resource_id w \<longrightarrow> \<not> holding v"
  shows "admit clk wid rid token d g \<noteq> Inl ErrConstraint"
proof -
  let ?f = "\<lambda>v. v\<lparr>w_state := Held, w_phase := ''reserved'', w_lease_token := token,
              w_lease_until := Some (tx_now clk + usec (dur_seconds d)),
              w_held_at := Some (tx_now clk), w_updated_at := tx_now clk\<rparr>"
  have "update_work (\<lambda>v. w_id v = wid) ?f g \<noteq> Inl ErrConstraint"
  proof (rule update_work_succeeds[OF inv w(1)])
    show "gpu_work_row_ok (?f w)"
      using gpu_row_okD[OF inv w(1)] lease
      by (simp add: gpu_work_row_ok_def holding_def gpu_lease_valid_def)
  qed (use w free gpu_unique_id[OF inv] in auto)
  then show ?thesis
    by (cases "update_work (\<lambda>v. w_id v = wid) ?f g") (auto simp: admit_def gpu_event_row_def)
qed

lemma load_no_constraint:
  "lock_gpu_work wid g \<noteq> Inl ErrConstraint"
  by (auto simp: lock_gpu_work_def load_work_def load_resource_def split: option.splits)

text \<open>The unique index on the holder of a resource never fires: with the tables in order,
  an admission request is never aborted by a constraint, because a work is moved to held only
  when no other work holds the resource, and a holder whose lease ran out becomes uncertain
  instead of losing the resource.\<close>

lemma acquire_never_hits_index:
  assumes inv: "gpu_inv g"
  shows "acquire_gpu_work tle clk wid token d g \<noteq> Inl ErrConstraint"
proof (cases "gpu_lease_valid token d")
  case False
  then show ?thesis by (simp add: acquire_gpu_work_def)
next
  case lease: True
  show ?thesis
  proof (cases "lock_gpu_work wid g")
    case (Inl e)
    with load_no_constraint[of wid g] lease show ?thesis by (auto simp: acquire_gpu_work_def)
  next
    case (Inr rw)
    then obtain r w where lk: "lock_gpu_work wid g = Inr (r, w)" by (cases rw) auto
    note l = lock_gpu_work_Inr[OF lk]
    show ?thesis
    proof (cases "sql_find (\<lambda>v. w_resource_id v = r_id r \<and> holding v) (works g)")
      case (Some h)
      then have "expire_holder clk h g \<noteq> Inl ErrConstraint"
        by (intro expire_holder_no_constraint[OF inv]) (auto dest: sql_find_Some)
      with lk lease Some show ?thesis
        by (cases "expire_holder clk h g") (auto simp: acquire_gpu_work_def Let_def)
    next
      case None
      then have "admit clk wid (r_id r) token d g \<noteq> Inl ErrConstraint"
        using l by (intro admit_no_constraint[OF inv l(1,2) lease]) (auto simp: sql_find_None)
      with lk lease None show ?thesis
        by (cases "admit clk wid (r_id r) token d g")
          (auto simp: acquire_gpu_work_def Let_def split: option.splits)
    qed
  qed
qed

section \<open>A small instance\<close>

definition ex_clock :: clock where
  "ex_clock = \<lparr>tx_now = 1000000000, tx_clock = 1000000000, go_now = 1000000000, msk_day = 20000\<rparr>"

definition ex_user :: user_row where
  "ex_user =
     \<lparr>u_id = 7, u_disabled = False, u_expires_at = None, u_can_quick = True,
      u_image_daily_limit = 2, u_image_total_limit = 0, u_image_total_used = 0,
      u_video_daily_limit = 1, u_video_total_limit = 0, u_video_total_used = 0,
      u_queue_priority = False\<rparr>"

definition ex_request :: "string \<Rightarrow> gpu_request" where
  "ex_request s =
     \<lparr>gq_id = s, gq_resource_id = ''primary'', gq_kind = GpuGeneration, gq_job_key = s,
      gq_user_id = 7, gq_priority = False\<rparr>"

definition ex_idle :: gpu_resource where
  "ex_idle = \<lparr>r_id = ''primary'', r_revision = 2, r_observation = ''idle'', r_message = [],
     r_observed_at = 1000000000, r_valid_until = 1010000000\<rparr>"

definition ex_waiting :: gpu_db where
  "ex_waiting =
     \<lparr>resources = [ex_idle],
      works = [new_gpu_work ex_clock (ex_request ''a''), new_gpu_work ex_clock (ex_request ''b'')],
      events = [], gpu_users = [ex_user]\<rparr>"

definition ex_held :: gpu_db where
  "ex_held =
     (case acquire_gpu_work (\<lambda>x y. length x \<le> length y) ex_clock ''a'' ''t'' minute_ns ex_waiting of
        Inl e \<Rightarrow> ex_waiting | Inr (ad, g) \<Rightarrow> g)"

lemma acquire_never_hits_index_witness:
  "acquire_gpu_work (\<lambda>x y. length x \<le> length y) ex_clock ''b'' ''t'' minute_ns ex_held \<noteq> Inl ErrConstraint"
proof (rule acquire_never_hits_index)
  show "gpu_inv ex_held" unfolding gpu_inv_def by code_simp
qed

text \<open>C4: Evidence about the executor that was gathered at some revision of a resource and is
  accepted later, at the release of a work, speaks of that very work: nothing that happened
  in between can have handed the resource to another work or another lease, or have moved the
  holder to another phase.\<close>

theorem release_matches_evidence:
  assumes "gpu_inv s" and "r \<in> set (resources s)" and "steps gpu_step s t"
    and "release_gpu_work clk wid token ev t = Inr (k, u)"
    and "ev_revision ev = r_revision r"
    and "\<exists>w\<in>set (works t). w_id w = wid \<and> w_resource_id w = r_id r"
  shows "\<exists>w\<in>set (works t). w_id w = wid \<and> w_lease_token w = token \<and> holding w \<and>
           holder_view (r_id r) s =
             Some (wid, token, w_state w, w_phase w, w_external_id w)"
proof -
  from assms(4) obtain q w where lk: "lock_gpu_work wid t = Inr (q, w)"
    and "r_revision q = ev_revision ev" "w_lease_token w = token" "holding w"
    by (auto elim: release_Inr_gpu)
  note l = lock_gpu_work_Inr[OF lk]
  have inv: "gpu_inv t" using gpu.run_inv assms(1,3) by blast
  from assms(6) l gpu_unique_id[OF inv] have rid: "w_resource_id w = r_id r" by metis
  from gpu.run_evolves[OF assms(3,1)] assms(2) obtain p where
    p: "p \<in> set (resources t)" "r_id p = r_id r"
      "r_revision p = r_revision r \<longrightarrow> holder_view (r_id r) t = holder_view (r_id r) s"
    unfolding gpu_evolves_def by blast
  have "p = q"
    using inv p(1,2) l(3,4) rid unique_keyD[of r_id "resources t" p q] by (simp add: gpu_inv_def)
  with p(3) \<open>r_revision q = ev_revision ev\<close> assms(5)
  have view: "holder_view (r_id r) t = holder_view (r_id r) s" by simp
  have "sql_find (\<lambda>v. w_resource_id v = r_id r \<and> holding v) (works t) = Some w"
  proof (cases "sql_find (\<lambda>v. w_resource_id v = r_id r \<and> holding v) (works t)")
    case None
    with l(1) rid \<open>holding w\<close> show ?thesis by (auto simp: sql_find_None)
  next
    case (Some v)
    with sql_find_Some[OF Some] gpu_one_holder[OF inv _ l(1) _ \<open>holding w\<close>] rid
    show ?thesis by auto
  qed
  then have "holder_view (r_id r) t = Some (wid, token, w_state w, w_phase w, w_external_id w)"
    using l(2) \<open>w_lease_token w = token\<close> by (simp add: holder_view_def)
  with l(1,2) \<open>w_lease_token w = token\<close> \<open>holding w\<close> view show ?thesis by auto
qed

definition ex_evidence :: evidence where
  "ex_evidence = \<lparr>ev_code = ''not_dispatched'', ev_detail = [], ev_revision = 3\<rparr>"

lemma release_matches_evidence_witness:
  "\<exists>w\<in>set (works ex_held). w_id w = ''a'' \<and> w_lease_token w = ''t'' \<and> holding w \<and>
     holder_view ''primary'' ex_held = Some (''a'', ''t'', w_state w, w_phase w, w_external_id w)"
proof -
  have ok: "is_ok (release_gpu_work ex_clock ''a'' ''t'' ex_evidence ex_held)" by code_simp
  then obtain k u where rel: "release_gpu_work ex_clock ''a'' ''t'' ex_evidence ex_held = Inr (k, u)"
    by (auto simp: is_ok_iff)
  have "\<exists>r\<in>set (resources ex_held). r_id r = ''primary'' \<and> r_revision r = 3" by code_simp
  then obtain r where r: "r \<in> set (resources ex_held)" "r_id r = ''primary''" "r_revision r = 3" by blast
  show ?thesis
    unfolding r(2)[symmetric]
  proof (rule release_matches_evidence[OF _ r(1) steps_refl rel])
    show "gpu_inv ex_held" unfolding gpu_inv_def by code_simp
    show "ev_revision ex_evidence = r_revision r" using r(3) by (simp add: ex_evidence_def)
    show "\<exists>w\<in>set (works ex_held). w_id w = ''a'' \<and> w_resource_id w = r_id r"
      unfolding r(2) by code_simp
  qed
qed

text \<open>C14: A work that is newly admitted was first in the queue of its resource: it was waiting
  and uncancelled with a live intent, its owner may use the service, the resource was seen
  idle and the observation had not run out, and every other eligible work comes after it in
  the order of queue time with the head start of priority.  After the admission the
  observation is void.\<close>

theorem admission_is_first:
  assumes tot: "\<And>a b. tle a b \<or> tle b a" and trans: "\<And>a b c. tle a b \<Longrightarrow> tle b c \<Longrightarrow> tle a c"
    and inv: "gpu_inv g" and op: "acquire_gpu_work tle clk wid token d g = Inr (ad, t)"
    and free: "\<forall>v\<in>set (works g). \<not> holding v" and granted: "ad_granted ad"
  shows "\<exists>w\<in>set (works g). \<exists>r\<in>set (resources g). w_id w = wid \<and> r_id r = w_resource_id w \<and>
     w_state w = Waiting \<and> \<not> w_cancel_requested w \<and> owner_admitted clk w g \<and>
     w_ready_until w > tx_now clk \<and> w_ready_until w > tx_clock clk \<and>
     r_observation r = ''idle'' \<and> r_valid_until r > tx_clock clk \<and>
     (\<forall>v\<in>set (works g). w_resource_id v = r_id r \<and> w_state v = Waiting \<and>
        \<not> w_cancel_requested v \<and> w_ready_until v > tx_now clk \<and> owner_admitted clk v g \<longrightarrow>
        gpu_before tle w v) \<and>
     (\<exists>q\<in>set (resources t). r_id q = r_id r \<and> r_revision q = r_revision r + 1 \<and>
        r_observation q = ''unknown'')"
  using op
proof (cases rule: acquire_cases)
  case (occupied r w h0 h b)
  with free show ?thesis by (auto dest: sql_find_Some)
next
  case refused
  with granted show ?thesis by simp
next
  case (admitted r w n w1)
  note l = lock_gpu_work_Inr[OF admitted(1)]
  have n: "n \<in> set (gpu_queue clk (r_id r) g)" by (rule sql_first_in[OF admitted(8)])
  then have "n \<in> set (works g)" by (simp add: gpu_queue_def)
  then have "n = w" using gpu_unique_id[OF inv _ l(1)] admitted(9) l(2) by simp
  have le: "gpu_before tle a b \<or> gpu_before tle b a" for a b
    using tot[of "w_id a" "w_id b"] by (auto simp: gpu_before_def)
  have tr: "gpu_before tle a b \<Longrightarrow> gpu_before tle b c \<Longrightarrow> gpu_before tle a c" for a b c
    using trans by (auto simp: gpu_before_def)
  have "gpu_before tle n v" if "v \<in> set (gpu_queue clk (r_id r) g)" for v
    by (rule sql_first_least[OF _ _ admitted(8) that]) (use le tr in blast)+
  then have first: "\<forall>v\<in>set (gpu_queue clk (r_id r) g). gpu_before tle w v"
    using \<open>n = w\<close> by blast
  from admitted(10) obtain g1 g2 f where
    "update_work (\<lambda>v. w_id v = wid) f g = Inr (w1, g1)"
    "gpu_event_row wid Held ''admitted'' [] g1 = Inr g2"
    and t: "t = invalidate_observation clk (r_id r) g2"
    by (auto simp: admit_def res_bind_Inr)
  then have "resources g2 = resources g"
    using update_work_inv[OF _ inv] gpu_event_frame by metis
  with l(3) have "r\<lparr>r_revision := r_revision r + 1, r_observation := ''unknown'',
      r_message := ''Executor check required'', r_valid_until := tx_now clk\<rparr> \<in> set (resources t)"
    by (auto simp: t invalidate_observation_def set_sql_update)
  then have "\<exists>q\<in>set (resources t). r_id q = r_id r \<and> r_revision q = r_revision r + 1 \<and>
        r_observation q = ''unknown''" by (intro bexI) simp_all
  with l admitted n \<open>n = w\<close> first show ?thesis
    by (intro bexI[OF _ l(1)] bexI[OF _ l(3)]) (simp add: gpu_queue_def gpu_eligible_def)
qed

lemma admission_is_first_witness:
  "\<exists>w\<in>set (works ex_waiting). \<exists>r\<in>set (resources ex_waiting). w_id w = ''a'' \<and>
     r_id r = w_resource_id w \<and> w_state w = Waiting \<and>
     w_ready_until w > tx_clock ex_clock \<and> r_observation r = ''idle'' \<and>
     r_valid_until r > tx_clock ex_clock \<and>
     (\<exists>q\<in>set (resources (case acquire_gpu_work (\<lambda>x y. length x \<le> length y) ex_clock ''a'' ''t''
         minute_ns ex_waiting of Inl e \<Rightarrow> ex_waiting | Inr (ad, g) \<Rightarrow> g)).
        r_id q = r_id r \<and> r_revision q = r_revision r + 1 \<and> r_observation q = ''unknown'')"
proof -
  let ?op = "acquire_gpu_work (\<lambda>x y. length x \<le> length y) ex_clock ''a'' ''t'' minute_ns ex_waiting"
  have "(case ?op of Inl e \<Rightarrow> False | Inr (ad, g) \<Rightarrow> ad_granted ad)" by code_simp
  then obtain ad g where op: "?op = Inr (ad, g)" "ad_granted ad" by (cases ?op) auto
  have inv: "gpu_inv ex_waiting" unfolding gpu_inv_def by code_simp
  have free: "\<forall>v\<in>set (works ex_waiting). \<not> holding v" by code_simp
  show ?thesis
    unfolding op(1) sum.case prod.case
    by (insert admission_is_first[OF _ _ inv op(1) free op(2)], elim bexE meta_impE) auto
qed

text \<open>C21: A holder whose lease ran out is never robbed of the resource and never revived: the next
  request for the resource, its own included, is refused, the holder becomes uncertain with
  its token kept, and from then on every heartbeat is refused whatever token it brings.  Only
  evidence can end this.\<close>

theorem expired_lease_is_uncertain:
  assumes inv: "gpu_inv g" and op: "acquire_gpu_work tle clk wid token d g = Inr (ad, t)"
    and h: "h \<in> set (works g)" "w_state h = Held" "\<not> lease_live clk h"
    and res: "\<exists>w\<in>set (works g). w_id w = wid \<and> w_resource_id w = w_resource_id h"
  shows "\<not> ad_granted ad \<and>
     (\<exists>k\<in>set (works t). w_id k = w_id h \<and> w_state k = Uncertain \<and>
        w_lease_token k = w_lease_token h) \<and>
     (\<forall>clk' token' d'. gpu_lease_valid token' d' \<longrightarrow>
        heartbeat_gpu_work clk' (w_id h) token' d' t = Inr (False, t))"
proof -
  from op obtain r w where lk: "lock_gpu_work wid g = Inr (r, w)"
    by (auto simp: acquire_gpu_work_def res_bind_Inr guard_Inr)
  note l = lock_gpu_work_Inr[OF lk]
  have wh: "w_resource_id h = r_id r"
    using res l gpu_unique_id[OF inv] by metis
  have hh: "holding h" using h(2) by (simp add: holding_def)
  have "sql_find (\<lambda>v. w_resource_id v = r_id r \<and> holding v) (works g) = Some h"
  proof (cases "sql_find (\<lambda>v. w_resource_id v = r_id r \<and> holding v) (works g)")
    case None
    with h(1) wh hh show ?thesis by (auto simp: sql_find_None)
  next
    case (Some v)
    with sql_find_Some[OF Some] gpu_one_holder[OF inv _ h(1) _ hh] wh show ?thesis by auto
  qed
  with op lk obtain h' b where ex: "expire_holder clk h g = Inr (h', b, t)"
    and gr: "ad_granted ad = (w_id h' = w_id w \<and> w_state h' = Held \<and> w_lease_token h' = token \<and>
                              \<not> w_cancel_requested h')"
    by (auto simp: acquire_gpu_work_def res_bind_Inr guard_Inr Let_def)
  let ?f = "\<lambda>v. v\<lparr>w_state := Uncertain, w_updated_at := tx_now clk\<rparr>"
  from ex h(2,3) obtain g1 g2 where u: "update_work (\<lambda>v. w_id v = w_id h) ?f g = Inr (h', g1)"
    and "gpu_event_row (w_id h') (w_state h') ''lease_expired''
              ''Executor completion is unconfirmed'' g1 = Inr g2"
    and t: "t = invalidate_observation clk (w_resource_id h) g2"
    by (auto simp: expire_holder_def res_bind_Inr)
  then have wt: "works t = sql_update (\<lambda>v. w_id v = w_id h) ?f (works g)"
    using gpu_event_frame by (fastforce simp: update_work_Inr)
  from u obtain v where "h' = ?f v" by (auto simp: update_work_Inr)
  then have "w_state h' = Uncertain" by simp
  moreover have "?f h \<in> set (works t)" using h(1) by (auto simp: wt set_sql_update)
  moreover have "heartbeat_gpu_work clk' (w_id h) token' d' t = Inr (False, t)"
    if lv: "gpu_lease_valid token' d'" for clk' token' d'
  proof -
    have none: "sql_find (\<lambda>v. w_id v = w_id h \<and> w_lease_token v = token' \<and> w_state v = Held \<and>
            lease_live clk' v \<and> \<not> w_cancel_requested v) (works t) = None"
      unfolding sql_find_None wt by (auto elim!: in_sql_updateE)
    show ?thesis using lv by (simp add: heartbeat_gpu_work_def update_work_def none)
  qed
  ultimately show ?thesis using gr by (intro conjI bexI[of _ "?f h"]) auto
qed

definition ex_late :: clock where
  "ex_late = ex_clock\<lparr>tx_now := 2000000000, tx_clock := 2000000000\<rparr>"

lemma expired_lease_is_uncertain_witness:
  "heartbeat_gpu_work ex_late ''a'' ''t'' minute_ns
     (case acquire_gpu_work (\<lambda>x y. length x \<le> length y) ex_late ''b'' ''s'' minute_ns ex_held of
        Inl e \<Rightarrow> ex_held | Inr (ad, g) \<Rightarrow> g) =
   Inr (False, (case acquire_gpu_work (\<lambda>x y. length x \<le> length y) ex_late ''b'' ''s'' minute_ns ex_held of
        Inl e \<Rightarrow> ex_held | Inr (ad, g) \<Rightarrow> g))"
proof -
  let ?op = "acquire_gpu_work (\<lambda>x y. length x \<le> length y) ex_late ''b'' ''s'' minute_ns ex_held"
  have "is_ok ?op" by code_simp
  then obtain ad g where op: "?op = Inr (ad, g)" by (cases ?op) auto
  have "\<exists>h\<in>set (works ex_held). w_id h = ''a'' \<and> w_state h = Held \<and> \<not> lease_live ex_late h \<and>
          w_resource_id h = ''primary''" by code_simp
  then obtain h where h: "h \<in> set (works ex_held)" "w_id h = ''a''" "w_state h = Held"
    "\<not> lease_live ex_late h" "w_resource_id h = ''primary''" by blast
  have inv: "gpu_inv ex_held" unfolding gpu_inv_def by code_simp
  have res: "\<exists>w\<in>set (works ex_held). w_id w = ''b'' \<and> w_resource_id w = w_resource_id h"
    unfolding h(5) by code_simp
  have "gpu_lease_valid ''t'' minute_ns" by code_simp
  with expired_lease_is_uncertain[OF inv op h(1,3,4) res] show ?thesis
    unfolding op sum.case prod.case h(2) by blast
qed

end
