(* ===== verification/Quota.thy ===== *)
theory Quota
  imports JobStore
begin

text \<open>
  Quota accounting (\<open>store/generation_quota.go\<close>): an image and a video bucket per user, each
  with a daily and a total counter.  A reservation is coupled to the durable job, committed
  once the executor accepted its prompt, and refunded otherwise.  The counters less the
  reservations held by jobs are a conserved quantity.
\<close>

definition quick_generation_quota_kind :: "string \<Rightarrow> quota_kind" where
  "quick_generation_quota_kind template =
     (if template = ''minimax-h3-video'' then VideoQuota else ImageQuota)"

record reservation =
  rv_user_id :: int
  rv_date :: int
  rv_kind :: quota_kind

section \<open>Counters\<close>

fun daily_limit :: "quota_kind \<Rightarrow> user_row \<Rightarrow> int" where
  "daily_limit ImageQuota u = u_image_daily_limit u"
| "daily_limit VideoQuota u = u_video_daily_limit u"

fun total_limit :: "quota_kind \<Rightarrow> user_row \<Rightarrow> int" where
  "total_limit ImageQuota u = u_image_total_limit u"
| "total_limit VideoQuota u = u_video_total_limit u"

fun total_used :: "quota_kind \<Rightarrow> user_row \<Rightarrow> int" where
  "total_used ImageQuota u = u_image_total_used u"
| "total_used VideoQuota u = u_video_total_used u"

fun add_total :: "quota_kind \<Rightarrow> int \<Rightarrow> user_row \<Rightarrow> user_row" where
  "add_total ImageQuota n u = u\<lparr>u_image_total_used := u_image_total_used u + n\<rparr>"
| "add_total VideoQuota n u = u\<lparr>u_video_total_used := u_video_total_used u + n\<rparr>"

fun drop_total :: "quota_kind \<Rightarrow> user_row \<Rightarrow> user_row" where
  "drop_total ImageQuota u = u\<lparr>u_image_total_used := max (u_image_total_used u - 1) 0\<rparr>"
| "drop_total VideoQuota u = u\<lparr>u_video_total_used := max (u_video_total_used u - 1) 0\<rparr>"

fun used_on :: "quota_kind \<Rightarrow> usage_row \<Rightarrow> int" where
  "used_on ImageQuota d = d_used d"
| "used_on VideoQuota d = d_video_used d"

fun add_used :: "quota_kind \<Rightarrow> int \<Rightarrow> usage_row \<Rightarrow> usage_row" where
  "add_used ImageQuota n d = d\<lparr>d_used := d_used d + n\<rparr>"
| "add_used VideoQuota n d = d\<lparr>d_video_used := d_video_used d + n\<rparr>"

fun drop_used :: "quota_kind \<Rightarrow> usage_row \<Rightarrow> usage_row" where
  "drop_used ImageQuota d = d\<lparr>d_used := max (d_used d - 1) 0\<rparr>"
| "drop_used VideoQuota d = d\<lparr>d_video_used := max (d_video_used d - 1) 0\<rparr>"

definition new_usage :: "int \<Rightarrow> int \<Rightarrow> quota_kind \<Rightarrow> int \<Rightarrow> usage_row" where
  "new_usage uid day k n =
     add_used k n \<lparr>d_user_id = uid, d_date = day, d_used = 0, d_video_used = 0\<rparr>"

text \<open>INSERT ... ON CONFLICT(user_id,usage_date) DO UPDATE\<close>

fun upsert_usage :: "int \<Rightarrow> int \<Rightarrow> quota_kind \<Rightarrow> int \<Rightarrow> usage_row list \<Rightarrow> usage_row list" where
  "upsert_usage uid day k n [] = [new_usage uid day k n]"
| "upsert_usage uid day k n (d # ds) =
     (if d_user_id d = uid \<and> d_date d = day then add_used k n d # ds
      else d # upsert_usage uid day k n ds)"

text \<open>The columns are INT and BIGINT: an addition out of their range is an error.\<close>

definition usage_row_ok :: "usage_row \<Rightarrow> bool" where
  "usage_row_ok d =
     (0 \<le> d_used d \<and> d_used d < 2 ^ 31 \<and> 0 \<le> d_video_used d \<and> d_video_used d < 2 ^ 31)"

definition user_row_ok :: "user_row \<Rightarrow> bool" where
  "user_row_ok u =
     (0 \<le> u_image_daily_limit u \<and> 0 \<le> u_image_total_limit u \<and>
      0 \<le> u_image_total_used u \<and> u_image_total_used u < 2 ^ 63 \<and>
      0 \<le> u_video_daily_limit u \<and> 0 \<le> u_video_total_limit u \<and>
      0 \<le> u_video_total_used u \<and> u_video_total_used u < 2 ^ 63)"

definition charge_quota :: "int \<Rightarrow> int \<Rightarrow> quota_kind \<Rightarrow> int \<Rightarrow> db \<Rightarrow> store_error + db" where
  "charge_quota uid day k n db =
     (let us = upsert_usage uid day k n (usage db);
          ws = sql_update (\<lambda>u. u_id u = uid) (add_total k n) (users db) in
      if list_all usage_row_ok us \<and> list_all user_row_ok ws
      then Inr (db\<lparr>usage := us, users := ws\<rparr>)
      else Inl ErrConstraint)"

definition refund_quota :: "int \<Rightarrow> int \<Rightarrow> quota_kind \<Rightarrow> db \<Rightarrow> db" where
  "refund_quota uid day k db =
     db\<lparr>usage := sql_update (\<lambda>d. d_user_id d = uid \<and> d_date d = day) (drop_used k) (usage db),
        users := sql_update (\<lambda>u. u_id u = uid) (drop_total k) (users db)\<rparr>"

definition find_user :: "int \<Rightarrow> db \<Rightarrow> user_row option" where
  "find_user uid db = sql_find (\<lambda>u. u_id u = uid) (users db)"

definition find_usage :: "int \<Rightarrow> int \<Rightarrow> db \<Rightarrow> usage_row option" where
  "find_usage uid day db = sql_find (\<lambda>d. d_user_id d = uid \<and> d_date d = day) (usage db)"

definition used_today :: "int \<Rightarrow> int \<Rightarrow> quota_kind \<Rightarrow> db \<Rightarrow> int" where
  "used_today uid day k db =
     (case find_usage uid day db of None \<Rightarrow> 0 | Some d \<Rightarrow> used_on k d)"

section \<open>Reservations of jobs\<close>

definition set_reserved :: "clock \<Rightarrow> int option \<Rightarrow> job_row \<Rightarrow> job_row" where
  "set_reserved clk day j = j\<lparr>j_quota_reserved_on := day, j_updated_at := tx_now clk\<rparr>"

definition reserve_for_job ::
  "clock \<Rightarrow> int \<Rightarrow> int \<Rightarrow> db \<Rightarrow> store_error + ((reservation \<times> bool) \<times> db)" where
  "reserve_for_job clk jid uid db =
     (case sql_find (\<lambda>j. j_id j = jid \<and> j_user_id j = Some uid) (jobs db) of
        None \<Rightarrow> Inl ErrNoRows
      | Some j \<Rightarrow>
          (let k = quick_generation_quota_kind (j_template_id j) in
           case j_quota_reserved_on j of
             Some day \<Rightarrow> Inr ((\<lparr>rv_user_id = uid, rv_date = day, rv_kind = k\<rparr>, False), db)
           | None \<Rightarrow>
               if j_state j \<noteq> WaitingForResources then Inl ErrStateConflict
               else
                 (case find_user uid db of
                    None \<Rightarrow> Inl ErrNoRows
                  | Some u \<Rightarrow>
                      if \<not> u_can_quick u then Inl ErrQuotaForbidden
                      else if total_limit k u > 0 \<and> total_used k u \<ge> total_limit k u
                      then Inl (ErrQuotaLimit k Total)
                      else if daily_limit k u > 0 \<and>
                              used_today uid (msk_day clk) k db \<ge> daily_limit k u
                      then Inl (ErrQuotaLimit k Daily)
                      else
                        res_bind (charge_quota uid (msk_day clk) k 1 db) (\<lambda>db1.
                        res_bind (update_job (\<lambda>r. j_id r = jid)
                           (set_reserved clk (Some (msk_day clk))) db1) (\<lambda>(r, db2).
                        Inr ((\<lparr>rv_user_id = uid, rv_date = msk_day clk, rv_kind = k\<rparr>, True),
                             bump_job_revision db2))))))"

definition commit_for_job :: "clock \<Rightarrow> int \<Rightarrow> db \<Rightarrow> store_error + (bool \<times> db)" where
  "commit_for_job clk jid db =
     (case sql_find (\<lambda>j. j_id j = jid) (jobs db) of
        None \<Rightarrow> Inl ErrNoRows
      | Some j \<Rightarrow>
          if j_quota_committed_at j \<noteq> None then Inr (False, db)
          else if j_quota_reserved_on j = None \<or> go_string (j_prompt_id j) = []
          then Inl ErrStateConflict
          else
            res_bind (update_job (\<lambda>r. j_id r = jid)
              (\<lambda>r. r\<lparr>j_quota_committed_at := Some (tx_now clk), j_updated_at := tx_now clk\<rparr>) db)
            (\<lambda>(r, db1). Inr (True, bump_job_revision db1)))"

definition release_for_job :: "clock \<Rightarrow> int \<Rightarrow> db \<Rightarrow> store_error + (bool \<times> db)" where
  "release_for_job clk jid db =
     (case sql_find (\<lambda>j. j_id j = jid) (jobs db) of
        None \<Rightarrow> Inl ErrNoRows
      | Some j \<Rightarrow>
          (case j_quota_reserved_on j of
             None \<Rightarrow> Inr (False, db)
           | Some day \<Rightarrow>
               if j_quota_committed_at j \<noteq> None then Inr (False, db)
               else
                 (let db1 = (case j_user_id j of
                               None \<Rightarrow> db
                             | Some uid \<Rightarrow>
                                 refund_quota uid day
                                   (quick_generation_quota_kind (j_template_id j)) db) in
                  res_bind (update_job (\<lambda>r. j_id r = jid) (set_reserved clk None) db1)
                    (\<lambda>(r, db2). Inr (True, bump_job_revision db2)))))"

section \<open>Reservations outside a job, and the quota shown\<close>

record quota_bucket =
  qb_daily_limit :: int
  qb_daily_used :: int
  qb_total_limit :: int
  qb_total_used :: int

definition bucket_of :: "clock \<Rightarrow> user_row \<Rightarrow> quota_kind \<Rightarrow> db \<Rightarrow> quota_bucket" where
  "bucket_of clk u k db =
     \<lparr>qb_daily_limit = daily_limit k u, qb_daily_used = used_today (u_id u) (msk_day clk) k db,
      qb_total_limit = total_limit k u, qb_total_used = total_used k u\<rparr>"

definition quick_generation_quota ::
  "clock \<Rightarrow> int \<Rightarrow> db \<Rightarrow> store_error + (quota_bucket \<times> quota_bucket)" where
  "quick_generation_quota clk uid db =
     (case find_user uid db of
        None \<Rightarrow> Inl ErrNoRows
      | Some u \<Rightarrow> Inr (bucket_of clk u ImageQuota db, bucket_of clk u VideoQuota db))"

definition reserve_quick_generation ::
  "clock \<Rightarrow> int \<Rightarrow> db \<Rightarrow> store_error + (reservation \<times> db)" where
  "reserve_quick_generation clk uid db =
     (case find_user uid db of
        None \<Rightarrow> Inl ErrNoRows
      | Some u \<Rightarrow>
          if \<not> u_can_quick u then Inl ErrQuotaForbidden
          else if u_image_total_limit u > 0 \<and> u_image_total_used u \<ge> u_image_total_limit u
          then Inl ErrTotalLimit
          else if u_image_daily_limit u > 0 \<and>
                  used_today uid (msk_day clk) ImageQuota db \<ge> u_image_daily_limit u
          then Inl ErrDailyLimit
          else
            res_bind (charge_quota uid (msk_day clk) ImageQuota 1 db) (\<lambda>db1.
            Inr (\<lparr>rv_user_id = uid, rv_date = msk_day clk, rv_kind = ImageQuota\<rparr>, db1)))"

text \<open>Go's zero time stands for no date; here \<open>None\<close>.\<close>

definition release_quick_generation :: "int \<Rightarrow> int option \<Rightarrow> quota_kind \<Rightarrow> db \<Rightarrow> db" where
  "release_quick_generation uid day k db =
     (if uid = 0 then db
      else (case day of None \<Rightarrow> db | Some d \<Rightarrow> refund_quota uid d k db))"

section \<open>What jobs hold\<close>

definition holds :: "int \<Rightarrow> quota_kind \<Rightarrow> job_row \<Rightarrow> bool" where
  "holds uid k j =
     (j_user_id j = Some uid \<and> quick_generation_quota_kind (j_template_id j) = k \<and>
      j_quota_reserved_on j \<noteq> None)"

definition holds_on :: "int \<Rightarrow> quota_kind \<Rightarrow> int \<Rightarrow> job_row \<Rightarrow> bool" where
  "holds_on uid k day j = (holds uid k j \<and> j_quota_reserved_on j = Some day)"

definition user_total :: "int \<Rightarrow> quota_kind \<Rightarrow> db \<Rightarrow> int" where
  "user_total uid k db = (case find_user uid db of None \<Rightarrow> 0 | Some u \<Rightarrow> total_used k u)"

definition free_total :: "db \<Rightarrow> int \<Rightarrow> quota_kind \<Rightarrow> int" where
  "free_total db uid k = user_total uid k db - int (sql_count (holds uid k) (jobs db))"

definition free_daily :: "db \<Rightarrow> int \<Rightarrow> quota_kind \<Rightarrow> int \<Rightarrow> int" where
  "free_daily db uid k day =
     used_today uid day k db - int (sql_count (holds_on uid k day) (jobs db))"

definition usage_key :: "usage_row \<Rightarrow> int \<times> int" where
  "usage_key d = (d_user_id d, d_date d)"

definition quota_inv :: "db \<Rightarrow> bool" where
  "quota_inv db \<longleftrightarrow>
     jobs_inv db \<and> unique_key u_id (users db) \<and> unique_key usage_key (usage db) \<and>
     (\<forall>uid k. 0 \<le> free_total db uid k) \<and> (\<forall>uid k day. 0 \<le> free_daily db uid k day)"

lemma add_total_simps [simp]:
  "u_id (add_total k n u) = u_id u" "u_id (drop_total k u) = u_id u"
  "total_used k' (add_total k n u) = total_used k' u + (if k' = k then n else 0)"
  "total_used k' (drop_total k u) = (if k' = k then max (total_used k' u - 1) 0 else total_used k' u)"
  by (cases k; cases k'; simp)+

lemma add_used_simps [simp]:
  "usage_key (add_used k n d) = usage_key d" "usage_key (drop_used k d) = usage_key d"
  "d_user_id (add_used k n d) = d_user_id d" "d_date (add_used k n d) = d_date d"
  "d_user_id (drop_used k d) = d_user_id d" "d_date (drop_used k d) = d_date d"
  "used_on k' (add_used k n d) = used_on k' d + (if k' = k then n else 0)"
  "used_on k' (drop_used k d) = (if k' = k then max (used_on k' d - 1) 0 else used_on k' d)"
  by (cases k; cases k'; simp add: usage_key_def)+

lemma new_usage_simps [simp]:
  "d_user_id (new_usage uid day k n) = uid" "d_date (new_usage uid day k n) = day"
  "usage_key (new_usage uid day k n) = (uid, day)"
  "used_on k' (new_usage uid day k n) = (if k' = k then n else 0)"
  by (cases k'; simp add: new_usage_def usage_key_def)+

lemma find_usage_key: "find_usage uid day db = sql_find (\<lambda>d. usage_key d = (uid, day)) (usage db)"
  by (simp add: find_usage_def usage_key_def)

lemma upsert_usage_key: "upsert_usage uid day k n (d # ds) =
     (if usage_key d = (uid, day) then add_used k n d # ds else d # upsert_usage uid day k n ds)"
  by (simp add: usage_key_def)

lemma upsert_usage_keys:
  "usage_key ` set (upsert_usage uid day k n ds) = insert (uid, day) (usage_key ` set ds)"
  by (induction ds) (auto simp: usage_key_def)

lemma upsert_usage_unique:
  "unique_key usage_key ds \<Longrightarrow> unique_key usage_key (upsert_usage uid day k n ds)"
  by (induction ds)
    (auto simp: unique_key_def upsert_usage_key upsert_usage_keys simp del: upsert_usage.simps(2))

lemma upsert_usage_used:
  "(case sql_find (\<lambda>d. usage_key d = (uid', day')) (upsert_usage uid day k n ds) of
      None \<Rightarrow> 0 | Some d \<Rightarrow> used_on k' d) =
   (case sql_find (\<lambda>d. usage_key d = (uid', day')) ds of None \<Rightarrow> 0 | Some d \<Rightarrow> used_on k' d) +
   (if uid' = uid \<and> day' = day \<and> k' = k then n else 0)"
  by (induction ds) (auto simp: sql_find_def usage_key_def)

lemma drop_usage_used:
  "(case sql_find (\<lambda>d. usage_key d = (uid', day'))
           (sql_update (\<lambda>d. d_user_id d = uid \<and> d_date d = day) (drop_used k) ds) of
      None \<Rightarrow> 0 | Some d \<Rightarrow> used_on k' d) =
   (let x = (case sql_find (\<lambda>d. usage_key d = (uid', day')) ds of None \<Rightarrow> 0 | Some d \<Rightarrow> used_on k' d)
    in if uid' = uid \<and> day' = day \<and> k' = k then max (x - 1) 0 else x)"
  by (induction ds) (auto simp: sql_find_def usage_key_def Let_def)

lemma sql_update_users_find:
  assumes "\<And>u. u_id (f u) = u_id u"
  shows "(case sql_find (\<lambda>u. u_id u = uid') (sql_update (\<lambda>u. u_id u = uid) f us) of
            None \<Rightarrow> 0 | Some u \<Rightarrow> total_used k' u) =
         (case sql_find (\<lambda>u. u_id u = uid') us of
            None \<Rightarrow> 0 | Some u \<Rightarrow> total_used k' (if uid' = uid then f u else u))"
  using assms
  by (cases "uid' = uid")
    (simp_all add: sql_find_after_update sql_find_after_update_other split: option.splits)

section \<open>The counters after a charge or a refund\<close>

lemma charge_quota_Inr:
  "charge_quota uid day k n s = Inr t \<longleftrightarrow>
     list_all usage_row_ok (upsert_usage uid day k n (usage s)) \<and>
     list_all user_row_ok (sql_update (\<lambda>u. u_id u = uid) (add_total k n) (users s)) \<and>
     t = s\<lparr>usage := upsert_usage uid day k n (usage s),
           users := sql_update (\<lambda>u. u_id u = uid) (add_total k n) (users s)\<rparr>"
  by (auto simp: charge_quota_def Let_def)

lemma charge_counters:
  assumes "charge_quota uid day k n s = Inr t" "find_user uid s \<noteq> None"
  shows "user_total uid' k' t = user_total uid' k' s + (if uid' = uid \<and> k' = k then n else 0)"
    and "used_today uid' day' k' t =
           used_today uid' day' k' s + (if uid' = uid \<and> day' = day \<and> k' = k then n else 0)"
  using assms
  by (auto simp: charge_quota_Inr user_total_def find_user_def sql_update_users_find
      used_today_def find_usage_key upsert_usage_used split: option.splits)

lemma refund_counters:
  "user_total uid' k' (refund_quota uid day k s) =
     (if uid' = uid \<and> k' = k then max (user_total uid' k' s - 1) 0 else user_total uid' k' s)"
  "used_today uid' day' k' (refund_quota uid day k s) =
     (if uid' = uid \<and> day' = day \<and> k' = k then max (used_today uid' day' k' s - 1) 0
      else used_today uid' day' k' s)"
proof -
  show "user_total uid' k' (refund_quota uid day k s) =
     (if uid' = uid \<and> k' = k then max (user_total uid' k' s - 1) 0 else user_total uid' k' s)"
    by (auto simp: refund_quota_def user_total_def find_user_def sql_update_users_find
        split: option.splits)
  show "used_today uid' day' k' (refund_quota uid day k s) =
     (if uid' = uid \<and> day' = day \<and> k' = k then max (used_today uid' day' k' s - 1) 0
      else used_today uid' day' k' s)"
    by (auto simp: refund_quota_def used_today_def find_usage_key drop_usage_used Let_def)
qed

lemma charge_frame:
  assumes "charge_quota uid day k n s = Inr t"
  shows "same_jobs s t"
    and "unique_key u_id (users s) \<Longrightarrow> unique_key u_id (users t)"
    and "unique_key usage_key (usage s) \<Longrightarrow> unique_key usage_key (usage t)"
  using assms by (auto simp: charge_quota_Inr same_jobs_def upsert_usage_unique unique_key_update)

lemma refund_frame:
  "same_jobs s (refund_quota uid day k s)"
  "unique_key u_id (users s) \<Longrightarrow> unique_key u_id (users (refund_quota uid day k s))"
  "unique_key usage_key (usage s) \<Longrightarrow> unique_key usage_key (usage (refund_quota uid day k s))"
  by (auto simp: refund_quota_def same_jobs_def unique_key_update)

section \<open>The operations\<close>

lemma set_reserved_keys [simp]:
  "j_id (set_reserved clk d j) = j_id j" "j_user_id (set_reserved clk d j) = j_user_id j"
  "j_template_id (set_reserved clk d j) = j_template_id j"
  "j_quota_reserved_on (set_reserved clk d j) = d"
  by (simp_all add: set_reserved_def)

lemma set_reserved_inv:
  assumes "job_inv j" "j_quota_committed_at j = None"
  shows "job_inv (set_reserved clk d j) \<and> row_evolves j (set_reserved clk d j)"
  using assms unfolding job_inv_def row_evolves_def set_reserved_def by simp

lemma job_inv_uncommitted: "job_inv j \<Longrightarrow> j_quota_reserved_on j = None \<Longrightarrow> j_quota_committed_at j = None"
  unfolding job_inv_def by blast

lemma reserve_Inr:
  assumes "reserve_for_job clk jid uid s = Inr ((rv, new), t)"
  obtains
      (again) j day where "sql_find (\<lambda>j. j_id j = jid \<and> j_user_id j = Some uid) (jobs s) = Some j"
        "j_quota_reserved_on j = Some day" "\<not> new" "t = s"
    | (charged) j u s1 r s2 where
        "sql_find (\<lambda>j. j_id j = jid \<and> j_user_id j = Some uid) (jobs s) = Some j"
        "j_quota_reserved_on j = None" "j_state j = WaitingForResources"
        "find_user uid s = Some u" "u_can_quick u"
        "rv = \<lparr>rv_user_id = uid, rv_date = msk_day clk,
               rv_kind = quick_generation_quota_kind (j_template_id j)\<rparr>"
        "total_limit (rv_kind rv) u > 0 \<Longrightarrow> total_used (rv_kind rv) u < total_limit (rv_kind rv) u"
        "daily_limit (rv_kind rv) u > 0 \<Longrightarrow>
           used_today uid (msk_day clk) (rv_kind rv) s < daily_limit (rv_kind rv) u"
        "charge_quota uid (msk_day clk) (rv_kind rv) 1 s = Inr s1"
        "update_job (\<lambda>r. j_id r = jid) (set_reserved clk (Some (msk_day clk))) s1 = Inr (r, s2)"
        "new" "t = bump_job_revision s2"
proof -
  from assms obtain j where j: "sql_find (\<lambda>j. j_id j = jid \<and> j_user_id j = Some uid) (jobs s) = Some j"
    by (auto simp: reserve_for_job_def split: option.splits)
  show ?thesis
  proof (cases "j_quota_reserved_on j")
    case (Some day)
    with assms j show ?thesis
      by (intro again[of j day]) (auto simp: reserve_for_job_def Let_def)
  next
    case None
    with assms j show ?thesis
      by (auto simp: reserve_for_job_def Let_def res_bind_Inr guard_Inr split: option.splits
          intro: charged[OF j None])
  qed
qed

lemma find_job_unique:
  assumes "jobs_inv s" "sql_find P (jobs s) = Some j" "r \<in> set (jobs s)" "j_id r = j_id j"
  shows "r = j"
  using assms jobs_inv_unique sql_find_Some unique_keyD by metis

lemma reserve_safe:
  assumes "reserve_for_job clk jid uid s = Inr ((rv, new), t)"
  shows "safe_step s t"
  using assms
proof (cases rule: reserve_Inr)
  case (charged j u s1 r s2)
  have fr: "same_jobs s s1" using charge_frame[OF charged(9)] by blast
  have "safe_step s1 s2"
  proof (rule safe_update_job[OF charged(10)])
    fix q
    assume "jobs_inv s1" "q \<in> set (jobs s1)" "j_id q = jid" and inv: "job_inv q"
    moreover from charged(1) fr have "sql_find (\<lambda>j. j_id j = jid \<and> j_user_id j = Some uid) (jobs s1) = Some j"
      by (simp add: same_jobs_def)
    moreover from charged(1) have "j_id j = jid" by (auto dest: sql_find_Some)
    ultimately have "q = j" using find_job_unique by metis
    with charged(2) inv show "job_inv (set_reserved clk (Some (msk_day clk)) q) \<and>
        row_evolves q (set_reserved clk (Some (msk_day clk)) q)"
      by (intro set_reserved_inv) (auto dest: job_inv_uncommitted)
  qed
  then show ?thesis
    unfolding charged(12)
    by (rule safe_step_trans[OF same_jobs_safe[OF fr] safe_step_trans[OF _ safe_bump_job_revision]])
qed simp

lemma commit_safe:
  assumes "commit_for_job clk jid s = Inr (b, t)"
  shows "safe_step s t"
proof -
  let ?f = "\<lambda>r. r\<lparr>j_quota_committed_at := Some (tx_now clk), j_updated_at := tx_now clk\<rparr>"
  from assms obtain j where j: "sql_find (\<lambda>j. j_id j = jid) (jobs s) = Some j"
    by (auto simp: commit_for_job_def split: option.splits)
  with assms consider "t = s"
    | r s1 where "j_quota_committed_at j = None" "j_quota_reserved_on j \<noteq> None"
        "go_string (j_prompt_id j) \<noteq> []" "update_job (\<lambda>r. j_id r = jid) ?f s = Inr (r, s1)"
        "t = bump_job_revision s1"
    by (auto simp: commit_for_job_def res_bind_Inr split: if_splits)
  then show ?thesis
  proof cases
    case 2
    have "safe_step s s1"
    proof (rule safe_update_job[OF 2(4)])
      fix q
      assume "jobs_inv s" "q \<in> set (jobs s)" "j_id q = jid" and inv: "job_inv q"
      moreover from j have "j_id j = jid" by (auto dest: sql_find_Some)
      ultimately have "q = j" using find_job_unique[OF _ j] by metis
      with 2 have "j_quota_committed_at q = None" "j_quota_reserved_on q \<noteq> None" "j_prompt_id q \<noteq> None"
        by (auto simp: go_string_None)
      with inv show "job_inv (?f q) \<and> row_evolves q (?f q)"
        unfolding job_inv_def row_evolves_def by simp
    qed
    then show ?thesis unfolding 2(5) using safe_step_trans safe_bump_job_revision by blast
  qed simp
qed

lemma release_Inr:
  assumes "release_for_job clk jid s = Inr (b, t)"
  obtains
      (idle) j where "sql_find (\<lambda>j. j_id j = jid) (jobs s) = Some j" "\<not> b" "t = s"
        "j_quota_reserved_on j = None \<or> j_quota_committed_at j \<noteq> None"
    | (refunded) j day s1 r s2 where "sql_find (\<lambda>j. j_id j = jid) (jobs s) = Some j"
        "j_quota_reserved_on j = Some day" "j_quota_committed_at j = None" "b"
        "s1 = (case j_user_id j of None \<Rightarrow> s
               | Some uid \<Rightarrow> refund_quota uid day (quick_generation_quota_kind (j_template_id j)) s)"
        "update_job (\<lambda>r. j_id r = jid) (set_reserved clk None) s1 = Inr (r, s2)"
        "t = bump_job_revision s2"
proof -
  from assms obtain j where j: "sql_find (\<lambda>j. j_id j = jid) (jobs s) = Some j"
    by (auto simp: release_for_job_def split: option.splits)
  show ?thesis
  proof (cases "j_quota_reserved_on j = None \<or> j_quota_committed_at j \<noteq> None")
    case True
    then have "\<not> b" "t = s" using assms j by (auto simp: release_for_job_def split: option.splits)
    with True j idle show ?thesis by blast
  next
    case False
    then obtain day where "j_quota_reserved_on j = Some day" "j_quota_committed_at j = None" by auto
    with assms j show ?thesis
      by (auto simp: release_for_job_def Let_def res_bind_Inr intro: refunded)
  qed
qed

lemma release_same_jobs:
  "same_jobs s (case o' of None \<Rightarrow> s | Some uid \<Rightarrow> refund_quota uid day k s)"
  by (auto simp: refund_frame split: option.splits)

lemma release_safe:
  assumes "release_for_job clk jid s = Inr (b, t)"
  shows "safe_step s t"
  using assms
proof (cases rule: release_Inr)
  case (refunded j day s1 r s2)
  have fr: "same_jobs s s1" unfolding refunded(5) by (rule release_same_jobs)
  have "safe_step s1 s2"
  proof (rule safe_update_job[OF refunded(6)])
    fix q
    assume "jobs_inv s1" "q \<in> set (jobs s1)" "j_id q = jid" and inv: "job_inv q"
    moreover from refunded(1) fr have "sql_find (\<lambda>j. j_id j = jid) (jobs s1) = Some j"
      by (simp add: same_jobs_def)
    moreover from refunded(1) have "j_id j = jid" by (auto dest: sql_find_Some)
    ultimately have "q = j" using find_job_unique by metis
    with refunded(3) inv show "job_inv (set_reserved clk None q) \<and> row_evolves q (set_reserved clk None q)"
      by (intro set_reserved_inv) auto
  qed
  then show ?thesis
    unfolding refunded(7)
    by (rule safe_step_trans[OF same_jobs_safe[OF fr] safe_step_trans[OF _ safe_bump_job_revision]])
qed simp


section \<open>Conservation\<close>

lemma count_after_set:
  assumes inv: "jobs_inv s" and j: "j \<in> set (jobs s)" and fr: "same_jobs s s1"
    and upd: "update_job (\<lambda>r. j_id r = j_id j) f s1 = Inr (k, t)" and key: "j_id (f j) = j_id j"
  shows "int (sql_count Q (jobs t)) =
           int (sql_count Q (jobs s)) - (if Q j then 1 else 0) + (if Q (f j) then 1 else 0)"
proof -
  from upd fr have "jobs t = sql_update (\<lambda>r. j_id r = j_id j) f (jobs s)"
    by (auto simp: update_job_Inr same_jobs_def)
  then show ?thesis using sql_count_update_key[OF jobs_inv_unique[OF inv] j] by simp
qed

lemma update_job_frame:
  "update_job P f s = Inr (k, t) \<Longrightarrow> users t = users s \<and> usage t = usage s"
  by (auto simp: update_job_Inr)

lemma bump_job_revision_simps [simp]:
  "jobs (bump_job_revision s) = jobs s" "users (bump_job_revision s) = users s"
  "usage (bump_job_revision s) = usage s"
  by (simp_all add: bump_job_revision_def)

lemma counters_cong:
  "users t = users s \<Longrightarrow> user_total uid k t = user_total uid k s"
  "usage t = usage s \<Longrightarrow> used_today uid day k t = used_today uid day k s"
  by (simp_all add: user_total_def find_user_def used_today_def find_usage_def)

lemma reserve_conserves:
  assumes op: "reserve_for_job clk jid uid s = Inr ((rv, new), t)" and inv: "jobs_inv s"
  shows "free_total t uid' k' = free_total s uid' k'"
    and "free_daily t uid' k' day' = free_daily s uid' k' day'"
  using op
proof (atomize (full), cases rule: reserve_Inr)
  case (charged j u s1 r s2)
  let ?k = "rv_kind rv"
  have j: "j \<in> set (jobs s)" "j_id j = jid" "j_user_id j = Some uid"
    using sql_find_Some[OF charged(1)] by auto
  have fr: "same_jobs s s1" using charge_frame[OF charged(9)] by blast
  have k: "?k = quick_generation_quota_kind (j_template_id j)" by (simp add: charged(6))
  note cnt = count_after_set[OF inv j(1) fr charged(10)[folded j(2)]]
  note chg = charge_counters[OF charged(9)]
  have cong: "user_total uid' k' t = user_total uid' k' s1"
    "used_today uid' day' k' t = used_today uid' day' k' s1"
    using update_job_frame[OF charged(10)] charged(12) by (auto intro: counters_cong)
  show "free_total t uid' k' = free_total s uid' k' \<and>
        free_daily t uid' k' day' = free_daily s uid' k' day'"
    using charged(2,4) j k cong
    by (auto simp: free_total_def free_daily_def charged(12) cnt chg holds_def holds_on_def)
qed simp

lemma commit_frame:
  assumes "commit_for_job clk jid s = Inr (b, t)"
  shows "users t = users s \<and> usage t = usage s \<and>
    sql_count (holds uid k) (jobs t) = sql_count (holds uid k) (jobs s) \<and>
    sql_count (holds_on uid k day) (jobs t) = sql_count (holds_on uid k day) (jobs s)"
  using assms
  by (auto simp: commit_for_job_def res_bind_Inr update_job_Inr holds_def holds_on_def
      split: option.splits if_splits intro!: sql_count_update_same)

lemma release_conserves:
  assumes op: "release_for_job clk jid s = Inr (b, t)" and inv: "quota_inv s"
  shows "free_total t uid' k' = free_total s uid' k'"
    and "free_daily t uid' k' day' = free_daily s uid' k' day'"
  using op
proof (atomize (full), cases rule: release_Inr)
  case (refunded j day s1 r s2)
  let ?k = "quick_generation_quota_kind (j_template_id j)"
  have ji: "jobs_inv s" using inv by (simp add: quota_inv_def)
  have j: "j \<in> set (jobs s)" "j_id j = jid" using sql_find_Some[OF refunded(1)] by auto
  have fr: "same_jobs s s1" unfolding refunded(5) by (rule release_same_jobs)
  note cnt = count_after_set[OF ji j(1) fr refunded(6)[folded j(2)]]
  have cong: "user_total uid' k' t = user_total uid' k' s1"
    "used_today uid' day' k' t = used_today uid' day' k' s1"
    using update_job_frame[OF refunded(6)] refunded(7) by (auto intro: counters_cong)
  show "free_total t uid' k' = free_total s uid' k' \<and>
        free_daily t uid' k' day' = free_daily s uid' k' day'"
  proof (cases "j_user_id j")
    case None
    with refunded(5) have "s1 = s" by simp
    with None cong show ?thesis
      by (auto simp: free_total_def free_daily_def refunded(7) cnt holds_def holds_on_def)
  next
    case (Some uid)
    have s1: "s1 = refund_quota uid day ?k s" using refunded(5) Some by simp
    have "0 < sql_count (holds uid ?k) (jobs s)" "0 < sql_count (holds_on uid ?k day) (jobs s)"
      using j(1) Some refunded(2) by (auto intro!: sql_count_pos simp: holds_def holds_on_def)
    moreover have "0 \<le> free_total s uid ?k" "0 \<le> free_daily s uid ?k day"
      using inv by (auto simp: quota_inv_def)
    ultimately have pos: "1 \<le> user_total uid ?k s" "1 \<le> used_today uid day ?k s"
      unfolding free_total_def free_daily_def by linarith+
    show ?thesis
      using Some refunded(2) pos cong
      by (auto simp: free_total_def free_daily_def refunded(7) cnt s1 refund_counters
          holds_def holds_on_def)
  qed
qed simp

end
