(* ===== verification/Batch.thy ===== *)
theory Batch
  imports Quota
begin

text \<open>
  Controlled batches of jobs (\<open>store/generation_batch.go\<close>): validation, the transaction that
  creates the batch, its children, their requests and the quota of all of them together,
  the state derived from the children, cancellation of a whole batch and the choice of a
  winner.
\<close>

text \<open>\<open>UnknownMode\<close> is a text other than the two declared ones.\<close>

fun batch_mode_valid :: "batch_mode \<Rightarrow> bool" where
  "batch_mode_valid (UnknownMode s) = False"
| "batch_mode_valid _ = True"

record batch_child =
  bc_public_id :: string
  bc_correlation_id :: string
  bc_request_id :: string
  bc_parent_job_id :: "int option"
  bc_position :: int
  bc_experiment_value :: string
  bc_prepared :: prepared_job

record batch_params =
  bp_public_id :: string
  bp_user_id :: int
  bp_username :: string
  bp_request_id :: string
  bp_parent_batch_id :: "int option"
  bp_source_job_id :: "int option"
  bp_template_id :: string
  bp_workflow_id :: string
  bp_model_name :: string
  bp_mode :: batch_mode
  bp_parameter_name :: string
  bp_parameter_values :: "string list"
  bp_seed_locked :: bool
  bp_max_parallel :: int
  bp_jobs :: "batch_child list"

definition child_ok :: "int \<Rightarrow> batch_child \<Rightarrow> bool" where
  "child_ok position c =
     (trim_space (bc_public_id c) \<noteq> [] \<and> trim_space (bc_request_id c) \<noteq> [] \<and>
      bc_position c = position \<and>
      (case pr_payload_cipher (bc_prepared c) of None \<Rightarrow> False | Some x \<Rightarrow> x \<noteq> []) \<and>
      trim_space (pr_template_id (bc_prepared c)) \<noteq> [] \<and>
      trim_space (pr_workflow_id (bc_prepared c)) \<noteq> [])"

fun children_ok :: "int \<Rightarrow> batch_child list \<Rightarrow> bool" where
  "children_ok position [] = True"
| "children_ok position (c # cs) = (child_ok position c \<and> children_ok (position + 1) cs)"

definition validate_batch_params :: "batch_params \<Rightarrow> bool" where
  "validate_batch_params p =
     (bp_user_id p > 0 \<and> trim_space (bp_public_id p) \<noteq> [] \<and> trim_space (bp_request_id p) \<noteq> [] \<and>
      batch_mode_valid (bp_mode p) \<and> 2 \<le> length (bp_jobs p) \<and> length (bp_jobs p) \<le> 20 \<and>
      (bp_mode p = ParameterMode \<longrightarrow> trim_space (bp_parameter_name p) \<noteq> []) \<and>
      (bp_mode p = ParameterMode \<longrightarrow> length (bp_parameter_values p) = length (bp_jobs p)) \<and>
      (bp_mode p = SeedsMode \<longrightarrow> trim_space (bp_parameter_name p) = []) \<and>
      (bp_mode p = SeedsMode \<longrightarrow> bp_parameter_values p = []) \<and>
      1 \<le> bp_max_parallel p \<and> bp_max_parallel p \<le> 4 \<and> children_ok 1 (bp_jobs p))"

section \<open>The batch a reader sees\<close>

record batch_view =
  bv_row :: batch_row
  bv_parent_public_id :: string
  bv_source_public_id :: string
  bv_winner_public_id :: string
  bv_updated_at :: int
  bv_draft :: nat
  bv_active :: nat
  bv_completed :: nat
  bv_failed :: nat
  bv_cancelled :: nat
  bv_expired :: nat

definition public_id_of_job :: "int option \<Rightarrow> db \<Rightarrow> string" where
  "public_id_of_job jid db =
     (case sql_find (\<lambda>j. Some (j_id j) = jid) (jobs db) of None \<Rightarrow> [] | Some j \<Rightarrow> j_public_id j)"

definition children_of :: "int \<Rightarrow> db \<Rightarrow> job_row list" where
  "children_of bid db = filter (\<lambda>j. j_batch_id j = Some bid) (jobs db)"

definition view_batch :: "batch_row \<Rightarrow> db \<Rightarrow> batch_view" where
  "view_batch b db =
     (let cs = children_of (b_id b) db; n = (\<lambda>P. sql_count (\<lambda>j. P (j_state j)) cs) in
      \<lparr>bv_row = b,
       bv_parent_public_id =
         (case sql_find (\<lambda>p. Some (b_id p) = b_parent_batch_id b) (batches db) of
            None \<Rightarrow> [] | Some p \<Rightarrow> b_public_id p),
       bv_source_public_id = public_id_of_job (b_source_job_id b) db,
       bv_winner_public_id = public_id_of_job (b_winner_job_id b) db,
       bv_updated_at = fold max (map j_updated_at cs) (b_updated_at b),
       bv_draft = n (\<lambda>q. q = Draft),
       bv_active = n (\<lambda>q. q \<in> {Preparing, Uploading, WaitingForResources, Queued, Running,
                              Postprocessing, Archiving}),
       bv_completed = n (\<lambda>q. q = Completed), bv_failed = n (\<lambda>q. q = Failed),
       bv_cancelled = n (\<lambda>q. q = Cancelled), bv_expired = n (\<lambda>q. q = Expired)\<rparr>)"

definition load_batch :: "(batch_row \<Rightarrow> bool) \<Rightarrow> db \<Rightarrow> store_error + batch_view" where
  "load_batch P db =
     (case sql_find P (batches db) of
        None \<Rightarrow> Inl ErrNoRows
      | Some b \<Rightarrow> if batch_mode_valid (b_mode b) then Inr (view_batch b db) else Inl ErrInvalidState)"

definition generation_batch_by_id :: "int \<Rightarrow> int \<Rightarrow> db \<Rightarrow> store_error + batch_view" where
  "generation_batch_by_id uid bid db = load_batch (\<lambda>b. b_id b = bid \<and> b_user_id b = Some uid) db"

definition generation_batch_by_public_id :: "int \<Rightarrow> string \<Rightarrow> db \<Rightarrow> store_error + batch_view" where
  "generation_batch_by_public_id uid pid db =
     load_batch (\<lambda>b. b_public_id b = trim_space pid \<and> b_user_id b = Some uid) db"

definition generation_batch_jobs :: "int \<Rightarrow> int \<Rightarrow> db \<Rightarrow> store_error + job_row list" where
  "generation_batch_jobs uid bid db =
     scan_jobs (sort_key j_batch_position (sort_key j_id
       (filter (\<lambda>j. j_user_id j = Some uid \<and> j_batch_id j = Some bid) (jobs db))))"

section \<open>Creating a batch\<close>

definition batch_row_ok :: "batch_row \<Rightarrow> bool" where
  "batch_row_ok b =
     (slug_text (b_public_id b) \<and> pg_text 128 (b_username b) \<and> slug_text (b_request_id b) \<and>
      text_between 1 256 (b_template_id b) \<and> text_between 1 256 (b_workflow_id b) \<and>
      text_between 1 512 (b_model_name b) \<and> batch_mode_valid (b_mode b) \<and>
      2 \<le> b_total_count b \<and> b_total_count b \<le> 20 \<and> 1 \<le> b_max_parallel b \<and> b_max_parallel b \<le> 4 \<and>
      (if b_mode b = SeedsMode then b_parameter_name b = []
       else text_between 1 64 (b_parameter_name b)))"

definition batch_conflict :: "batch_row \<Rightarrow> batch_row \<Rightarrow> bool" where
  "batch_conflict a b =
     (b_id a = b_id b \<or> b_public_id a = b_public_id b \<or>
      (b_user_id a \<noteq> None \<and> b_user_id a = b_user_id b \<and> b_request_id a = b_request_id b))"

definition params_batch_row :: "clock \<Rightarrow> batch_params \<Rightarrow> int \<Rightarrow> batch_row" where
  "params_batch_row clk p bid =
     \<lparr>b_id = bid, b_public_id = trim_space (bp_public_id p), b_user_id = Some (bp_user_id p),
      b_username = trim_space (bp_username p), b_request_id = trim_space (bp_request_id p),
      b_parent_batch_id = bp_parent_batch_id p, b_source_job_id = bp_source_job_id p,
      b_winner_job_id = None, b_template_id = trim_space (bp_template_id p),
      b_workflow_id = trim_space (bp_workflow_id p), b_model_name = trim_space (bp_model_name p),
      b_mode = bp_mode p, b_parameter_name = trim_space (bp_parameter_name p),
      b_parameter_values = bp_parameter_values p, b_seed_locked = bp_seed_locked p,
      b_total_count = int (length (bp_jobs p)), b_max_parallel = bp_max_parallel p,
      b_cancel_requested_at = None, b_created_at = tx_now clk, b_updated_at = tx_now clk\<rparr>"

definition insert_batch :: "clock \<Rightarrow> batch_params \<Rightarrow> db \<Rightarrow> store_error + (int \<times> db)" where
  "insert_batch clk p db =
     (let b = params_batch_row clk p (next_batch_id db) in
      if batch_row_ok b \<and> list_all (\<lambda>a. \<not> batch_conflict a b) (batches db) \<and>
         user_exists (bp_user_id p) db
      then Inr (b_id b, db\<lparr>batches := batches db @ [b], next_batch_id := next_batch_id db + 1\<rparr>)
      else Inl ErrConstraint)"

definition child_job_row :: "clock \<Rightarrow> batch_params \<Rightarrow> int \<Rightarrow> batch_child \<Rightarrow> job_row" where
  "child_job_row clk p bid c =
     (let pr = bc_prepared c in
      (default_job_row clk)
        \<lparr>j_public_id := trim_space (bc_public_id c),
         j_correlation_id := trim_space (bc_correlation_id c), j_user_id := Some (bp_user_id p),
         j_username := trim_space (bp_username p), j_request_id := trim_space (bc_request_id c),
         j_parent_job_id := bc_parent_job_id c, j_batch_id := Some bid,
         j_batch_position := bc_position c,
         j_experiment_value := trim_space (bc_experiment_value c),
         j_template_id := pr_template_id pr, j_workflow_id := pr_workflow_id pr,
         j_model_name := pr_model_name pr, j_seed := pr_seed pr,
         j_payload_cipher := pr_payload_cipher pr, j_state := Draft,
         j_status_message := msg_batch_waiting,
         j_dependencies := unique_strings (pr_dependencies pr),
         j_input_count := pr_input_count pr, j_quota_reserved_on := Some (msk_day clk)\<rparr>)"

text \<open>Three plain INSERTs per child; a conflict of any aborts the batch.\<close>

definition insert_child :: "clock \<Rightarrow> batch_params \<Rightarrow> int \<Rightarrow> batch_child \<Rightarrow> db \<Rightarrow> store_error + db" where
  "insert_child clk p bid c db =
     (if \<not> opt_check (\<lambda>q. sql_exists (\<lambda>j. j_id j = q) (jobs db)) (bc_parent_job_id c)
      then Inl ErrConstraint
      else
        res_bind (insert_job (child_job_row clk p bid c) db) (\<lambda>r.
        case r of
          None \<Rightarrow> Inl ErrConstraint
        | Some (j, db1) \<Rightarrow>
            res_bind (append_transition (first_transition clk j) db1) (\<lambda>db2.
            res_bind (insert_request
               ((new_request clk (bp_user_id p) (trim_space (bc_request_id c))
                  (trim_space (bc_correlation_id c)))\<lparr>q_job_id := Some (j_id j)\<rparr>) db2)
              (\<lambda>(created, db3). if created then Inr db3 else Inl ErrConstraint))))"

fun insert_children ::
  "clock \<Rightarrow> batch_params \<Rightarrow> int \<Rightarrow> batch_child list \<Rightarrow> db \<Rightarrow> store_error + db" where
  "insert_children clk p bid [] db = Inr db"
| "insert_children clk p bid (c # cs) db =
     res_bind (insert_child clk p bid c db) (insert_children clk p bid cs)"

definition batch_links_owned :: "batch_params \<Rightarrow> db \<Rightarrow> bool" where
  "batch_links_owned p db =
     (opt_check (\<lambda>bid. sql_exists (\<lambda>b. b_id b = bid \<and> b_user_id b = Some (bp_user_id p)) (batches db))
        (bp_parent_batch_id p) \<and>
      opt_check (\<lambda>jid. sql_exists (\<lambda>j. j_id j = jid \<and> j_user_id j = Some (bp_user_id p) \<and>
                                    j_state j = Completed) (jobs db))
        (bp_source_job_id p))"

text \<open>The quota of all children is checked and charged at once.\<close>

definition batch_quota_check :: "clock \<Rightarrow> batch_params \<Rightarrow> db \<Rightarrow> store_error + quota_kind" where
  "batch_quota_check clk p db =
     (case find_user (bp_user_id p) db of
        None \<Rightarrow> Inl ErrNoRows
      | Some u \<Rightarrow>
          (let k = quick_generation_quota_kind (bp_template_id p); n = int (length (bp_jobs p)) in
           if \<not> u_can_quick u then Inl ErrQuotaForbidden
           else if total_limit k u > 0 \<and> n > total_limit k u - total_used k u
           then Inl (ErrQuotaLimit k Total)
           else if daily_limit k u > 0 \<and>
                   n > daily_limit k u - used_today (bp_user_id p) (msk_day clk) k db
           then Inl (ErrQuotaLimit k Daily)
           else Inr k))"

definition create_generation_batch ::
  "clock \<Rightarrow> batch_params \<Rightarrow> db \<Rightarrow> store_error + ((batch_view \<times> bool) \<times> db)" where
  "create_generation_batch clk p db =
     (if \<not> validate_batch_params p then Inl ErrBatchInput
      else
        (case sql_find (\<lambda>b. b_user_id b = Some (bp_user_id p) \<and>
                            b_request_id b = trim_space (bp_request_id p)) (batches db) of
           Some b \<Rightarrow>
             res_bind (generation_batch_by_id (bp_user_id p) (b_id b) db) (\<lambda>v. Inr ((v, False), db))
         | None \<Rightarrow>
             if \<not> batch_links_owned p db then Inl ErrBatchConflict
             else
               res_bind (batch_quota_check clk p db) (\<lambda>k.
               res_bind (insert_batch clk p db) (\<lambda>(bid, db1).
               res_bind (insert_children clk p bid (bp_jobs p) db1) (\<lambda>db2.
               res_bind (charge_quota (bp_user_id p) (msk_day clk) k (int (length (bp_jobs p))) db2)
                 (\<lambda>db3.
               res_bind (bump_user_revision (bp_user_id p) db3) (\<lambda>db4.
               let db5 = bump_job_revision db4 in
               res_bind (generation_batch_by_id (bp_user_id p) bid db5) (\<lambda>v.
               Inr ((v, True), db5)))))))))"

section \<open>Cancelling a batch and choosing its winner\<close>

definition request_batch_cancellation ::
  "clock \<Rightarrow> int \<Rightarrow> string \<Rightarrow> db \<Rightarrow> store_error + ((batch_view \<times> job_row list \<times> bool) \<times> db)" where
  "request_batch_cancellation clk uid pid db =
     (case sql_find (\<lambda>b. b_user_id b = Some uid \<and> b_public_id b = trim_space pid) (batches db) of
        None \<Rightarrow> Inl ErrNoRows
      | Some b \<Rightarrow>
          (let changed = (b_cancel_requested_at b = None) in
           res_bind
             (if changed then
                res_bind (update_jobs
                  (\<lambda>j. j_batch_id j = Some (b_id b) \<and> j_user_id j = Some uid \<and>
                       j_state j \<in> {Draft, Preparing, Uploading, WaitingForResources, Queued, Running})
                  (\<lambda>j. j\<lparr>j_cancel_requested_at :=
                           (case j_cancel_requested_at j of None \<Rightarrow> Some (tx_now clk) | Some x \<Rightarrow> Some x),
                         j_updated_at := tx_now clk\<rparr>)
                  (db\<lparr>batches := sql_update (\<lambda>a. b_id a = b_id b)
                        (\<lambda>a. a\<lparr>b_cancel_requested_at := Some (tx_now clk),
                               b_updated_at := tx_now clk\<rparr>) (batches db)\<rparr>))
                (\<lambda>db1. Inr (bump_job_revision db1))
              else Inr db) (\<lambda>db1.
           res_bind (generation_batch_by_id uid (b_id b) db1) (\<lambda>v.
           res_bind (generation_batch_jobs uid (b_id b) db1) (\<lambda>js.
           Inr ((v, js, changed), db1))))))"

definition set_batch_winner ::
  "clock \<Rightarrow> int \<Rightarrow> string \<Rightarrow> string \<Rightarrow> db \<Rightarrow> store_error + (batch_view \<times> db)" where
  "set_batch_winner clk uid bpid jpid db =
     (case sql_find (\<lambda>b. b_user_id b = Some uid \<and> b_public_id b = trim_space bpid) (batches db) of
        None \<Rightarrow> Inl ErrNoRows
      | Some b \<Rightarrow>
          (case sql_find (\<lambda>j. j_user_id j = Some uid \<and> j_public_id j = trim_space jpid) (jobs db) of
             None \<Rightarrow> Inl ErrNoRows
           | Some j \<Rightarrow>
               if j_batch_id j \<noteq> Some (b_id b) \<or> j_state j \<noteq> Completed then Inl ErrBatchWinner
               else
                 (let db1 = bump_job_revision (db\<lparr>batches := sql_update (\<lambda>a. b_id a = b_id b)
                       (\<lambda>a. a\<lparr>b_winner_job_id := Some (j_id j), b_updated_at := tx_now clk\<rparr>)
                       (batches db)\<rparr>) in
                  res_bind (generation_batch_by_id uid (b_id b) db1) (\<lambda>v. Inr (v, db1)))))"

section \<open>The operations keep the rows' invariant\<close>

lemma safe_insert_batch: "insert_batch clk p s = Inr (b, t) \<Longrightarrow> safe_step s t"
  by (rule same_jobs_safe) (auto simp: insert_batch_def same_jobs_def Let_def split: if_splits)

lemma child_row_inv: "job_inv (child_job_row clk p bid c\<lparr>j_id := i\<rparr>)"
  by (simp add: child_job_row_def Let_def default_job_row_def job_inv_def terminal_def)

lemma insert_child_Inr:
  "insert_child clk p bid c s = Inr t \<longleftrightarrow>
     opt_check (\<lambda>q. sql_exists (\<lambda>j. j_id j = q) (jobs s)) (bc_parent_job_id c) \<and>
     (\<exists>j s1 s2. insert_job (child_job_row clk p bid c) s = Inr (Some (j, s1)) \<and>
        append_transition (first_transition clk j) s1 = Inr s2 \<and>
        insert_request ((new_request clk (bp_user_id p) (trim_space (bc_request_id c))
             (trim_space (bc_correlation_id c)))\<lparr>q_job_id := Some (j_id j)\<rparr>) s2 = Inr (True, t))"
  by (auto simp: insert_child_def res_bind_Inr guard_Inr split: option.splits if_splits)

lemma safe_insert_child:
  assumes "insert_child clk p bid c s = Inr t"
  shows "safe_step s t"
proof -
  from assms obtain j s1 s2 q where
    i: "insert_job (child_job_row clk p bid c) s = Inr (Some (j, s1))"
    and "append_transition (first_transition clk j) s1 = Inr s2" "insert_request q s2 = Inr (True, t)"
    unfolding insert_child_Inr by blast
  moreover from i have "job_inv j" by (auto simp: insert_job_Inr child_row_inv)
  ultimately show ?thesis
    using safe_step_trans safe_insert_job safe_append_transition safe_insert_request by blast
qed

lemma safe_insert_children: "insert_children clk p bid cs s = Inr t \<Longrightarrow> safe_step s t"
  by (induction cs arbitrary: s) (auto simp: res_bind_Inr intro: safe_insert_child safe_step_trans)

lemma create_batch_Inr:
  assumes "create_generation_batch clk p s = Inr ((v, new), t)"
  obtains
      (known) "\<not> new" "t = s"
    | (created) k bid s1 s2 s3 s4 where "new" "validate_batch_params p" "batch_links_owned p s"
        "batch_quota_check clk p s = Inr k" "insert_batch clk p s = Inr (bid, s1)"
        "insert_children clk p bid (bp_jobs p) s1 = Inr s2"
        "charge_quota (bp_user_id p) (msk_day clk) k (int (length (bp_jobs p))) s2 = Inr s3"
        "bump_user_revision (bp_user_id p) s3 = Inr s4" "t = bump_job_revision s4"
        "generation_batch_by_id (bp_user_id p) bid t = Inr v"
proof -
  have val: "validate_batch_params p"
    using assms by (simp add: create_generation_batch_def guard_Inr)
  show ?thesis
  proof (cases "sql_find (\<lambda>b. b_user_id b = Some (bp_user_id p) \<and>
                            b_request_id b = trim_space (bp_request_id p)) (batches s)")
    case (Some b)
    with assms val have "\<not> new \<and> t = s" by (auto simp: create_generation_batch_def res_bind_Inr)
    then show ?thesis using known by blast
  next
    case None
    with assms val show ?thesis
      by (auto simp: create_generation_batch_def res_bind_Inr guard_Inr Let_def intro: created)
  qed
qed

lemma charge_safe: "charge_quota uid day k n s = Inr t \<Longrightarrow> safe_step s t"
  by (rule same_jobs_safe) (rule charge_frame)

lemma create_batch_safe:
  assumes "create_generation_batch clk p s = Inr ((v, new), t)"
  shows "safe_step s t"
  using assms
proof (cases rule: create_batch_Inr)
  case (created k bid s1 s2 s3 s4)
  note st = safe_insert_batch[OF created(5)] safe_insert_children[OF created(6)]
    charge_safe[OF created(7)] safe_bump_user_revision[OF created(8)] safe_bump_job_revision[of s4]
  show ?thesis
    unfolding created(9) by (rule safe_step_trans[OF st(1) safe_step_trans[OF st(2)
        safe_step_trans[OF st(3) safe_step_trans[OF st(4,5)]]]])
qed simp

lemma batch_cancel_safe:
  assumes "request_batch_cancellation clk uid pid s = Inr (x, t)"
  shows "safe_step s t"
proof -
  from assms obtain b where b: "sql_find (\<lambda>b. b_user_id b = Some uid \<and> b_public_id b = trim_space pid)
      (batches s) = Some b"
    by (auto simp: request_batch_cancellation_def split: option.splits)
  let ?s1 = "s\<lparr>batches := sql_update (\<lambda>a. b_id a = b_id b)
     (\<lambda>a. a\<lparr>b_cancel_requested_at := Some (tx_now clk), b_updated_at := tx_now clk\<rparr>) (batches s)\<rparr>"
  let ?f = "\<lambda>j. j\<lparr>j_cancel_requested_at :=
                           (case j_cancel_requested_at j of None \<Rightarrow> Some (tx_now clk) | Some x \<Rightarrow> Some x),
                         j_updated_at := tx_now clk\<rparr>"
  have fr: "safe_step s ?s1" by (rule same_jobs_safe) (simp add: same_jobs_def)
  from assms b consider "t = s"
    | P s2 where "update_jobs P ?f ?s1 = Inr s2" "t = bump_job_revision s2"
    by (auto simp: request_batch_cancellation_def res_bind_Inr Let_def split: if_split_asm)
  then show ?thesis
  proof cases
    case 2
    have "safe_step ?s1 s2"
      by (rule safe_update_jobs[OF 2(1)])
        (simp add: job_inv_def row_evolves_def split: option.splits)
    with fr 2(2) show ?thesis using safe_step_trans safe_bump_job_revision by blast
  qed simp
qed

lemma set_winner_safe:
  assumes "set_batch_winner clk uid bp jp s = Inr (v, t)"
  shows "safe_step s t"
proof (rule same_jobs_safe)
  from assms show "same_jobs s t"
    by (auto simp: set_batch_winner_def res_bind_Inr Let_def guard_Inr same_jobs_def
        bump_job_revision_def split: option.splits)
qed

end
