(* ===== verification/MiningPause.thy ===== *)
theory MiningPause
  imports JobStore
begin

text \<open>
  The mining pause (\<open>store/mining_pause.go\<close>, \<open>gateway/mining_pause.go\<close>): every GPU work
  that needs the card holds a durable lease, the miner is stopped by the first one and
  started again when the last one ends.  The miner's agent is a separate program: what it
  reports and replies are arguments, and the calls made to it are part of the result.  All
  of this runs under one mutex.
\<close>

section \<open>Leases in the store\<close>

definition lease_row_ok :: "lease_row \<Rightarrow> bool" where
  "lease_row_ok l =
     (text_between 1 128 (l_id l) \<and> opt_check (text_between 1 128) (l_prompt_id l) \<and>
      text_between 1 1024 (l_script_path l) \<and> text_between 1 128 (l_process_name l) \<and>
      (l_correlation_id l = [] \<or> slug_text (l_correlation_id l)))"

definition lease_conflict :: "lease_row \<Rightarrow> lease_row \<Rightarrow> bool" where
  "lease_conflict a b =
     (l_id a = l_id b \<or> (l_prompt_id a \<noteq> None \<and> l_prompt_id a = l_prompt_id b))"

definition null_if_zero :: "int \<Rightarrow> int option" where
  "null_if_zero n = (if n = 0 then None else Some n)"

definition null_if_empty :: "string \<Rightarrow> string option" where
  "null_if_empty s = (if s = [] then None else Some s)"

definition create_mining_lease :: "lease_row \<Rightarrow> db \<Rightarrow> store_error + db" where
  "create_mining_lease l db =
     (if \<not> lease_row_ok l \<or> list_ex (\<lambda>k. lease_conflict k l) (leases db) \<or>
         \<not> user_exists (l_user_id l) db \<or>
         \<not> opt_check (\<lambda>jid. sql_exists (\<lambda>j. j_id j = jid) (jobs db)) (l_job_id l)
      then Inl ErrConstraint
      else Inr (db\<lparr>leases := leases db @ [l]\<rparr>))"

definition mark_lease_ready :: "string \<Rightarrow> db \<Rightarrow> db" where
  "mark_lease_ready lid db =
     db\<lparr>leases := sql_update (\<lambda>l. l_id l = lid) (\<lambda>l. l\<lparr>l_resume_ready := True\<rparr>) (leases db)\<rparr>"

definition attach_mining_lease :: "string \<Rightarrow> string \<Rightarrow> db \<Rightarrow> store_error + (bool \<times> db)" where
  "attach_mining_lease lid pid db =
     (let P = (\<lambda>l. l_id l = lid \<and> l_prompt_id l = None);
          ls = sql_update P (\<lambda>l. l\<lparr>l_prompt_id := Some pid\<rparr>) (leases db) in
      if list_all lease_row_ok ls \<and> no_conflicts lease_conflict ls
      then Inr (sql_exists P (leases db), db\<lparr>leases := ls\<rparr>) else Inl ErrConstraint)"

definition list_mining_leases :: "db \<Rightarrow> lease_row list" where
  "list_mining_leases db = sort_key l_created_at (leases db)"

definition active_mining_lease :: "db \<Rightarrow> lease_row option" where
  "active_mining_lease db =
     (case list_mining_leases db of [] \<Rightarrow> None | l # ls \<Rightarrow> Some l)"

definition mining_lease_by_prompt :: "string \<Rightarrow> db \<Rightarrow> lease_row option" where
  "mining_lease_by_prompt pid db = sql_find (\<lambda>l. l_prompt_id l = Some pid) (leases db)"

definition mining_lease_by_job :: "int \<Rightarrow> db \<Rightarrow> lease_row option" where
  "mining_lease_by_job jid db = sql_find (\<lambda>l. l_job_id l = Some jid) (leases db)"

definition mining_lease_by_lora_job :: "int \<Rightarrow> db \<Rightarrow> lease_row option" where
  "mining_lease_by_lora_job jid db = sql_find (\<lambda>l. l_lora_job_id l = Some jid) (leases db)"

definition delete_mining_lease :: "string \<Rightarrow> db \<Rightarrow> store_error + ((lease_row \<times> nat) \<times> db)" where
  "delete_mining_lease lid db =
     (case sql_find (\<lambda>l. l_id l = lid) (leases db) of
        None \<Rightarrow> Inl ErrNoRows
      | Some l \<Rightarrow>
          (let ls = sql_delete (\<lambda>l. l_id l = lid) (leases db) in
           Inr ((l, length ls), db\<lparr>leases := ls\<rparr>)))"

section \<open>The miner's agent\<close>

record mining_target =
  mt_id :: int
  mt_script_path :: string
  mt_process_name :: string
  mt_enabled :: bool
  mt_running :: bool

record mining_overview =
  ov_available :: bool
  ov_running :: bool
  ov_active :: "mining_target option"
  ov_default :: "mining_target option"

datatype agent_reply = AgentError | AgentState bool

datatype agent_call = StopMiner string string | StartMiner string string

fun confirmed_stopped :: "agent_reply \<Rightarrow> bool" where
  "confirmed_stopped AgentError = False"
| "confirmed_stopped (AgentState running) = (\<not> running)"

fun confirmed_running :: "agent_reply \<Rightarrow> bool" where
  "confirmed_running AgentError = False"
| "confirmed_running (AgentState running) = running"

datatype pause_result =
    NoLease | Leased lease_row | PauseFailed

section \<open>Pausing\<close>

definition pause_lease ::
  "clock \<Rightarrow> string \<Rightarrow> string \<Rightarrow> int \<Rightarrow> int \<Rightarrow> int \<Rightarrow> int \<Rightarrow> string \<Rightarrow> string \<Rightarrow> bool \<Rightarrow> lease_row"
where
  "pause_lease clk lid cid uid jid lora miner script process resume =
     \<lparr>l_id = lid, l_correlation_id = cid, l_prompt_id = None, l_user_id = uid,
      l_miner_id = miner, l_script_path = script, l_process_name = process,
      l_resume_mining = resume, l_job_id = null_if_zero jid, l_lora_job_id = null_if_zero lora,
      l_resume_ready = False, l_created_at = tx_now clk\<rparr>"

definition was_running :: "mining_overview \<Rightarrow> bool" where
  "was_running ov = (ov_available ov \<and> ov_running ov \<and> ov_active ov \<noteq> None)"

text \<open>Another lease exists: the miner should be stopped already; if it runs, stop it first.\<close>

definition join_pause ::
  "clock \<Rightarrow> mining_overview \<Rightarrow> agent_reply \<Rightarrow> string \<Rightarrow> string \<Rightarrow> int \<Rightarrow> int \<Rightarrow> int \<Rightarrow> lease_row \<Rightarrow> db \<Rightarrow>
     pause_result \<times> agent_call list \<times> db" where
  "join_pause clk ov stop lid cid uid jid lora old db =
     (let calls = (case ov_active ov of
                     Some t \<Rightarrow> if was_running ov
                               then [StopMiner (mt_script_path t) (mt_process_name t)] else []
                   | None \<Rightarrow> []) in
      if calls \<noteq> [] \<and> \<not> confirmed_stopped stop then (PauseFailed, calls, db)
      else
        (let l = pause_lease clk lid cid uid jid lora (l_miner_id old) (l_script_path old)
                   (l_process_name old) (l_resume_mining old \<or> was_running ov) in
         case create_mining_lease l db of
           Inl e \<Rightarrow> (PauseFailed, calls, db)
         | Inr db1 \<Rightarrow> (Leased l, calls, db1)))"

text \<open>The first lease is durable before the miner is stopped, and taken back if it was not.\<close>

definition open_pause ::
  "clock \<Rightarrow> mining_overview \<Rightarrow> agent_reply \<Rightarrow> string \<Rightarrow> string \<Rightarrow> int \<Rightarrow> int \<Rightarrow> int \<Rightarrow> db \<Rightarrow>
     pause_result \<times> agent_call list \<times> db" where
  "open_pause clk ov stop lid cid uid jid lora db =
     (case (case ov_active ov of Some t \<Rightarrow> Some t | None \<Rightarrow> ov_default ov) of
        None \<Rightarrow> (NoLease, [], db)
      | Some t \<Rightarrow>
          if \<not> mt_enabled t \<and> \<not> mt_running t then (NoLease, [], db)
          else
            (let l = pause_lease clk lid cid uid jid lora (mt_id t) (mt_script_path t)
                       (mt_process_name t) True in
             case create_mining_lease l db of
               Inl e \<Rightarrow> (PauseFailed, [], db)
             | Inr db1 \<Rightarrow>
                 if was_running ov then
                   (let calls = [StopMiner (mt_script_path t) (mt_process_name t)] in
                    if confirmed_stopped stop then (Leased l, calls, db1)
                    else
                      (case delete_mining_lease lid db1 of
                         Inl e \<Rightarrow> (PauseFailed, calls, db1)
                       | Inr (x, db2) \<Rightarrow> (PauseFailed, calls, db2)))
                 else (Leased l, [], db1)))"

definition reserve_mining ::
  "clock \<Rightarrow> mining_overview \<Rightarrow> agent_reply \<Rightarrow> string \<Rightarrow> string \<Rightarrow> int \<Rightarrow> int \<Rightarrow> int \<Rightarrow> db \<Rightarrow>
     pause_result \<times> agent_call list \<times> db" where
  "reserve_mining clk ov stop lid cid uid jid lora db =
     (case active_mining_lease db of
        Some old \<Rightarrow> join_pause clk ov stop lid cid uid jid lora old db
      | None \<Rightarrow> open_pause clk ov stop lid cid uid jid lora db)"

definition pause_for_lora_training ::
  "clock \<Rightarrow> mining_overview \<Rightarrow> agent_reply \<Rightarrow> string \<Rightarrow> string \<Rightarrow> int \<Rightarrow> int \<Rightarrow> db \<Rightarrow>
     pause_result \<times> agent_call list \<times> db" where
  "pause_for_lora_training clk ov stop lid cid uid lora db =
     (case (if lora > 0 then mining_lease_by_lora_job lora db else None) of
        Some l \<Rightarrow> (Leased l, [], db)
      | None \<Rightarrow> reserve_mining clk ov stop lid cid uid 0 lora db)"

definition pause_for_generation ::
  "clock \<Rightarrow> mining_overview \<Rightarrow> agent_reply \<Rightarrow> bool \<Rightarrow> string \<Rightarrow> string \<Rightarrow> int \<Rightarrow> int \<Rightarrow> db \<Rightarrow>
     pause_result \<times> agent_call list \<times> db" where
  "pause_for_generation clk ov stop policy lid cid uid jid db =
     (if \<not> policy then (NoLease, [], db) else reserve_mining clk ov stop lid cid uid jid 0 db)"

section \<open>Resuming\<close>

definition remove_lease :: "string \<Rightarrow> db \<Rightarrow> bool \<times> db" where
  "remove_lease lid db =
     (case delete_mining_lease lid db of
        Inr (x, db1) \<Rightarrow> (True, db1)
      | Inl e \<Rightarrow> (e = ErrNoRows, db))"

text \<open>
  The last lease is kept until the miner is seen running or its start is confirmed, so a
  lost reply leaves a request that is tried again.
\<close>

definition release_mining_pause ::
  "mining_overview \<Rightarrow> agent_reply \<Rightarrow> string \<Rightarrow> db \<Rightarrow> bool \<times> agent_call list \<times> db" where
  "release_mining_pause ov start lid db =
     (let db1 = mark_lease_ready lid db; ls = list_mining_leases db1 in
      case find (\<lambda>l. l_id l = lid) ls of
        None \<Rightarrow> (True, [], db1)
      | Some l \<Rightarrow>
          if length ls > 1 \<or> \<not> l_resume_mining l
          then (let (ok, db2) = remove_lease lid db1 in (ok, [], db2))
          else if \<not> ov_available ov then (False, [], db1)
          else if ov_running ov
          then (let (ok, db2) = remove_lease lid db1 in (ok, [], db2))
          else if \<not> confirmed_running start
          then (False, [StartMiner (l_script_path l) (l_process_name l)], db1)
          else (let (ok, db2) = remove_lease lid db1 in
                (ok, [StartMiner (l_script_path l) (l_process_name l)], db2)))"

definition release_mining_pause_for_job ::
  "mining_overview \<Rightarrow> agent_reply \<Rightarrow> int \<Rightarrow> db \<Rightarrow> bool \<times> agent_call list \<times> db" where
  "release_mining_pause_for_job ov start jid db =
     (case mining_lease_by_job jid db of
        None \<Rightarrow> (True, [], db) | Some l \<Rightarrow> release_mining_pause ov start (l_id l) db)"

definition release_mining_pause_for_prompt ::
  "mining_overview \<Rightarrow> agent_reply \<Rightarrow> string \<Rightarrow> db \<Rightarrow> bool \<times> agent_call list \<times> db" where
  "release_mining_pause_for_prompt ov start pid db =
     (case mining_lease_by_prompt pid db of
        None \<Rightarrow> (True, [], db) | Some l \<Rightarrow> release_mining_pause ov start (l_id l) db)"

definition release_mining_pause_for_lora ::
  "mining_overview \<Rightarrow> agent_reply \<Rightarrow> int \<Rightarrow> db \<Rightarrow> bool \<times> agent_call list \<times> db" where
  "release_mining_pause_for_lora ov start jid db =
     (case mining_lease_by_lora_job jid db of
        None \<Rightarrow> (True, [], db) | Some l \<Rightarrow> release_mining_pause ov start (l_id l) db)"

section \<open>Leases over a run\<close>

text \<open>The first lease asks for a restart and every later one inherits it.\<close>

definition mining_inv :: "db \<Rightarrow> bool" where
  "mining_inv db =
     (no_conflicts lease_conflict (leases db) \<and> list_all l_resume_mining (leases db))"

lemma lease_conflict_sym: "lease_conflict a b \<Longrightarrow> lease_conflict b a"
  unfolding lease_conflict_def by metis

lemma lease_unique_id:
  "mining_inv db \<Longrightarrow> a \<in> set (leases db) \<Longrightarrow> b \<in> set (leases db) \<Longrightarrow> l_id a = l_id b \<Longrightarrow> a = b"
  using no_conflictsD[of lease_conflict "leases db" a b] lease_conflict_sym
  by (auto simp: mining_inv_def lease_conflict_def)

lemma create_lease_inv:
  assumes "create_mining_lease l s = Inr t" "mining_inv s" "l_resume_mining l"
  shows "mining_inv t"
  using assms
  by (auto simp: create_mining_lease_def mining_inv_def no_conflicts_append list_ex_iff list_all_iff
      split: if_splits)

lemma delete_lease_Inr:
  "delete_mining_lease lid s = Inr ((l, n), t) \<longleftrightarrow>
     sql_find (\<lambda>l. l_id l = lid) (leases s) = Some l \<and>
     n = length (sql_delete (\<lambda>l. l_id l = lid) (leases s)) \<and>
     t = s\<lparr>leases := sql_delete (\<lambda>l. l_id l = lid) (leases s)\<rparr>"
  by (auto simp: delete_mining_lease_def Let_def split: option.splits)

lemma delete_lease_inv: "delete_mining_lease lid s = Inr (x, t) \<Longrightarrow> mining_inv s \<Longrightarrow> mining_inv t"
  by (cases x)
    (auto simp: delete_lease_Inr mining_inv_def no_conflicts_delete list_all_iff)

lemma remove_lease_inv: "remove_lease lid s = (ok, t) \<Longrightarrow> mining_inv s \<Longrightarrow> mining_inv t"
  by (auto simp: remove_lease_def split: sum.splits prod.splits dest: delete_lease_inv)

lemma no_conflicts_map_cong:
  "(\<And>a b. C (f a) (f b) = C a b) \<Longrightarrow> no_conflicts C (map f rs) = no_conflicts C rs"
  by (simp add: no_conflicts_iff_sorted_wrt sorted_wrt_map)

lemma mark_ready_inv: "mining_inv (mark_lease_ready lid s) = mining_inv s"
proof -
  let ?g = "\<lambda>l. if l_id l = lid then l\<lparr>l_resume_ready := True\<rparr> else l"
  have keys: "l_id (?g a) = l_id a" "l_prompt_id (?g a) = l_prompt_id a"
    "l_resume_mining (?g a) = l_resume_mining a" for a by simp_all
  have "lease_conflict (?g a) (?g b) = lease_conflict a b" for a b
    by (simp only: lease_conflict_def keys)
  then have "no_conflicts lease_conflict (map ?g (leases s)) = no_conflicts lease_conflict (leases s)"
    by (rule no_conflicts_map_cong)
  moreover have "list_all l_resume_mining (map ?g (leases s)) = list_all l_resume_mining (leases s)"
    by (simp add: list.pred_map comp_def keys del: if_split)
  ultimately show ?thesis by (simp add: mark_lease_ready_def mining_inv_def sql_update_def)
qed

lemma join_pause_inv:
  assumes "join_pause clk ov stop lid cid uid jid lora old s = (x, calls, t)" "mining_inv s"
    and "l_resume_mining old"
  shows "mining_inv t"
  using assms
  by (auto simp: join_pause_def Let_def pause_lease_def split: sum.splits if_splits
      intro: create_lease_inv)

lemma open_pause_inv:
  assumes "open_pause clk ov stop lid cid uid jid lora s = (x, calls, t)" "mining_inv s"
  shows "mining_inv t"
proof -
  have *: "mining_inv s1" if "create_mining_lease (pause_lease clk lid cid uid jid lora a b c True) s = Inr s1"
    for a b c s1
    by (rule create_lease_inv[OF that assms(2)]) (simp add: pause_lease_def)
  from assms show ?thesis
    by (auto simp: open_pause_def Let_def split: option.splits sum.splits if_splits prod.splits
        dest!: * dest: delete_lease_inv)
qed

lemma active_lease_in: "active_mining_lease s = Some l \<Longrightarrow> l \<in> set (leases s)"
  by (auto simp: active_mining_lease_def list_mining_leases_def split: list.splits)
    (metis list.set_intros(1) set_sort)

lemma reserve_inv:
  assumes "reserve_mining clk ov stop lid cid uid jid lora s = (x, calls, t)" "mining_inv s"
  shows "mining_inv t"
proof (cases "active_mining_lease s")
  case None
  with assms show ?thesis by (auto simp: reserve_mining_def intro: open_pause_inv)
next
  case (Some old)
  then have "l_resume_mining old"
    using assms(2) active_lease_in[OF Some] by (auto simp: mining_inv_def list_all_iff)
  with assms Some show ?thesis by (auto simp: reserve_mining_def intro: join_pause_inv)
qed

lemma release_pause_cases:
  assumes "release_mining_pause ov start lid s = (ok, calls, t)"
  obtains
      (gone) "ok" "calls = []" "t = mark_lease_ready lid s" "\<forall>l\<in>set (leases t). l_id l \<noteq> lid"
    | (others) l where "l \<in> set (leases s)" "l_id l = lid" "calls = []"
        "length (leases s) > 1 \<or> \<not> l_resume_mining l" "remove_lease lid (mark_lease_ready lid s) = (ok, t)"
    | (waits) l where "l \<in> set (leases s)" "l_id l = lid" "\<not> ok" "t = mark_lease_ready lid s"
        "length (leases s) = 1" "calls \<noteq> [] \<Longrightarrow> ov_available ov \<and> \<not> ov_running ov"
    | (running) l where "l \<in> set (leases s)" "l_id l = lid" "calls = []" "ov_available ov" "ov_running ov"
        "length (leases s) = 1" "remove_lease lid (mark_lease_ready lid s) = (ok, t)"
    | (started) l where "l \<in> set (leases s)" "l_id l = lid" "confirmed_running start"
        "calls = [StartMiner (l_script_path l) (l_process_name l)]" "ov_available ov" "\<not> ov_running ov"
        "length (leases s) = 1" "remove_lease lid (mark_lease_ready lid s) = (ok, t)"
proof -
  let ?s = "mark_lease_ready lid s"
  have len: "length (list_mining_leases ?s) = length (leases s)"
    by (simp add: list_mining_leases_def mark_lease_ready_def)
  show ?thesis
  proof (cases "find (\<lambda>l. l_id l = lid) (list_mining_leases ?s)")
    case None
    then have "\<forall>l\<in>set (leases ?s). l_id l \<noteq> lid"
      by (auto simp: find_None_iff list_mining_leases_def)
    with assms None show ?thesis
      by (intro gone) (auto simp: release_mining_pause_def Let_def)
  next
    case (Some m)
    then have "m \<in> set (leases ?s)" "l_id m = lid"
      using sql_find_Some[unfolded sql_find_def] by (fastforce simp: list_mining_leases_def)+
    then obtain l where l: "l \<in> set (leases s)" "l_id l = lid"
      "m = l\<lparr>l_resume_ready := True\<rparr>"
      by (auto simp: mark_lease_ready_def set_sql_update split: if_splits)
    then have "leases s \<noteq> []" by auto
    then have one: "\<not> 1 < length (leases s) \<longleftrightarrow> length (leases s) = 1"
      by (cases "leases s") auto
    show ?thesis
    proof (cases "length (leases s) > 1 \<or> \<not> l_resume_mining l")
      case True
      with assms Some l len show ?thesis
        by (intro others[OF l(1,2)]) (auto simp: release_mining_pause_def Let_def split: prod.splits)
    next
      case False
      with one have 1: "length (leases s) = 1" by blast
      from False assms Some l len 1 show ?thesis
        by (cases "ov_available ov"; cases "ov_running ov"; cases "confirmed_running start")
          (auto simp: release_mining_pause_def Let_def split: prod.splits
            intro: waits[OF l(1,2)] running[OF l(1,2)] started[OF l(1,2)])
    qed
  qed
qed

inductive mining_step :: "db \<Rightarrow> db \<Rightarrow> bool" where
  ms_pause: "reserve_mining clk ov stop lid cid uid jid lora s = (x, calls, t) \<Longrightarrow> mining_step s t"
| ms_release: "release_mining_pause ov start lid s = (ok, calls, t) \<Longrightarrow> mining_step s t"

lemma release_pause_inv:
  assumes "release_mining_pause ov start lid s = (ok, calls, t)" "mining_inv s"
  shows "mining_inv t"
  using assms(1)
  by (cases rule: release_pause_cases)
    (use assms(2) mark_ready_inv remove_lease_inv in blast)+

interpretation mining: transition_system "\<lambda>s. leases s = []" mining_step mining_inv
proof
  fix s t
  show "leases s = [] \<Longrightarrow> mining_inv s" by (simp add: mining_inv_def)
  show "mining_step s t \<Longrightarrow> mining_inv s \<Longrightarrow> mining_inv t"
    by (induction rule: mining_step.induct) (auto intro: reserve_inv release_pause_inv)
qed

lemma mark_ready_length: "length (leases (mark_lease_ready lid s)) = length (leases s)"
  by (simp add: mark_lease_ready_def)

text \<open>C19: However pauses were opened, joined and released before, the release that ends the last
  lease is one that saw the miner running or had its start confirmed; the miner is started
  only for the last lease and only when it was seen stopped; and a release that reports
  failure leaves a lease marked as ready in the table, so it is tried again.\<close>

theorem miner_resumes_with_last_lease:
  assumes "leases s0 = []" and "steps mining_step s0 s"
    and "release_mining_pause ov start lid s = (ok, calls, t)" and "leases s \<noteq> []"
  shows "(leases t = [] \<longrightarrow> ov_available ov \<and> (ov_running ov \<or> (calls \<noteq> [] \<and> confirmed_running start))) \<and>
     (calls \<noteq> [] \<longrightarrow> length (leases s) = 1 \<and> ov_available ov \<and> \<not> ov_running ov) \<and>
     (\<not> ok \<longrightarrow> (\<exists>l\<in>set (leases t). l_id l = lid \<and> l_resume_ready l))"
proof -
  have inv: "mining_inv s" using mining.reachable_inv assms(1,2) by blast
  have resume: "l_resume_mining l" if "l \<in> set (leases s)" for l
    using inv that by (auto simp: mining_inv_def list_all_iff)
  have uniq: "\<And>a b. a \<in> set (leases s) \<Longrightarrow> b \<in> set (leases s) \<Longrightarrow> l_id a = l_id b \<Longrightarrow> a = b"
    using lease_unique_id[OF inv] by blast
  have ready: "\<exists>k\<in>set (leases (mark_lease_ready lid s)). l_id k = lid \<and> l_resume_ready k"
    if "l \<in> set (leases s)" "l_id l = lid" for l
  proof (rule bexI[of _ "l\<lparr>l_resume_ready := True\<rparr>"])
    show "l\<lparr>l_resume_ready := True\<rparr> \<in> set (leases (mark_lease_ready lid s))"
      using that by (auto simp: mark_lease_ready_def sql_update_def)
  qed (simp add: that)
  have removed: "ok \<and> length (leases t) + 1 = length (leases s)"
    if l: "l \<in> set (leases s)" "l_id l = lid" and rm: "remove_lease lid (mark_lease_ready lid s) = (ok, t)" for l
  proof -
    let ?ls = "leases (mark_lease_ready lid s)"
    obtain k where f: "sql_find (\<lambda>l. l_id l = lid) ?ls = Some k"
      using ready[OF l] by (cases "sql_find (\<lambda>l. l_id l = lid) ?ls") (auto simp: sql_find_None)
    have "unique_key l_id (leases s)"
      using inv by (auto simp: mining_inv_def lease_conflict_def elim: no_conflicts_unique_key)
    then have "unique_key l_id ?ls" by (simp add: mark_lease_ready_def unique_key_update)
    moreover have "k \<in> set ?ls" "l_id k = lid" using sql_find_Some[OF f] by auto
    ultimately have "length (sql_delete (\<lambda>l. l_id l = lid) ?ls) + 1 = length ?ls"
      using length_sql_delete_key[of l_id ?ls k] by simp
    with rm f show ?thesis
      by (auto simp: remove_lease_def delete_mining_lease_def Let_def mark_ready_length)
  qed
  from assms(3) show ?thesis
  proof (cases rule: release_pause_cases)
    case gone
    then show ?thesis
      using assms(4) mark_ready_length[of lid s] by auto
  next
    case (others l)
    with removed[OF others(1,2,5)] resume[OF others(1)] show ?thesis by auto
  next
    case (waits l)
    with ready[OF waits(1,2)] show ?thesis by auto
  next
    case (running l)
    with removed[OF running(1,2,7)] show ?thesis by auto
  next
    case (started l)
    with removed[OF started(1,2,8)] show ?thesis by auto
  qed
qed


definition ex_miner :: mining_target where
  "ex_miner = \<lparr>mt_id = 1, mt_script_path = ''C:/miner.bat'', mt_process_name = ''miner.exe'',
     mt_enabled = True, mt_running = True\<rparr>"

definition ex_overview :: "bool \<Rightarrow> mining_overview" where
  "ex_overview running = \<lparr>ov_available = True, ov_running = running,
     ov_active = (if running then Some ex_miner else None), ov_default = Some ex_miner\<rparr>"

definition ex_owner :: user_row where
  "ex_owner =
     \<lparr>u_id = 7, u_disabled = False, u_expires_at = None, u_can_quick = True,
      u_image_daily_limit = 2, u_image_total_limit = 0, u_image_total_used = 0,
      u_video_daily_limit = 1, u_video_total_limit = 0, u_video_total_used = 0,
      u_queue_priority = False\<rparr>"

definition ex_paused :: db where
  "ex_paused = snd (snd (reserve_mining
     \<lparr>tx_now = 1000000, tx_clock = 1000000, go_now = 1000000, msk_day = 20000\<rparr>
     (ex_overview True) (AgentState False) ''lease-1'' [] 7 0 0 (empty_db\<lparr>users := [ex_owner]\<rparr>)))"

lemma miner_resumes_with_last_lease_witness:
  "\<exists>l\<in>set (leases (snd (snd (release_mining_pause (ex_overview False) AgentError ''lease-1'' ex_paused)))).
     l_id l = ''lease-1'' \<and> l_resume_ready l"
proof -
  let ?s0 = "empty_db\<lparr>users := [ex_owner]\<rparr>"
  let ?op = "release_mining_pause (ex_overview False) AgentError ''lease-1'' ex_paused"
  have run: "steps mining_step ?s0 ex_paused"
    unfolding ex_paused_def by (intro steps_one ms_pause) (simp add: prod_eq_iff)
  have "leases ex_paused \<noteq> []" and "\<not> fst ?op" by code_simp+
  moreover have "leases ?s0 = []" by (simp add: empty_db_def)
  moreover obtain ok calls t where op: "?op = (ok, calls, t)" by (cases ?op) auto
  ultimately have "\<exists>l\<in>set (leases t). l_id l = ''lease-1'' \<and> l_resume_ready l"
    using miner_resumes_with_last_lease[OF _ run op] by simp
  then show ?thesis by (simp add: op)
qed

end
