(* ===== verification/StoreRuns.thy ===== *)
theory StoreRuns
  imports Dispatch Batch MiningPause
begin

text \<open>
  The store as a whole: one step is one committed transaction of any modelled operation on
  the generation tables.  The rows' invariant and evolution, the at-most-once submission and
  the conservation of quota hold over every run, by interpretation of the shared contracts
  on this step relation.
\<close>

inductive store_step :: "db \<Rightarrow> db \<Rightarrow> bool" where
  st_create: "create_generation_job clk p s = Inr (x, t) \<Longrightarrow> store_step s t"
| st_claim: "claim_generation_job clk p s = Inr (x, t) \<Longrightarrow> store_step s t"
| st_claim_request: "claim_generation_request clk uid rid s = Inr (r, t) \<Longrightarrow> store_step s t"
| st_bind_request: "bind_generation_request_prompt clk uid rid pid s = Inr t \<Longrightarrow> store_step s t"
| st_release_request: "t = release_generation_request uid rid s \<Longrightarrow> store_step s t"
| st_prepare: "prepare_generation_job clk jid pr s = Inr (j, t) \<Longrightarrow> store_step s t"
| st_bind: "bind_generation_job_prompt clk jid pid s = Inr (j, t) \<Longrightarrow> store_step s t"
| st_transition: "transition_generation_job clk jid tp s = Inr (x, t) \<Longrightarrow> store_step s t"
| st_released: "mark_resources_released clk jid s = Inr (j, t) \<Longrightarrow> store_step s t"
| st_cancel: "request_job_cancellation clk jid uid s = Inr (x, t) \<Longrightarrow> store_step s t"
| st_clear: "clear_job_cancellation clk jid uid m s = Inr (x, t) \<Longrightarrow> store_step s t"
| st_confirm: "confirm_job_cancellation clk jid s = Inr (x, t) \<Longrightarrow> store_step s t"
| st_queue: "queue_generation_dispatch clk jid s = Inr (j, t) \<Longrightarrow> store_step s t"
| st_next: "claim_next_dispatch clk locked token n s = Inr (j, t) \<Longrightarrow> store_step s t"
| st_begin: "begin_job_submission clk jid token s = Inr t \<Longrightarrow> store_step s t"
| st_postpone: "postpone_dispatch clk jid token s = Inr t \<Longrightarrow> store_step s t"
| st_reject: "reject_job_submission clk jid token s = Inr t \<Longrightarrow> store_step s t"
| st_fence: "fence_resource_release clk jid token s = Inr (b, t) \<Longrightarrow> store_step s t"
| st_reserve: "reserve_for_job clk jid uid s = Inr (y, t) \<Longrightarrow> store_step s t"
| st_commit: "commit_for_job clk jid s = Inr (b, t) \<Longrightarrow> store_step s t"
| st_release: "release_for_job clk jid s = Inr (b, t) \<Longrightarrow> store_step s t"
| st_batch: "create_generation_batch clk bp s = Inr (z, t) \<Longrightarrow> store_step s t"
| st_batch_cancel: "request_batch_cancellation clk uid pid s = Inr (v, t) \<Longrightarrow> store_step s t"
| st_winner: "set_batch_winner clk uid bpid jpid s = Inr (w, t) \<Longrightarrow> store_step s t"
| st_pause: "reserve_mining clk ov stop lid cid uid jid lora s = (pr', calls, t) \<Longrightarrow> store_step s t"
| st_resume: "release_mining_pause ov start lid s = (ok, calls, t) \<Longrightarrow> store_step s t"
| st_attach: "attach_mining_lease lid pid s = Inr (b, t) \<Longrightarrow> store_step s t"

section \<open>Operations on requests and leases\<close>

lemma claim_request_safe: "claim_generation_request clk uid rid s = Inr (r, t) \<Longrightarrow> safe_step s t"
  by (auto simp: claim_generation_request_def Let_def res_bind_Inr split: if_splits
      intro: safe_insert_request)

lemma bind_request_safe: "bind_generation_request_prompt clk uid rid pid s = Inr t \<Longrightarrow> safe_step s t"
  by (auto simp: bind_generation_request_prompt_def res_bind_Inr split: if_splits
      intro: safe_update_requests)

lemma release_request_safe: "safe_step s (release_generation_request uid rid s)"
  by (rule same_jobs_safe) (simp add: release_generation_request_def same_jobs_def)

lemma create_lease_frame: "create_mining_lease l s = Inr t \<Longrightarrow> same_jobs s t"
  by (auto simp: create_mining_lease_def same_jobs_def split: if_splits)

lemma mark_ready_frame: "same_jobs s (mark_lease_ready lid s)"
  by (simp add: mark_lease_ready_def same_jobs_def)

lemma delete_lease_frame: "delete_mining_lease lid s = Inr (x, t) \<Longrightarrow> same_jobs s t"
  by (cases x) (auto simp: delete_lease_Inr same_jobs_def)

lemma remove_lease_frame: "remove_lease lid s = (ok, t) \<Longrightarrow> same_jobs s t"
  by (auto simp: remove_lease_def split: sum.splits prod.splits dest: delete_lease_frame)

lemma attach_frame: "attach_mining_lease lid pid s = Inr (b, t) \<Longrightarrow> same_jobs s t"
  by (auto simp: attach_mining_lease_def same_jobs_def Let_def split: if_splits)

lemma join_pause_frame:
  "join_pause clk ov stop lid cid uid jid lora old s = (x, calls, t) \<Longrightarrow> same_jobs s t"
  by (auto simp: join_pause_def Let_def split: sum.splits if_splits dest: create_lease_frame)

lemma open_pause_frame:
  "open_pause clk ov stop lid cid uid jid lora s = (x, calls, t) \<Longrightarrow> same_jobs s t"
  by (auto simp: open_pause_def Let_def split: option.splits sum.splits if_splits prod.splits
      dest!: create_lease_frame delete_lease_frame intro: same_jobs_trans)

lemma pause_frame:
  "reserve_mining clk ov stop lid cid uid jid lora s = (x, calls, t) \<Longrightarrow> same_jobs s t"
  by (auto simp: reserve_mining_def split: option.splits
      dest: join_pause_frame open_pause_frame)

lemma resume_frame:
  assumes "release_mining_pause ov start lid s = (ok, calls, t)"
  shows "same_jobs s t"
  using assms
  by (cases rule: release_pause_cases)
    (auto intro: mark_ready_frame same_jobs_trans[OF mark_ready_frame remove_lease_frame])

section \<open>The invariant and the evolution of rows\<close>

lemma store_step_safe: "store_step s t \<Longrightarrow> safe_step s t"
proof (induction rule: store_step.induct)
  case (st_reserve clk jid uid s y t)
  then show ?case by (cases y) (auto intro: reserve_safe)
next
  case (st_batch clk bp s z t)
  then show ?case by (cases z) (auto intro: create_batch_safe)
qed (blast intro: create_safe claim_safe claim_request_safe bind_request_safe release_request_safe
      prepare_safe bind_safe transition_safe mark_released_safe request_cancellation_safe
      clear_cancellation_safe confirm_cancellation_safe queue_dispatch_safe claim_next_safe
      begin_safe postpone_safe reject_safe fence_safe commit_safe release_safe batch_cancel_safe
      set_winner_safe same_jobs_safe pause_frame resume_frame attach_frame)+

definition no_jobs :: "db \<Rightarrow> bool" where
  "no_jobs db = (jobs db = [])"

interpretation store: evolution no_jobs store_step jobs_inv jobs_evolve
proof
  fix s t u
  show "no_jobs s \<Longrightarrow> jobs_inv s" by (simp add: no_jobs_def jobs_inv_def)
  show "store_step s t \<Longrightarrow> jobs_inv s \<Longrightarrow> jobs_inv t"
    using store_step_safe by (auto simp: safe_step_def)
  show "jobs_evolve s s" by simp
  show "jobs_evolve s t \<Longrightarrow> jobs_evolve t u \<Longrightarrow> jobs_evolve s u" by (rule jobs_evolve_trans)
  show "store_step s t \<Longrightarrow> jobs_inv s \<Longrightarrow> jobs_evolve s t"
    using store_step_safe by (auto simp: safe_step_def)
qed

section \<open>Submission at most once\<close>

definition submission_marked :: "db \<Rightarrow> int \<Rightarrow> bool" where
  "submission_marked s jid \<longleftrightarrow>
     (\<exists>j\<in>set (jobs s). j_id j = jid \<and> j_submission_started_at j \<noteq> None)"

definition submits :: "int \<Rightarrow> db \<Rightarrow> db \<Rightarrow> bool" where
  "submits jid s t \<longleftrightarrow> jobs_inv s \<and> (\<exists>clk token. begin_job_submission clk jid token s = Inr t)"

definition sound_step :: "db \<Rightarrow> db \<Rightarrow> bool" where
  "sound_step s t \<longleftrightarrow> jobs_inv s \<and> store_step s t"

lemma begin_Inr:
  assumes "begin_job_submission clk jid token s = Inr t"
  obtains j where "j \<in> set (jobs s)" "j_id j = jid" "token \<noteq> []" "j_dispatch_token j = token"
    "j_state j = WaitingForResources" "j_prompt_id j = None" "j_submission_started_at j = None"
    "j_cancel_requested_at j = None" "j_dispatch_closed_at j = None"
    "j_resources_released_at j = None" "\<exists>u. j_dispatch_until j = Some u \<and> u > tx_clock clk"
    "j\<lparr>j_submission_started_at := Some (tx_clock clk), j_updated_at := tx_now clk\<rparr> \<in> set (jobs t)"
proof -
  from assms obtain x where tok: "token \<noteq> []" and u: "update_job
        (\<lambda>j. j_id j = jid \<and> j_dispatch_token j = token \<and>
             (case j_dispatch_until j of None \<Rightarrow> False | Some u \<Rightarrow> u > tx_clock clk) \<and>
             j_state j = WaitingForResources \<and> j_prompt_id j = None \<and>
             j_submission_started_at j = None \<and> j_cancel_requested_at j = None \<and>
             j_dispatch_closed_at j = None \<and> j_resources_released_at j = None)
        (\<lambda>j. j\<lparr>j_submission_started_at := Some (tx_clock clk), j_updated_at := tx_now clk\<rparr>) s
      = Inr (x, t)"
    by (auto simp: begin_job_submission_def exec_one_Inr guard_Inr)
  show ?thesis
    by (rule update_job_row[OF u], rule that) (auto simp: tok split: option.splits)
qed

lemma evolve_row: "jobs_evolve s t \<Longrightarrow> j \<in> set (jobs s) \<Longrightarrow> \<exists>k\<in>set (jobs t). row_evolves j k"
  unfolding jobs_evolve_def by blast

interpretation submission: one_shot sound_step submits submission_marked
proof
  fix k s t
  assume f: "submits k s t"
  then obtain clk token where inv: "jobs_inv s" and b: "begin_job_submission clk k token s = Inr t"
    by (auto simp: submits_def)
  from b obtain j where j: "j \<in> set (jobs s)" "j_id j = k" "j_submission_started_at j = None"
    "j\<lparr>j_submission_started_at := Some (tx_clock clk), j_updated_at := tx_now clk\<rparr> \<in> set (jobs t)"
    by (rule begin_Inr)
  show "\<not> submission_marked s k"
    using j inv unique_keyD[OF jobs_inv_unique[OF inv]] by (auto simp: submission_marked_def)
  show "submission_marked t k"
    unfolding submission_marked_def by (rule bexI[OF _ j(4)]) (simp add: j(2))
next
  fix k s t
  assume "sound_step s t" "submission_marked s k"
  then show "submission_marked t k"
    using store.step_evolves evolve_row
    unfolding sound_step_def submission_marked_def row_evolves_def kept_iff by metis
qed

section \<open>A small instance\<close>

definition ex_db :: db where
  "ex_db = empty_db\<lparr>users := [ex_owner]\<rparr>"

definition ex_params :: create_params where
  "ex_params = \<lparr>cp_public_id = ''job-0123456789abcdef'', cp_correlation_id = [], cp_user_id = 7,
     cp_username = ''ann'', cp_request_id = '' request-1 '', cp_parent_job_id = None\<rparr>"

text \<open>A prepared, reserved and published job under the lease of the token \<open>w1\<close>.\<close>

definition ex_leased_job :: job_row where
  "ex_leased_job =
     (params_job_row ex_now ex_params)
       \<lparr>j_id := 1, j_request_id := ''request-1'', j_correlation_id := ''job-0123456789abcdef'',
        j_state := WaitingForResources, j_payload_cipher := Some ''x'',
        j_quota_reserved_on := Some 20000, j_dispatch_queued_at := Some 1000000,
        j_dispatch_token := ''w1'', j_dispatch_until := Some 2000000\<rparr>"

definition ex_leased :: db where
  "ex_leased = ex_db\<lparr>jobs := [ex_leased_job], next_job_id := 2\<rparr>"

definition ex_submitted :: db where
  "ex_submitted =
     (case begin_job_submission ex_now 1 ''w1'' ex_leased of Inl e \<Rightarrow> ex_leased | Inr t \<Rightarrow> t)"

definition ex_fenced :: db where
  "ex_fenced =
     (case fence_resource_release ex_now 1 ''w1'' ex_leased of Inl e \<Rightarrow> ex_leased | Inr (b, t) \<Rightarrow> t)"

lemma ex_leased_inv: "jobs_inv ex_leased"
  by code_simp

lemma ex_submitted: "begin_job_submission ex_now 1 ''w1'' ex_leased = Inr ex_submitted"
proof -
  have "is_ok (begin_job_submission ex_now 1 ''w1'' ex_leased)" by code_simp
  then show ?thesis by (auto simp: ex_submitted_def is_ok_iff)
qed

lemma ex_fenced: "fence_resource_release ex_now 1 ''w1'' ex_leased = Inr (True, ex_fenced)"
proof -
  have "(case fence_resource_release ex_now 1 ''w1'' ex_leased of Inl e \<Rightarrow> False | Inr (b, t) \<Rightarrow> b)"
    by code_simp
  then show ?thesis by (auto simp: ex_fenced_def split: sum.splits)
qed

definition ex_trimmed :: create_params where
  "ex_trimmed = ex_params\<lparr>cp_correlation_id := ''job-0123456789abcdef'', cp_request_id := ''request-1''\<rparr>"

definition ex_row :: job_row where
  "ex_row = (params_job_row ex_now ex_trimmed)\<lparr>j_status_message := msg_created, j_id := 1\<rparr>"

lemma ex_trim: "trim_create_params ex_params = Inr ex_trimmed"
  by code_simp
lemma ex_row_ok: "job_row_ok ex_row" by code_simp
lemma ex_log_ok: "transition_row_ok (first_transition ex_now ex_row)" by code_simp

lemma ex_uid: "cp_user_id ex_trimmed = 7" "cp_parent_job_id ex_trimmed = None"
  by (simp_all add: ex_trimmed_def ex_params_def)

lemma ex_insert:
  "insert_job ((params_job_row ex_now ex_trimmed)\<lparr>j_status_message := msg_created\<rparr>) ex_db =
     Inr (Some (ex_row, ex_db\<lparr>jobs := [ex_row], next_job_id := 2\<rparr>))"
proof -
  have row: "(params_job_row ex_now ex_trimmed)\<lparr>j_status_message := msg_created, j_id := 1\<rparr> = ex_row"
    by (simp add: ex_row_def)
  have "j_user_id ex_row = Some 7" by (simp add: ex_row_def params_job_row_def ex_uid)
  moreover have "user_exists 7 ex_db"
    by (simp add: user_exists_def sql_exists_def ex_db_def ex_owner_def)
  moreover have "jobs ex_db = []" "next_job_id ex_db = 1" by (simp_all add: ex_db_def empty_db_def)
  ultimately show ?thesis using ex_row_ok by (simp add: insert_job_def row Let_def)
qed

lemma ex_record:
  "is_ok (record_created ex_now 7 ex_row (ex_db\<lparr>jobs := [ex_row], next_job_id := 2\<rparr>))"
  using ex_log_ok
  by (simp add: record_created_def append_transition_def bump_user_revision_def user_exists_def
      sql_exists_def ex_db_def ex_owner_def)

lemma ex_create:
  "\<exists>t. create_generation_job ex_now ex_params ex_db = Inr ((ex_row, True), t) \<and> ex_row \<in> set (jobs t)"
proof -
  from ex_record obtain t where t: "record_created ex_now 7 ex_row (ex_db\<lparr>jobs := [ex_row], next_job_id := 2\<rparr>) = Inr t"
    by (auto simp: is_ok_iff)
  have "same_jobs (ex_db\<lparr>jobs := [ex_row], next_job_id := 2\<rparr>) t"
    using t by (auto simp: record_created_def res_bind_Inr append_transition_def bump_user_revision_def bump_job_revision_def same_jobs_def split: if_splits)
  then have "ex_row \<in> set (jobs t)" by (simp add: same_jobs_def)
  with t show ?thesis by (simp add: create_generation_job_def ex_trim ex_uid ex_insert)
qed
lemma ex_created_run:
  "\<exists>t. steps store_step ex_db t \<and> ex_row \<in> set (jobs t)"
  using ex_create by (blast intro: steps_one st_create)

lemma ex_db_empty: "jobs ex_db = []"
  by (simp add: ex_db_def empty_db_def)

section \<open>Properties of runs\<close>

lemma sound_run: "steps store_step s t \<Longrightarrow> jobs_inv s \<Longrightarrow> steps sound_step s t \<and> jobs_inv t"
proof (induction rule: steps.induct)
  case (steps_snoc s t u)
  then show ?case
    using store.step_inv by (auto simp: sound_step_def intro: steps.steps_snoc)
qed simp

text \<open>C1: A job is submitted to the executor at most once.  Once the marker that precedes the
  network call has been written for a job, no operation in any later run of the store writes
  it again: not after the lease ran out and another worker claimed, not after a restart, a
  refusal or a new claim of the same request.\<close>

theorem submitted_at_most_once:
  assumes "jobs_inv s" and "begin_job_submission clk jid token s = Inr t"
    and "steps store_step t u"
  shows "\<not> is_ok (begin_job_submission clk' jid token' u)"
proof
  assume "is_ok (begin_job_submission clk' jid token' u)"
  then obtain v where v: "begin_job_submission clk' jid token' u = Inr v" by (auto simp: is_ok_iff)
  have "jobs_inv t" using store.step_inv st_begin assms(1,2) by blast
  with assms(3) have run: "steps sound_step t u" and inv: "jobs_inv u" by (auto dest: sound_run)
  have "submits jid s t" using assms(1,2) by (auto simp: submits_def)
  moreover have "submits jid u v" using inv v by (auto simp: submits_def)
  ultimately show False using submission.at_most_once run by blast
qed

text \<open>C15: After the fence closed a job, whatever happens next, no worker claims the job again and
  no worker can begin its submission: releasing the job's resources never races with a call
  to the executor.\<close>

theorem fenced_job_never_dispatched:
  assumes "jobs_inv s" and "fence_resource_release clk jid token s = Inr (True, t)"
    and "steps store_step t u"
  shows "\<not> is_ok (begin_job_submission clk' jid token' u) \<and>
     (\<forall>k v. claim_next_dispatch clk' locked token' n u = Inr (k, v) \<longrightarrow> j_id k \<noteq> jid)"
proof -
  have "jobs_inv t" using store.step_inv st_fence assms(1,2) by blast
  with assms(3) have inv: "jobs_inv u" and ev: "jobs_evolve t u"
    using store.run_inv store.run_evolves by blast+
  from assms(2) obtain P x where up: "update_job P
        (\<lambda>j. j\<lparr>j_dispatch_closed_at :=
                  (case j_dispatch_closed_at j of None \<Rightarrow> Some (tx_clock clk) | Some c \<Rightarrow> Some c),
               j_dispatch_until := Some (tx_clock clk), j_dispatch_queued_at := None,
               j_dispatch_token := []\<rparr>) s = Inr (x, t)" and P: "\<And>j. P j \<Longrightarrow> j_id j = jid"
    by (auto simp: fence_resource_release_def split: sum.splits if_splits)
  obtain j where "x \<in> set (jobs t)" "j_id x = jid" "j_dispatch_closed_at x \<noteq> None"
    by (rule update_job_row[OF up]) (use P that in \<open>auto split: option.splits\<close>)
  with ev obtain k where k: "k \<in> set (jobs u)" "j_id k = jid" "j_dispatch_closed_at k \<noteq> None"
    unfolding jobs_evolve_def row_evolves_def kept_iff by metis
  have closed: "j_dispatch_closed_at q \<noteq> None" if "q \<in> set (jobs u)" "j_id q = jid" for q
    using k that unique_keyD[OF jobs_inv_unique[OF inv]] by metis
  have "\<not> is_ok (begin_job_submission clk' jid token' u)"
  proof
    assume "is_ok (begin_job_submission clk' jid token' u)"
    then obtain v where "begin_job_submission clk' jid token' u = Inr v" by (auto simp: is_ok_iff)
    then obtain q where "q \<in> set (jobs u)" "j_id q = jid" "j_dispatch_closed_at q = None"
      by (rule begin_Inr)
    with closed show False by blast
  qed
  moreover have "j_id q \<noteq> jid" if "claim_next_dispatch clk' locked token' n u = Inr (q, v)" for q v
  proof -
    from that obtain c s1 where c: "next_dispatch clk' locked (clamp_batches n) u = Some c"
      and up: "update_job (\<lambda>j. j_id j = j_id c) (set_claim clk' token') u = Inr (q, s1)"
      unfolding claim_next_Inr by blast
    from up have "j_id q = j_id c" by (auto elim!: update_job_row simp: set_claim_def)
    moreover have "c \<in> set (jobs u)" "j_dispatch_closed_at c = None"
      using next_dispatch_candidate[OF c] candidate_open by blast+
    ultimately show ?thesis using closed by metis
  qed
  ultimately show ?thesis by blast
qed


text \<open>C11: Every job the store can ever hold is in order: a finished job has given its resources
  back and has a finish time, an unfinished one has none; a job that is queued or further has
  the executor's prompt; a failed one carries a code and a message and no other one carries
  an error; committed quota was reserved; a confirmed cancellation was requested; a fenced
  job has neither token nor place in the queue, and its submission is not in doubt.\<close>

theorem reachable_jobs_in_order:
  assumes "jobs s0 = []" and "steps store_step s0 s" and "j \<in> set (jobs s)"
  shows "job_inv j \<and> (\<forall>k\<in>set (jobs s). j_id k = j_id j \<longrightarrow> k = j)"
proof -
  have inv: "jobs_inv s" using store.reachable_inv assms(1,2) by (auto simp: no_jobs_def)
  with assms(3) show ?thesis
    using jobs_invD[OF inv assms(3)] unique_keyD[OF jobs_inv_unique[OF inv]] by blast
qed

lemma submitted_at_most_once_witness:
  "\<not> is_ok (begin_job_submission ex_now 1 ''w1'' ex_submitted)"
  by (rule submitted_at_most_once[OF ex_leased_inv ex_submitted steps_refl])

lemma fenced_job_never_dispatched_witness:
  "\<not> is_ok (begin_job_submission ex_now 1 ''w1'' ex_fenced)"
  using fenced_job_never_dispatched[OF ex_leased_inv ex_fenced steps_refl] by blast


lemma reachable_jobs_in_order_witness:
  "\<exists>t. steps store_step ex_db t \<and> ex_row \<in> set (jobs t) \<and> job_inv ex_row"
  using ex_created_run reachable_jobs_in_order[OF ex_db_empty] by blast

end
