(* ===== verification/QuotaRuns.thy ===== *)
theory QuotaRuns
  imports StoreRuns
begin

text \<open>
  Quota over runs of the store: the counters of a user less what the user's jobs hold stay
  the same whatever the operations do, and no reservation passes a limit.
\<close>

section \<open>Operations that leave quota alone\<close>

definition quota_frame :: "db \<Rightarrow> db \<Rightarrow> bool" where
  "quota_frame s t \<longleftrightarrow> users t = users s \<and> usage t = usage s \<and>
     (\<forall>uid k day. sql_count (holds uid k) (jobs t) = sql_count (holds uid k) (jobs s) \<and>
        sql_count (holds_on uid k day) (jobs t) = sql_count (holds_on uid k day) (jobs s))"

lemma quota_frame_refl [simp]: "quota_frame s s"
  by (simp add: quota_frame_def)


























section \<open>Preparation\<close>



section \<open>Runs\<close>















section \<open>Properties\<close>







text \<open>C18: Quota is charged once and kept once committed.  Repeating a reservation returns the first
  one and changes nothing, whatever the clock says; and after the reservation was committed no
  later release refunds it, in any run of the store.\<close>

theorem quota_charged_once:
  assumes inv: "jobs_inv s" and res: "reserve_for_job clk jid uid s = Inr ((rv, new), t)"
    and before: "steps store_step t u" and com: "commit_for_job clk' jid u = Inr (b, v)"
    and run: "steps store_step v w"
  shows "reserve_for_job clk'' jid uid t = Inr ((rv, False), t) \<and>
     release_for_job clk'' jid w = Inr (False, w)"
proof
  show "reserve_for_job clk'' jid uid t = Inr ((rv, False), t)"
    using res
  proof (cases rule: reserve_Inr)
    case (again j day)
    with res show ?thesis by (auto simp: reserve_for_job_def Let_def)
  next
    case (charged j u s1 r s2)
    have j: "j \<in> set (jobs s)" "j_id j = jid" "j_user_id j = Some uid"
      using sql_find_Some[OF charged(1)] by auto
    have fr: "same_jobs s s1" using charge_frame[OF charged(9)] by blast
    have inv1: "jobs_inv s1" using fr inv same_jobs_inv by blast
    from update_job_row[OF charged(10)] obtain q where q: "q \<in> set (jobs s1)" "j_id q = jid"
      "r = set_reserved clk (Some (msk_day clk)) q" "r \<in> set (jobs s2)" by blast
    have "q = j"
      using q j fr unique_keyD[OF jobs_inv_unique[OF inv]] by (auto simp: same_jobs_def)
    have "jobs_inv t" using inv reserve_safe[OF res] by (simp add: safe_step_def)
    have f: "sql_find (\<lambda>j. j_id j = jid \<and> j_user_id j = Some uid) (jobs t) = Some r"
    proof (cases "sql_find (\<lambda>j. j_id j = jid \<and> j_user_id j = Some uid) (jobs t)")
      case None
      with q j \<open>q = j\<close> show ?thesis by (auto simp: sql_find_None charged(12))
    next
      case (Some x)
      with sql_find_Some[OF Some] q \<open>q = j\<close> j unique_keyD[OF jobs_inv_unique[OF \<open>jobs_inv t\<close>], of x r]
      show ?thesis by (simp add: charged(12))
    qed
    show ?thesis
      by (simp add: reserve_for_job_def f q(3) \<open>q = j\<close> charged(6))
  qed
  have "jobs_inv t" using inv reserve_safe[OF res] by (simp add: safe_step_def)
  then have u: "jobs_inv u" using store.run_inv before by blast
  from com obtain j where j: "sql_find (\<lambda>j. j_id j = jid) (jobs u) = Some j"
    by (auto simp: commit_for_job_def split: option.splits)
  have "\<exists>k\<in>set (jobs v). j_id k = jid \<and> j_quota_committed_at k \<noteq> None"
  proof (cases "j_quota_committed_at j")
    case (Some x)
    with com j sql_find_Some[OF j] show ?thesis by (auto simp: commit_for_job_def)
  next
    case None
    with com j obtain r s1 where
      up: "update_job (\<lambda>r. j_id r = jid) (\<lambda>r. r\<lparr>j_quota_committed_at := Some (tx_now clk'),
            j_updated_at := tx_now clk'\<rparr>) u = Inr (r, s1)" and v: "v = bump_job_revision s1"
      by (auto simp: commit_for_job_def res_bind_Inr split: if_splits)
    show ?thesis by (rule update_job_row[OF up], rule bexI[of _ r]) (simp_all add: v)
  qed
  then obtain k where k: "k \<in> set (jobs v)" "j_id k = jid" "j_quota_committed_at k \<noteq> None" by blast
  have "jobs_inv v" using u commit_safe[OF com] by (simp add: safe_step_def)
  then have invw: "jobs_inv w" and "jobs_evolve v w"
    using store.run_inv store.run_evolves run by blast+
  with k obtain q where q: "q \<in> set (jobs w)" "j_id q = jid" "j_quota_committed_at q \<noteq> None"
    unfolding jobs_evolve_def row_evolves_def kept_iff by metis
  have "sql_find (\<lambda>j. j_id j = jid) (jobs w) = Some q"
    using sql_find_by_key[OF jobs_inv_unique[OF invw] q(1)] q(2) by simp
  with q show "release_for_job clk'' jid w = Inr (False, w)"
    by (auto simp: release_for_job_def split: option.splits)
qed

definition ex_bound :: db where
  "ex_bound = ex_db\<lparr>jobs := [ex_leased_job\<lparr>j_prompt_id := Some ''p''\<rparr>], next_job_id := 2\<rparr>"

definition ex_committed :: db where
  "ex_committed = (case commit_for_job ex_now 1 ex_bound of Inl e \<Rightarrow> ex_bound | Inr (b, t) \<Rightarrow> t)"

lemma quota_charged_once_witness:
  "release_for_job ex_now 1 ex_committed = Inr (False, ex_committed)"
proof -
  have inv: "jobs_inv ex_bound" by code_simp
  have "reserve_for_job ex_now 1 7 ex_bound =
          Inr ((\<lparr>rv_user_id = 7, rv_date = 20000, rv_kind = ImageQuota\<rparr>, False), ex_bound)"
    by (simp add: reserve_for_job_def ex_bound_def ex_leased_job_def sql_find_def params_job_row_def
        default_job_row_def ex_params_def quick_generation_quota_kind_def)
  moreover have "is_ok (commit_for_job ex_now 1 ex_bound)" by code_simp
  then obtain b where "commit_for_job ex_now 1 ex_bound = Inr (b, ex_committed)"
    by (cases "commit_for_job ex_now 1 ex_bound") (auto simp: ex_committed_def)
  ultimately show ?thesis
    using quota_charged_once[OF inv _ steps_refl _ steps_refl] by blast
qed

end
