(* ===== verification/JobContracts.thy ===== *)
theory JobContracts
  imports QuotaRuns
begin

text \<open>
  What single operations of the store promise: the state transition with its log, the
  idempotent claim of a browser request, the order and the limits of the dispatch queue, the
  all-or-nothing creation of a batch.
\<close>

section \<open>The state transition\<close>

lemma jobs_after_update_by_id:
  assumes inv: "jobs_inv s" and upd: "update_job (\<lambda>j. j_id j = jid) f s = Inr (k, t)"
    and cur: "load_job (\<lambda>j. j_id j = jid) s = Inr cur"
  shows "k = f cur" "jobs t = sql_update (\<lambda>j. j_id j = jid) f (jobs s)"
    and "\<And>j. j \<in> set (jobs s) \<Longrightarrow> j_id j \<noteq> jid \<Longrightarrow> j \<in> set (jobs t)"
    and "f cur \<in> set (jobs t)"
proof -
  from upd obtain j where j: "sql_find (\<lambda>j. j_id j = jid) (jobs s) = Some j" "k = f j"
    and t: "jobs t = sql_update (\<lambda>j. j_id j = jid) f (jobs s)"
    by (auto simp: update_job_Inr)
  from cur j(1) have "j = cur" by (simp add: load_job_Inr)
  with j show "k = f cur" by simp
  show "jobs t = sql_update (\<lambda>j. j_id j = jid) f (jobs s)" by (rule t)
  show "j \<in> set (jobs t)" if "j \<in> set (jobs s)" "j_id j \<noteq> jid" for j
    using that by (auto simp: t set_sql_update)
  show "f cur \<in> set (jobs t)"
    using sql_find_Some[OF j(1)] \<open>j = cur\<close> by (auto simp: t set_sql_update)
qed

lemma record_transition_log:
  "record_transition clk cur k s = Inr t \<Longrightarrow>
     transitions t = transitions s @ [logged_transition clk cur k] \<and> jobs t = jobs s"
  by (auto simp: record_transition_def res_bind_Inr append_transition_def
      create_job_notification_def Let_def bump_job_revision_def bump_user_revision_def
      split: if_splits option.splits elim!: bump_owner_revision.elims)

text \<open>C20: A transition that commits and changes the state followed the transition table to the
  state asked for; it reached a final state only with the resources released, and the queue
  only with a prompt; it wrote exactly one log entry, from the old state to the new one with
  the elapsed time; and it left every other job alone.\<close>

theorem transition_is_checked_and_logged:
  assumes inv: "jobs_inv s" and cur: "load_job (\<lambda>j. j_id j = jid) s = Inr cur"
    and op: "transition_generation_job clk jid params s = Inr ((k, True), t)"
    and moved: "j_state k \<noteq> j_state cur"
  shows "can_transition (j_state cur) (tp_state params) \<and> j_state k = tp_state params \<and>
     k \<in> set (jobs t) \<and> j_id k = jid \<and>
     (terminal (j_state k) \<longrightarrow> j_resources_released_at cur \<noteq> None) \<and>
     (j_state k = Queued \<longrightarrow> j_prompt_id cur \<noteq> None) \<and>
     (\<exists>e. transitions t = transitions s @ [e] \<and> t_job_id e = jid \<and>
        t_from e = Some (j_state cur) \<and> t_to e = j_state k \<and> 0 \<le> t_duration_ms e) \<and>
     (\<forall>j\<in>set (jobs s). j_id j \<noteq> jid \<longrightarrow> j \<in> set (jobs t))"
proof -
  from op cur obtain p a where p: "trim_transition_params params = Inr p"
    and ap: "apply_transition clk jid cur p a s = Inr ((k, True), t)"
    unfolding transition_generation_job_Inr by auto
  have sp: "tp_state p = tp_state params" using trim_transition_paramsD[OF p] by simp
  have cid: "j_id cur = jid" using load_job_in[OF cur] by simp
  show ?thesis
  proof (cases "j_state cur = tp_state p")
    case True
    with ap obtain s1 where u: "update_job (\<lambda>j. j_id j = jid) (set_status clk p a) s = Inr (k, s1)"
      unfolding apply_transition_Inr by (auto split: if_split_asm)
    have "j_state k = j_state cur"
      using jobs_after_update_by_id(1)[OF inv u cur] by (simp add: set_status_def)
    with moved show ?thesis by simp
  next
    case False
    with ap obtain s1 where ct: "can_transition (j_state cur) (tp_state p)"
      and q: "tp_state p = Queued \<longrightarrow> go_string (j_prompt_id cur) \<noteq> []"
      and rel: "terminal (tp_state p) \<longrightarrow> j_resources_released_at cur \<noteq> None"
      and u: "update_job (\<lambda>j. j_id j = jid) (set_transition clk p a) s = Inr (k, s1)"
      and r: "record_transition clk cur k s1 = Inr t"
      unfolding apply_transition_Inr by (auto split: if_split_asm)
    note upd = jobs_after_update_by_id[OF inv u cur]
    have k: "j_state k = tp_state p" "j_id k = jid"
      by (simp_all add: upd(1) set_transition_def cid)
    have "transitions s1 = transitions s" using u by (auto simp: update_job_Inr)
    with record_transition_log[OF r]
    have log: "transitions t = transitions s @ [logged_transition clk cur k]" and jt: "jobs t = jobs s1"
      by simp_all
    have "t_job_id (logged_transition clk cur k) = jid \<and>
        t_from (logged_transition clk cur k) = Some (j_state cur) \<and>
        t_to (logged_transition clk cur k) = j_state k \<and>
        0 \<le> t_duration_ms (logged_transition clk cur k)"
      by (simp add: logged_transition_def k since_ms_nonneg)
    with log have "\<exists>e. transitions t = transitions s @ [e] \<and> t_job_id e = jid \<and>
        t_from e = Some (j_state cur) \<and> t_to e = j_state k \<and> 0 \<le> t_duration_ms e" by blast
    moreover have "k \<in> set (jobs t)" using upd(1,4) jt by simp
    moreover have "\<forall>j\<in>set (jobs s). j_id j \<noteq> jid \<longrightarrow> j \<in> set (jobs t)" using upd(3) jt by simp
    ultimately show ?thesis
      using ct q rel k sp go_string_None by (auto split: if_splits)
  qed
qed

definition ex_cancelled_params :: transition_params where
  "ex_cancelled_params = \<lparr>tp_state = Cancelled, tp_message = ''stop'', tp_error_code = [],
     tp_error_message = [], tp_attempt = 0\<rparr>"

definition ex_releasable :: db where
  "ex_releasable =
     ex_db\<lparr>jobs := [ex_leased_job\<lparr>j_resources_released_at := Some 1000000\<rparr>], next_job_id := 2\<rparr>"

lemma transition_is_checked_and_logged_witness:
  "\<exists>k t. transition_generation_job ex_now 1 ex_cancelled_params ex_releasable = Inr ((k, True), t) \<and>
     (\<exists>e. transitions t = [e] \<and> t_from e = Some WaitingForResources \<and> t_to e = Cancelled)"
proof -
  have inv: "jobs_inv ex_releasable" by code_simp
  have cur: "load_job (\<lambda>j. j_id j = 1) ex_releasable =
      Inr (ex_leased_job\<lparr>j_resources_released_at := Some 1000000\<rparr>)"
    by (simp add: load_job_def ex_releasable_def sql_find_def scan_job_def ex_leased_job_def)
  have "(case transition_generation_job ex_now 1 ex_cancelled_params ex_releasable of
           Inl e \<Rightarrow> False | Inr ((k, c), t) \<Rightarrow> c \<and> j_state k = Cancelled)" by code_simp
  then obtain k t where op: "transition_generation_job ex_now 1 ex_cancelled_params ex_releasable =
      Inr ((k, True), t)" and k: "j_state k = Cancelled" by (auto split: sum.splits)
  have "transitions ex_releasable = []" by (simp add: ex_releasable_def ex_db_def empty_db_def)
  with transition_is_checked_and_logged[OF inv cur op] k op show ?thesis
    by (auto simp: ex_leased_job_def)
qed

end
