(* ===== verification/LoginLimiter.thy ===== *)
theory LoginLimiter
  imports Contracts "HOL-Library.AList"
begin

text \<open>
  The failure limiter of \<open>internal/security/limiter.go\<close>, which the gateway keeps per account
  name, per address, for invitations and for prompts.  The mutex makes every method one step,
  so the methods are functions on the limiter; \<open>now\<close> is what \<open>time.Now\<close> returned, in
  nanoseconds.  The Go map is an association list with distinct keys: no method depends on
  the order in which a map is visited.
\<close>

section \<open>State and methods\<close>

record limiter =
  lim_failures :: "(string \<times> int list) list"
  lim_window :: int
  lim_limit :: int
  lim_max_keys :: int
  lim_overflow :: "int list"
  lim_overflow_limit :: int
  lim_last_sweep :: int

definition limiter_overflow_window :: int where
  "limiter_overflow_window = minute_ns"

definition new_login_limiter :: "int \<Rightarrow> int \<Rightarrow> int \<Rightarrow> limiter" where
  "new_login_limiter now window limit =
     \<lparr>lim_failures = [],
      lim_window = (if window \<le> 0 then 10 * minute_ns else window),
      lim_limit = (if limit \<le> 0 then 10 else limit),
      lim_max_keys = 10000, lim_overflow = [], lim_overflow_limit = 1000,
      lim_last_sweep = now\<rparr>"

definition after_cutoff :: "int \<Rightarrow> int list \<Rightarrow> int list" where
  "after_cutoff cutoff ts = filter (\<lambda>t. cutoff < t) ts"

definition failures_of :: "string \<Rightarrow> limiter \<Rightarrow> int list" where
  "failures_of key l = (case map_of (lim_failures l) key of None \<Rightarrow> [] | Some ts \<Rightarrow> ts)"

definition tracked :: "string \<Rightarrow> limiter \<Rightarrow> bool" where
  "tracked key l = (map_of (lim_failures l) key \<noteq> None)"

definition limiter_full :: "limiter \<Rightarrow> bool" where
  "limiter_full l = (lim_max_keys l \<le> int (length (lim_failures l)))"

definition sweep_overflow :: "int \<Rightarrow> limiter \<Rightarrow> limiter" where
  "sweep_overflow now l =
     l\<lparr>lim_overflow := after_cutoff (now - limiter_overflow_window) (lim_overflow l)\<rparr>"

definition keep_recent :: "int \<Rightarrow> (string \<times> int list) list \<Rightarrow> (string \<times> int list) list" where
  "keep_recent cutoff fs =
     filter (\<lambda>(k, ts). ts \<noteq> []) (map (\<lambda>(k, ts). (k, after_cutoff cutoff ts)) fs)"

definition sweep :: "int \<Rightarrow> limiter \<Rightarrow> limiter" where
  "sweep now l =
     (let l1 = sweep_overflow now l
      in if now - lim_last_sweep l1 < minute_ns then l1
         else l1\<lparr>lim_failures := keep_recent (now - lim_window l1) (lim_failures l1),
                 lim_last_sweep := now\<rparr>)"

definition set_failures :: "string \<Rightarrow> int list \<Rightarrow> limiter \<Rightarrow> limiter" where
  "set_failures key ts l = l\<lparr>lim_failures := AList.update key ts (lim_failures l)\<rparr>"

definition clear_key :: "string \<Rightarrow> limiter \<Rightarrow> limiter" where
  "clear_key key l = l\<lparr>lim_failures := AList.delete key (lim_failures l)\<rparr>"

definition allow :: "int \<Rightarrow> string \<Rightarrow> limiter \<Rightarrow> bool \<times> limiter" where
  "allow now key l0 =
     (let l = sweep now l0
      in if \<not> tracked key l \<and> limiter_full l
         then let l1 = sweep_overflow now l
              in (int (length (lim_overflow l1)) < lim_overflow_limit l1, l1)
         else let recent = after_cutoff (now - lim_window l) (failures_of key l)
              in (int (length recent) < lim_limit l,
                  if recent = [] then clear_key key l else set_failures key recent l))"

definition record_failure :: "int \<Rightarrow> string \<Rightarrow> limiter \<Rightarrow> limiter" where
  "record_failure now key l0 =
     (let l = sweep now l0
      in if \<not> tracked key l \<and> limiter_full l
         then let l1 = sweep_overflow now l
              in if int (length (lim_overflow l1)) < lim_overflow_limit l1
                 then l1\<lparr>lim_overflow := lim_overflow l1 @ [now]\<rparr> else l1
         else set_failures key (failures_of key l @ [now]) l)"

section \<open>Runs of a limiter\<close>

datatype limiter_call = CallAllow string | CallFailure string | CallClear string

fun call_key :: "limiter_call \<Rightarrow> string" where
  "call_key (CallAllow k) = k"
| "call_key (CallFailure k) = k"
| "call_key (CallClear k) = k"

text \<open>A call with the time at which it is served; only \<open>Allow\<close> has an answer.\<close>

fun limiter_serve :: "int \<times> limiter_call \<Rightarrow> limiter \<Rightarrow> bool option \<times> limiter" where
  "limiter_serve (now, CallAllow k) l = (let (ok, l1) = allow now k l in (Some ok, l1))"
| "limiter_serve (now, CallFailure k) l = (None, record_failure now k l)"
| "limiter_serve (now, CallClear k) l = (None, clear_key k l)"

text \<open>
  The specification keeps every failure with its key and time, forgets nothing by itself,
  and answers by counting.
\<close>

fun window_serve :: "int \<Rightarrow> int \<Rightarrow> int \<times> limiter_call \<Rightarrow> (string \<times> int) list
    \<Rightarrow> bool option \<times> (string \<times> int) list" where
  "window_serve window limit (now, CallAllow k) g =
     (Some (int (length (filter (\<lambda>(k', t). k' = k \<and> now - window < t) g)) < limit), g)"
| "window_serve window limit (now, CallFailure k) g = (None, g @ [(k, now)])"
| "window_serve window limit (now, CallClear k) g = (None, filter (\<lambda>(k', t). k' \<noteq> k) g)"

section \<open>What the methods do to the stored failures\<close>

named_theorems limiter_simps

lemma after_cutoff_twice [limiter_simps]:
  "c \<le> d \<Longrightarrow> after_cutoff d (after_cutoff c ts) = after_cutoff d ts"
  unfolding after_cutoff_def by (induction ts) auto

lemma after_cutoff_append [limiter_simps]:
  "after_cutoff c (ts @ us) = after_cutoff c ts @ after_cutoff c us"
  by (simp add: after_cutoff_def)

lemma after_cutoff_Nil [simp]: "after_cutoff c [] = []"
  by (simp add: after_cutoff_def)

lemma after_cutoff_mono: "c \<le> d \<Longrightarrow> length (after_cutoff d ts) \<le> length (after_cutoff c ts)"
  unfolding after_cutoff_def by (induction ts) auto

lemma map_of_keep_recent:
  "distinct (map fst fs) \<Longrightarrow> map_of (keep_recent c fs) k =
     (case map_of fs k of None \<Rightarrow> None
      | Some ts \<Rightarrow> if after_cutoff c ts = [] then None else Some (after_cutoff c ts))"
proof (induction fs)
  case Nil
  show ?case by (simp add: keep_recent_def)
next
  case (Cons x fs)
  obtain k' ts where x: "x = (k', ts)" by force
  have "map_of fs k' = None" using Cons.prems x by (simp add: map_of_eq_None_iff)
  moreover have "keep_recent c (x # fs) =
     (if after_cutoff c ts = [] then keep_recent c fs else (k', after_cutoff c ts) # keep_recent c fs)"
    by (simp add: keep_recent_def x)
  ultimately show ?case using Cons x by auto
qed

lemma keep_recent_keys: "set (map fst (keep_recent c fs)) \<subseteq> set (map fst fs)"
  by (force simp: keep_recent_def)

lemma keep_recent_distinct: "distinct (map fst fs) \<Longrightarrow> distinct (map fst (keep_recent c fs))"
proof (induction fs)
  case Nil
  show ?case by (simp add: keep_recent_def)
next
  case (Cons x fs)
  moreover have "keep_recent c (x # fs) = (if after_cutoff c (snd x) = [] then keep_recent c fs
     else (fst x, after_cutoff c (snd x)) # keep_recent c fs)"
    by (simp add: keep_recent_def case_prod_beta)
  ultimately show ?case using keep_recent_keys[of c fs] by auto
qed

lemma keep_recent_nonempty: "(k, ts) \<in> set (keep_recent c fs) \<Longrightarrow> ts \<noteq> []"
  by (auto simp: keep_recent_def)

lemma keep_recent_length: "length (keep_recent c fs) \<le> length fs"
  unfolding keep_recent_def by (metis length_filter_le length_map)

section \<open>Invariant\<close>

definition limiter_inv :: "limiter \<Rightarrow> bool" where
  "limiter_inv l \<longleftrightarrow> distinct (map fst (lim_failures l)) \<and>
     int (length (lim_failures l)) \<le> lim_max_keys l \<and>
     int (length (lim_overflow l)) \<le> lim_overflow_limit l \<and>
     (\<forall>(k, ts) \<in> set (lim_failures l). ts \<noteq> [])"

lemma new_limiter_inv: "limiter_inv (new_login_limiter now window limit)"
  by (simp add: limiter_inv_def new_login_limiter_def)

lemma after_cutoff_length: "length (after_cutoff c ts) \<le> length ts"
  by (simp add: after_cutoff_def)

lemma sweep_overflow_inv: "limiter_inv l \<Longrightarrow> limiter_inv (sweep_overflow now l)"
  using after_cutoff_length[of "now - limiter_overflow_window" "lim_overflow l"]
  by (auto simp: limiter_inv_def sweep_overflow_def)

lemma sweep_inv: "limiter_inv l \<Longrightarrow> limiter_inv (sweep now l)"
  using sweep_overflow_inv[of l now] keep_recent_length[of "now - lim_window l" "lim_failures l"]
  by (auto simp: limiter_inv_def sweep_def Let_def sweep_overflow_def keep_recent_distinct
      dest: keep_recent_nonempty)

lemma delete_entry: "x \<in> set (AList.delete k al) \<Longrightarrow> x \<in> set al"
  by (simp add: AList.delete_eq)

lemma clear_key_inv: "limiter_inv l \<Longrightarrow> limiter_inv (clear_key k l)"
  using AList.length_delete_le[of k "lim_failures l"] AList.distinct_delete[of "lim_failures l" k]
  by (auto simp: limiter_inv_def clear_key_def dest: delete_entry)

lemma update_length:
  "length (AList.update k v al) = (if k \<in> fst ` set al then length al else Suc (length al))"
  by (induction al) auto

lemma update_entry: "(k', v') \<in> set (AList.update k v al) \<Longrightarrow> k' = k \<and> v' = v \<or> (k', v') \<in> set al"
  by (induction al) (auto split: if_splits)

lemma tracked_key: "tracked k l \<longleftrightarrow> k \<in> fst ` set (lim_failures l)"
  by (simp add: tracked_def map_of_eq_None_iff)

lemma set_failures_inv:
  assumes "limiter_inv l" and "ts \<noteq> []" and "tracked k l \<or> \<not> limiter_full l"
  shows "limiter_inv (set_failures k ts l)"
  using assms unfolding limiter_inv_def set_failures_def tracked_key limiter_full_def
  by (auto simp: update_length AList.distinct_update dest!: update_entry)

lemma allow_inv: "limiter_inv l \<Longrightarrow> limiter_inv (snd (allow now k l))"
  using sweep_inv[of l now]
  by (auto simp: allow_def Let_def intro: sweep_overflow_inv clear_key_inv set_failures_inv)

lemma overflow_append_inv:
  "limiter_inv l \<Longrightarrow> int (length (lim_overflow l)) < lim_overflow_limit l
     \<Longrightarrow> limiter_inv (l\<lparr>lim_overflow := lim_overflow l @ [now]\<rparr>)"
  by (auto simp: limiter_inv_def)

lemma record_failure_inv: "limiter_inv l \<Longrightarrow> limiter_inv (record_failure now k l)"
  using sweep_inv[of l now] unfolding record_failure_def Let_def
  by (auto intro!: overflow_append_inv intro: sweep_overflow_inv set_failures_inv)

lemma limiter_serve_inv: "limiter_inv l \<Longrightarrow> limiter_inv (snd (limiter_serve x l))"
  by (cases "(x, l)" rule: limiter_serve.cases)
     (auto simp: Let_def split: prod.split intro: record_failure_inv clear_key_inv
       dest: allow_inv[of l "fst x" "call_key (snd x)"])

section \<open>Fixed settings\<close>

definition same_settings :: "limiter \<Rightarrow> limiter \<Rightarrow> bool" where
  "same_settings l m \<longleftrightarrow> lim_window m = lim_window l \<and> lim_limit m = lim_limit l \<and>
     lim_max_keys m = lim_max_keys l \<and> lim_overflow_limit m = lim_overflow_limit l"

lemma sweep_settings [simp]:
  "lim_window (sweep now l) = lim_window l" "lim_limit (sweep now l) = lim_limit l"
  "lim_max_keys (sweep now l) = lim_max_keys l"
  "lim_overflow_limit (sweep now l) = lim_overflow_limit l"
  by (simp_all add: sweep_def sweep_overflow_def Let_def)

lemma limiter_serve_settings: "same_settings l (snd (limiter_serve x l))"
  by (cases "(x, l)" rule: limiter_serve.cases)
     (auto simp: same_settings_def allow_def record_failure_def set_failures_def clear_key_def
       sweep_overflow_def Let_def)

section \<open>The limiter counts like its specification\<close>

text \<open>
  While every call still to come is later and the keys that can occur fit into the table,
  the stored failures and the log of the specification agree on what lies in the window of
  any later call.
\<close>

definition logged :: "string \<Rightarrow> (string \<times> int) list \<Rightarrow> int list" where
  "logged k g = map snd (filter (\<lambda>(k', t). k' = k) g)"

definition agrees :: "int \<Rightarrow> limiter \<Rightarrow> (string \<times> int) list \<Rightarrow> bool" where
  "agrees now l g \<longleftrightarrow> (\<forall>k. after_cutoff (now - lim_window l) (failures_of k l) =
     after_cutoff (now - lim_window l) (logged k g))"

definition keys_fit :: "(int \<times> limiter_call) list \<Rightarrow> limiter \<Rightarrow> bool" where
  "keys_fit xs l \<longleftrightarrow> int (card (fst ` set (lim_failures l) \<union> (call_key \<circ> snd) ` set xs)) \<le> lim_max_keys l"

definition counts_like ::
  "int \<Rightarrow> int \<Rightarrow> (int \<times> limiter_call) list \<Rightarrow> limiter \<Rightarrow> (string \<times> int) list \<Rightarrow> bool" where
  "counts_like window limit xs l g \<longleftrightarrow> limiter_inv l \<and> lim_window l = window \<and> lim_limit l = limit \<and>
     sorted (map fst xs) \<and> keys_fit xs l \<and> (xs \<noteq> [] \<longrightarrow> agrees (fst (hd xs)) l g)"

lemma agrees_later: "agrees now l g \<Longrightarrow> now \<le> later \<Longrightarrow> agrees later l g"
  unfolding agrees_def using after_cutoff_twice[of "now - lim_window l" "later - lim_window l"]
  by (metis diff_right_mono)

lemma failures_of_set [simp]:
  "failures_of k (set_failures k' ts l) = (if k = k' then ts else failures_of k l)"
  by (simp add: failures_of_def set_failures_def AList.update_conv')

lemma failures_of_clear [simp]:
  "failures_of k (clear_key k' l) = (if k = k' then [] else failures_of k l)"
  by (simp add: failures_of_def clear_key_def AList.delete_conv')

lemma failures_of_overflow [simp]:
  "failures_of k (sweep_overflow now l) = failures_of k l"
  by (simp add: failures_of_def sweep_overflow_def)

lemma failures_of_overflow_upd [simp]:
  "failures_of k (l\<lparr>lim_overflow := ts\<rparr>) = failures_of k l"
  by (simp add: failures_of_def)

lemma failures_of_sweep:
  "limiter_inv l \<Longrightarrow> after_cutoff (now - lim_window l) (failures_of k (sweep now l)) =
     after_cutoff (now - lim_window l) (failures_of k l)"
  by (auto simp: sweep_def Let_def failures_of_def sweep_overflow_def map_of_keep_recent
      limiter_inv_def after_cutoff_twice split: option.splits)

lemma logged_simps [limiter_simps]:
  "logged k (g @ [(k', t)]) = logged k g @ (if k' = k then [t] else [])"
  "logged k (filter (\<lambda>(k'', t). k'' \<noteq> k') g) = (if k = k' then [] else logged k g)"
  by (simp add: logged_def, unfold logged_def, induction g) auto

lemma window_count:
  "length (filter (\<lambda>(k', t). k' = k \<and> c < t) g) = length (after_cutoff c (logged k g))"
  unfolding logged_def after_cutoff_def by (induction g) auto

definition limiter_keys :: "limiter \<Rightarrow> string set" where
  "limiter_keys l = fst ` set (lim_failures l)"

lemma finite_limiter_keys [simp]: "finite (limiter_keys l)"
  by (simp add: limiter_keys_def)

lemma sweep_keys: "limiter_keys (sweep now l) \<subseteq> limiter_keys l"
  using keep_recent_keys[of "now - lim_window l" "lim_failures l"]
  by (auto simp: limiter_keys_def sweep_def sweep_overflow_def Let_def)

lemma set_failures_keys: "limiter_keys (set_failures k ts l) = insert k (limiter_keys l)"
  by (simp add: limiter_keys_def set_failures_def AList.dom_update)

lemma clear_keys: "limiter_keys (clear_key k l) \<subseteq> limiter_keys l"
  using AList.dom_delete_subset[of k "lim_failures l"] by (simp add: limiter_keys_def clear_key_def)

lemma keys_fit_def2:
  "keys_fit xs l \<longleftrightarrow> int (card (limiter_keys l \<union> (call_key \<circ> snd) ` set xs)) \<le> lim_max_keys l"
  by (simp add: keys_fit_def limiter_keys_def)

lemma keys_fit_smaller:
  assumes "keys_fit (x # xs) l" and "limiter_keys m \<subseteq> insert (call_key (snd x)) (limiter_keys l)"
    and "lim_max_keys m = lim_max_keys l"
  shows "keys_fit xs m"
proof -
  have "limiter_keys m \<union> (call_key \<circ> snd) ` set xs
      \<subseteq> limiter_keys l \<union> (call_key \<circ> snd) ` set (x # xs)" using assms(2) by auto
  then have "card (limiter_keys m \<union> (call_key \<circ> snd) ` set xs)
      \<le> card (limiter_keys l \<union> (call_key \<circ> snd) ` set (x # xs))" by (intro card_mono) auto
  with assms show ?thesis by (simp add: keys_fit_def2)
qed

lemma room_for_key:
  assumes "keys_fit ((now, c) # xs) l" and "limiter_inv l"
  shows "tracked (call_key c) (sweep now l) \<or> \<not> limiter_full (sweep now l)"
proof (rule ccontr)
  let ?m = "sweep now l"
  assume "\<not> ?thesis"
  then have out: "call_key c \<notin> limiter_keys ?m"
    and full: "lim_max_keys l \<le> int (length (lim_failures ?m))"
    by (auto simp: tracked_key limiter_keys_def limiter_full_def)
  have "distinct (map fst (lim_failures ?m))" using sweep_inv[OF assms(2)] by (simp add: limiter_inv_def)
  then have "length (lim_failures ?m) = card (limiter_keys ?m)"
    by (metis distinct_card length_map limiter_keys_def list.set_map)
  moreover have "Suc (card (limiter_keys ?m)) = card (insert (call_key c) (limiter_keys ?m))"
    using out by simp
  moreover have "\<dots> \<le> card (limiter_keys l \<union> (call_key \<circ> snd) ` set ((now, c) # xs))"
    using sweep_keys[of now l] by (intro card_mono) auto
  ultimately show False using assms(1) full by (simp add: keys_fit_def2)
qed

lemma allow_with_room:
  assumes "tracked k (sweep now l) \<or> \<not> limiter_full (sweep now l)" and "limiter_inv l"
  shows "allow now k l = (let recent = after_cutoff (now - lim_window l) (failures_of k l)
     in (int (length recent) < lim_limit l,
         if recent = [] then clear_key k (sweep now l) else set_failures k recent (sweep now l)))"
  using assms by (auto simp: allow_def Let_def failures_of_sweep)

lemma record_with_room:
  assumes "tracked k (sweep now l) \<or> \<not> limiter_full (sweep now l)"
  shows "record_failure now k l =
     set_failures k (failures_of k (sweep now l) @ [now]) (sweep now l)"
  using assms by (auto simp: record_failure_def Let_def)

lemma windows_kept [simp]:
  "lim_window (set_failures k ts l) = lim_window l" "lim_window (clear_key k l) = lim_window l"
  by (simp_all add: set_failures_def clear_key_def)

lemma allow_agrees:
  assumes "tracked k (sweep now l) \<or> \<not> limiter_full (sweep now l)" and "limiter_inv l"
    and "agrees now l g"
  shows "agrees now (snd (allow now k l)) g"
  using assms by (auto simp: allow_with_room Let_def agrees_def failures_of_sweep after_cutoff_twice)

lemma record_agrees:
  assumes "tracked k (sweep now l) \<or> \<not> limiter_full (sweep now l)" and "limiter_inv l"
    and "agrees now l g"
  shows "agrees now (record_failure now k l) (g @ [(k, now)])"
  using assms by (simp add: record_with_room agrees_def failures_of_sweep limiter_simps)

lemma clear_agrees:
  "agrees now l g \<Longrightarrow> agrees now (clear_key k l) (filter (\<lambda>(k', t). k' \<noteq> k) g)"
  by (auto simp: agrees_def limiter_simps)

lemma serve_agrees:
  assumes "counts_like window limit ((now, c) # xs) l g"
  shows "agrees now (snd (limiter_serve (now, c) l)) (snd (window_serve window limit (now, c) g))"
    and "fst (limiter_serve (now, c) l) = fst (window_serve window limit (now, c) g)"
proof -
  have room: "tracked (call_key c) (sweep now l) \<or> \<not> limiter_full (sweep now l)"
    and inv: "limiter_inv l" and ag: "agrees now l g"
    and set: "lim_window l = window" "lim_limit l = limit"
    using assms room_for_key[of now c xs l] by (auto simp: counts_like_def)
  show "agrees now (snd (limiter_serve (now, c) l)) (snd (window_serve window limit (now, c) g))"
    using allow_agrees[OF _ inv ag] record_agrees[OF _ inv ag] clear_agrees[OF ag] room
    by (cases c) (auto simp: case_prod_beta Let_def)
  show "fst (limiter_serve (now, c) l) = fst (window_serve window limit (now, c) g)"
    using room set ag
    by (cases c) (auto simp: case_prod_beta Let_def allow_with_room[OF _ inv] agrees_def
        window_count[simplified case_prod_beta])
qed

lemma allow_keys: "limiter_keys (snd (allow now k l)) \<subseteq> insert k (limiter_keys l)"
proof -
  have "limiter_keys (sweep_overflow now m) = limiter_keys m" for m
    by (simp add: limiter_keys_def sweep_overflow_def)
  then show ?thesis using sweep_keys[of now l] clear_keys[of k "sweep now l"]
    by (auto simp: allow_def Let_def set_failures_keys)
qed

lemma record_keys: "limiter_keys (record_failure now k l) \<subseteq> insert k (limiter_keys l)"
proof -
  have "limiter_keys (sweep_overflow now m) = limiter_keys m"
    "limiter_keys (m\<lparr>lim_overflow := ts\<rparr>) = limiter_keys m" for m ts
    by (simp_all add: limiter_keys_def sweep_overflow_def)
  then show ?thesis using sweep_keys[of now l]
    by (auto simp: record_failure_def Let_def set_failures_keys)
qed

lemma serve_keys: "limiter_keys (snd (limiter_serve (now, c) l)) \<subseteq> insert (call_key c) (limiter_keys l)"
  using allow_keys record_keys
  by (cases c) (auto simp: case_prod_beta Let_def dest: subsetD[OF clear_keys] subsetD[OF allow_keys]
      subsetD[OF record_keys])

lemma counts_like_step:
  assumes "counts_like window limit (x # xs) l g"
  shows "counts_like window limit xs (snd (limiter_serve x l)) (snd (window_serve window limit x g))"
proof -
  obtain now c where x: "x = (now, c)" by force
  note settings = limiter_serve_settings[of l x, unfolded same_settings_def]
  have "keys_fit xs (snd (limiter_serve x l))"
    using assms settings serve_keys[of now c l]
    by (intro keys_fit_smaller[of x xs l]) (auto simp: counts_like_def x)
  moreover have "agrees (fst (hd xs)) (snd (limiter_serve x l)) (snd (window_serve window limit x g))"
    if "xs \<noteq> []"
    using serve_agrees(1)[OF assms[unfolded x]] assms that unfolding x
    by (cases xs) (auto simp: counts_like_def intro: agrees_later)
  ultimately show ?thesis using assms settings limiter_serve_inv[of l x]
    by (auto simp: counts_like_def)
qed

interpretation limiter: answers_like limiter_serve "window_serve window limit"
  "counts_like window limit" for window limit
proof
  fix x xs l g
  assume "counts_like window limit (x # xs) l g"
  then show "fst (limiter_serve x l) = fst (window_serve window limit x g)"
    using serve_agrees(2) by (cases x) blast
qed (rule counts_like_step)

section \<open>A blocked key stays blocked\<close>

text \<open>Failures of a key that a later cutoff will still count.\<close>

definition counted :: "int \<Rightarrow> string \<Rightarrow> limiter \<Rightarrow> nat" where
  "counted cutoff k l = length (after_cutoff cutoff (failures_of k l))"

lemma counted_sweep:
  assumes "limiter_inv l" and "t - lim_window l \<le> cutoff"
  shows "counted cutoff k (sweep t l) = counted cutoff k l"
  unfolding counted_def using after_cutoff_twice[OF assms(2)] failures_of_sweep[OF assms(1), of t k]
  by metis

lemma counted_serve:
  assumes "limiter_inv l" and "t - lim_window l \<le> cutoff" and "c \<noteq> CallClear k"
  shows "counted cutoff k l \<le> counted cutoff k (snd (limiter_serve (t, c) l))"
proof -
  have same: "counted cutoff k (sweep_overflow t m) = counted cutoff k m"
    "counted cutoff k (m\<lparr>lim_overflow := ts\<rparr>) = counted cutoff k m" for m ts
    by (simp_all add: counted_def failures_of_def sweep_overflow_def)
  have set: "counted cutoff k (set_failures k' ts m) =
      (if k = k' then length (after_cutoff cutoff ts) else counted cutoff k m)"
    "counted cutoff k (clear_key k' m) = (if k = k' then 0 else counted cutoff k m)" for k' ts m
    by (simp_all add: counted_def)
  have sw: "counted cutoff k (sweep t l) = counted cutoff k l" by (rule counted_sweep[OF assms(1,2)])
  have recent: "counted cutoff k' m = length (after_cutoff cutoff (after_cutoff (t - lim_window l) (failures_of k' m)))"
    for k' m using assms(2) by (simp add: counted_def after_cutoff_twice)
  have "counted cutoff k l \<le> counted cutoff k (snd (allow t k' l))" for k'
    using sw recent[of k' "sweep t l"] by (auto simp: allow_def Let_def same set)
  moreover have "counted cutoff k l \<le> counted cutoff k (record_failure t k' l)" for k'
    using sw by (auto simp: record_failure_def Let_def same set counted_def limiter_simps)
  moreover have "counted cutoff k l \<le> counted cutoff k (clear_key k' l)" if "k' \<noteq> k" for k'
    using that by (simp add: set)
  ultimately show ?thesis using assms(3) by (cases c) (auto simp: case_prod_beta Let_def)
qed

lemma counted_run:
  assumes "limiter_inv l" and "\<forall>(t, c) \<in> set xs. t - lim_window l \<le> cutoff \<and> c \<noteq> CallClear k"
  shows "counted cutoff k l \<le> counted cutoff k (snd (answers limiter_serve xs l)) \<and>
     limiter_inv (snd (answers limiter_serve xs l)) \<and>
     same_settings l (snd (answers limiter_serve xs l))"
  using assms
proof (induction xs arbitrary: l)
  case Nil
  then show ?case by (simp add: same_settings_def)
next
  case (Cons x xs)
  let ?m = "snd (limiter_serve x l)"
  have "limiter_inv ?m" "same_settings l ?m" "counted cutoff k l \<le> counted cutoff k ?m"
    using Cons.prems limiter_serve_inv limiter_serve_settings counted_serve[of l "fst x" cutoff "snd x" k]
    by auto
  moreover from this(2) have "lim_window ?m = lim_window l" by (simp add: same_settings_def)
  ultimately show ?case using Cons.IH[of ?m] Cons.prems
    by (fastforce simp: case_prod_beta Let_def same_settings_def)
qed

section \<open>Properties\<close>

text \<open>C23: Whatever the calls are and whenever they come, the limiter's memory is bounded: it never
  tracks more than ten thousand keys, keeps no key without a failure and no key twice, and
  holds at most a thousand failures of the keys it has no room for.\<close>

theorem limiter_memory_bounded:
  "let l = snd (answers limiter_serve xs (new_login_limiter now window limit))
   in length (lim_failures l) \<le> 10000 \<and> length (lim_overflow l) \<le> 1000 \<and>
      distinct (map fst (lim_failures l)) \<and> list_all (\<lambda>(k, ts). ts \<noteq> []) (lim_failures l)"
proof -
  have "limiter_inv (snd (answers limiter_serve xs l)) \<and> same_settings l (snd (answers limiter_serve xs l))"
    if "limiter_inv l" for l using that
  proof (induction xs arbitrary: l)
    case (Cons x xs)
    from Cons.IH[OF limiter_serve_inv[OF Cons.prems, of x]] limiter_serve_settings[of l x]
    show ?case by (simp add: case_prod_beta Let_def same_settings_def)
  qed (simp add: same_settings_def)
  from this[OF new_limiter_inv[of now window limit]] show ?thesis
    by (auto simp: Let_def limiter_inv_def same_settings_def new_login_limiter_def list_all_iff)
qed

text \<open>C5: As long as no more than ten thousand different keys occur and the clock does not go back,
  the limiter answers exactly like a counter that forgets nothing: a key is allowed if and
  only if fewer than the limit of its failures since it was last cleared lie within the
  window.  Sweeping, dropping empty keys and the order of the calls cannot be seen.\<close>

theorem limiter_counts_failures:
  assumes "0 < window" and "0 < limit" and "sorted (map fst xs)"
    and "card ((call_key \<circ> snd) ` set xs) \<le> 10000"
  shows "fst (answers limiter_serve xs (new_login_limiter now window limit)) =
     fst (answers (window_serve window limit) xs [])"
proof (rule limiter.run_answers)
  have "agrees t (new_login_limiter now window limit) []" for t
    by (simp add: agrees_def new_login_limiter_def failures_of_def logged_def)
  then show "counts_like window limit xs (new_login_limiter now window limit) []"
    using assms new_limiter_inv[of now window limit]
    by (auto simp: counts_like_def keys_fit_def new_login_limiter_def)
qed

lemma limiter_counts_failures_witness:
  "fst (answers limiter_serve [(0, CallFailure ''a''), (5, CallFailure ''a''), (5, CallAllow ''b''),
       (6, CallAllow ''a''), (12, CallAllow ''a'')] (new_login_limiter 0 10 2)) =
     [None, None, Some True, Some False, Some True]"
proof -
  let ?xs = "[(0, CallFailure ''a''), (5, CallFailure ''a''), (5, CallAllow ''b''),
    (6, CallAllow ''a''), (12, CallAllow ''a'')] :: (int \<times> limiter_call) list"
  have "card ((call_key \<circ> snd) ` set ?xs) \<le> 10000"
    by (rule order_trans[OF card_image_le order_trans[OF card_length]]) auto
  with limiter_counts_failures[of 10 2 ?xs 0] show ?thesis by simp
qed

text \<open>C22: A key that is blocked stays blocked until enough of its failures have left the window:
  no calls in between, for this key or for however many others, make the limiter forget
  them, short of clearing the key itself, even when the table overflows.\<close>

theorem block_survives_flood:
  assumes "limiter_inv l" and "0 < lim_limit l"
    and "lim_limit l \<le> int (length (after_cutoff (now - lim_window l) (failures_of key l)))"
    and "\<forall>(t, c) \<in> set xs. t \<le> now \<and> c \<noteq> CallClear key"
  shows "\<not> fst (allow now key (snd (answers limiter_serve xs l)))"
proof -
  let ?m = "snd (answers limiter_serve xs l)"
  let ?cut = "now - lim_window l"
  have run: "counted ?cut key l \<le> counted ?cut key ?m" "limiter_inv ?m" "same_settings l ?m"
    using counted_run[OF assms(1), of xs ?cut key] assms(4) by force+
  then have cut: "lim_window ?m = lim_window l" "lim_limit ?m = lim_limit l"
    by (auto simp: same_settings_def)
  have many: "lim_limit l \<le> int (counted ?cut key (sweep now ?m))"
    using assms(3) run(1) counted_sweep[OF run(2), of now ?cut key] cut by (simp add: counted_def)
  then have "failures_of key (sweep now ?m) \<noteq> []" using assms(2) by (auto simp: counted_def)
  then have "tracked key (sweep now ?m)" by (auto simp: tracked_def failures_of_def split: option.splits)
  then show ?thesis using many cut by (simp add: allow_def Let_def counted_def)
qed

definition ex_blocked :: limiter where
  "ex_blocked = record_failure 1 ''a'' (record_failure 0 ''a'' (new_login_limiter 0 10 2))"

lemma block_survives_flood_witness:
  "\<not> fst (allow 8 ''a'' (snd (answers limiter_serve [(2, CallFailure ''b''), (8, CallAllow ''a'')] ex_blocked)))"
proof (rule block_survives_flood)
  show "limiter_inv ex_blocked"
    by (simp add: ex_blocked_def record_failure_inv new_limiter_inv)
  show "0 < lim_limit ex_blocked" by code_simp
  show "lim_limit ex_blocked \<le> int (length (after_cutoff (8 - lim_window ex_blocked) (failures_of ''a'' ex_blocked)))"
    by code_simp
qed auto

end
