(* ===== verification/Accounts.thy ===== *)
theory Accounts
  imports Contracts GoText
begin

text \<open>
  Accounts, invitations, sessions and the lockout after failed logins: \<open>store/store.go\<close>,
  \<open>store/invite.go\<close>, \<open>store/authentication.go\<close> and \<open>store/startup.go\<close> on the tables
  \<open>users\<close>, \<open>invites\<close>, \<open>invite_uses\<close> and \<open>sessions\<close>.  Of \<open>users\<close> the columns that sign-in
  and permissions use are modelled here; the counters of used quota are in \<open>Quota\<close>.
  PostgreSQL's \<open>LOWER\<close> depends on the collation of the server and is the parameter
  \<open>lower\<close>.  Times are microseconds; \<open>tx_now\<close> is \<open>now()\<close>.
\<close>

section \<open>Tables\<close>

datatype account_error =
    AccNoRows | AccConstraint | AccInviteUnavailable | AccUsernameExists | AccEmailExists
  | AccInvalidBootstrap

datatype role = Admin | Regular

text \<open>The permissions and limits that an invitation grants and an account carries.\<close>

record access_terms =
  g_comfyui :: bool
  g_openwebui :: bool
  g_quick :: bool
  g_text_to_image :: bool
  g_image_to_image :: bool
  g_video :: bool
  g_advanced :: bool
  g_train_lora :: bool
  g_pause_mining :: bool
  g_queue_priority :: bool
  g_daily_limit :: int
  g_total_limit :: int
  g_video_daily_limit :: int
  g_video_total_limit :: int
  g_max_video_quality :: int

record account_row =
  a_id :: int
  a_username :: string
  a_email :: "string option"
  a_password_hash :: string
  a_role :: role
  a_disabled :: bool
  a_terms :: access_terms
  a_manage_mining :: bool
  a_failed_count :: int
  a_locked_until :: "int option"
  a_expires_at :: "int option"
  a_created_at :: int
  a_last_login :: "int option"

record invite_row =
  i_id :: int
  i_token_hash :: string
  i_created_by :: "int option"
  i_max_uses :: int
  i_used_count :: int
  i_expires_at :: int
  i_revoked :: bool
  i_terms :: access_terms
  i_lifetime :: int
  i_created_at :: int

record invite_use_row =
  iu_invite_id :: int
  iu_user_id :: int
  iu_ip :: string
  iu_used_at :: int

record session_row =
  s_id :: int
  s_user_id :: int
  s_token_hash :: string
  s_created_at :: int
  s_expires_at :: int
  s_last_seen_at :: int
  s_user_agent :: string
  s_ip :: string

record account_db =
  accounts :: "account_row list"
  next_account_id :: int
  invites :: "invite_row list"
  next_invite_id :: int
  invite_uses :: "invite_use_row list"
  sessions :: "session_row list"
  next_session_id :: int

definition empty_accounts :: account_db where
  "empty_accounts = \<lparr>accounts = [], next_account_id = 1, invites = [], next_invite_id = 1,
     invite_uses = [], sessions = [], next_session_id = 1\<rparr>"

section \<open>Column checks\<close>

definition text_column :: "string \<Rightarrow> bool" where
  "text_column s = pg_text (length s) s"

definition int4 :: "int \<Rightarrow> bool" where
  "int4 n = (- 2147483648 \<le> n \<and> n \<le> 2147483647)"

definition terms_ok :: "access_terms \<Rightarrow> bool" where
  "terms_ok g =
     (int4 (g_daily_limit g) \<and> 0 \<le> g_daily_limit g \<and> 0 \<le> g_total_limit g \<and>
      int4 (g_video_daily_limit g) \<and> 0 \<le> g_video_daily_limit g \<and> 0 \<le> g_video_total_limit g \<and>
      g_max_video_quality g \<in> {480, 720, 1080, 1440})"

definition account_row_ok :: "account_row \<Rightarrow> bool" where
  "account_row_ok a =
     (text_column (a_username a) \<and> (case a_email a of None \<Rightarrow> True | Some e \<Rightarrow> text_column e) \<and>
      text_column (a_password_hash a) \<and> terms_ok (a_terms a) \<and>
      0 \<le> a_failed_count a \<and> int4 (a_failed_count a))"

definition invite_row_ok :: "invite_row \<Rightarrow> bool" where
  "invite_row_ok i =
     (text_column (i_token_hash i) \<and> int4 (i_max_uses i) \<and> 0 < i_max_uses i \<and>
      0 \<le> i_used_count i \<and> i_used_count i \<le> i_max_uses i \<and> terms_ok (i_terms i) \<and>
      0 \<le> i_lifetime i \<and> i_lifetime i \<le> 31536000)"

definition same_email :: "(string \<Rightarrow> string) \<Rightarrow> account_row \<Rightarrow> account_row \<Rightarrow> bool" where
  "same_email lower a b =
     (case (a_email a, a_email b) of
        (Some d, Some e) \<Rightarrow> d \<noteq> [] \<and> e \<noteq> [] \<and> lower d = lower e
      | _ \<Rightarrow> False)"

text \<open>
  A row enters \<open>users\<close> if it passes the checks and no other row has its name, then its
  e-mail; the two unique violations are told apart by the constraint's name.
\<close>

definition account_clash ::
  "(string \<Rightarrow> string) \<Rightarrow> account_row \<Rightarrow> account_db \<Rightarrow> account_error option" where
  "account_clash lower a db =
     (if \<not> account_row_ok a then Some AccConstraint
      else if sql_exists (\<lambda>b. a_id b \<noteq> a_id a \<and> a_username b = a_username a) (accounts db)
      then Some AccUsernameExists
      else if sql_exists (\<lambda>b. a_id b \<noteq> a_id a \<and> same_email lower b a) (accounts db)
      then Some AccEmailExists
      else None)"

definition insert_account ::
  "(string \<Rightarrow> string) \<Rightarrow> account_row \<Rightarrow> account_db \<Rightarrow> account_error + (int \<times> account_db)" where
  "insert_account lower r db =
     (let a = r\<lparr>a_id := next_account_id db\<rparr> in
      case account_clash lower a db of
        Some e \<Rightarrow> Inl e
      | None \<Rightarrow> Inr (a_id a, db\<lparr>accounts := accounts db @ [a],
                              next_account_id := next_account_id db + 1\<rparr>))"

text \<open>Deleting users cascades to their sessions and uses, and unlinks the invitations they made.\<close>

definition remove_accounts :: "(account_row \<Rightarrow> bool) \<Rightarrow> account_db \<Rightarrow> account_db" where
  "remove_accounts P db =
     (let gone = map a_id (filter P (accounts db)) in
      db\<lparr>accounts := sql_delete P (accounts db),
         sessions := sql_delete (\<lambda>s. s_user_id s \<in> set gone) (sessions db),
         invite_uses := sql_delete (\<lambda>u. iu_user_id u \<in> set gone) (invite_uses db),
         invites := sql_update (\<lambda>i. case i_created_by i of None \<Rightarrow> False | Some c \<Rightarrow> c \<in> set gone)
                      (\<lambda>i. i\<lparr>i_created_by := None\<rparr>) (invites db)\<rparr>)"

section \<open>Invitations\<close>

record invite_params =
  ip_token_hash :: string
  ip_created_by :: int
  ip_max_uses :: int
  ip_expires_at :: int
  ip_terms :: access_terms
  ip_lifetime :: int

definition invite_open :: "clock \<Rightarrow> string \<Rightarrow> invite_row \<Rightarrow> bool" where
  "invite_open clk token_hash i =
     (i_token_hash i = token_hash \<and> \<not> i_revoked i \<and> tx_now clk < i_expires_at i \<and>
      i_used_count i < i_max_uses i)"

definition available_invite ::
  "clock \<Rightarrow> string \<Rightarrow> account_db \<Rightarrow> account_error + (int \<times> access_terms \<times> int)" where
  "available_invite clk token_hash db =
     (case sql_find (invite_open clk token_hash) (invites db) of
        None \<Rightarrow> Inl AccInviteUnavailable
      | Some i \<Rightarrow> Inr (i_id i, i_terms i, i_lifetime i))"

record register_params =
  rp_token_hash :: string
  rp_username :: string
  rp_email :: string
  rp_password_hash :: string
  rp_ip :: string

definition registered_row :: "clock \<Rightarrow> register_params \<Rightarrow> invite_row \<Rightarrow> account_row" where
  "registered_row clk p i =
     \<lparr>a_id = 0, a_username = rp_username p,
      a_email = (if rp_email p = [] then None else Some (rp_email p)),
      a_password_hash = rp_password_hash p, a_role = Regular, a_disabled = False,
      a_terms = i_terms i, a_manage_mining = False, a_failed_count = 0, a_locked_until = None,
      a_expires_at = (if 0 < i_lifetime i then Some (tx_now clk + usec (i_lifetime i)) else None),
      a_created_at = tx_now clk, a_last_login = None\<rparr>"

definition register_from_invite ::
  "(string \<Rightarrow> string) \<Rightarrow> clock \<Rightarrow> register_params \<Rightarrow> account_db
     \<Rightarrow> account_error + ((int \<times> int) \<times> account_db)" where
  "register_from_invite lower clk p db =
     (case sql_find (invite_open clk (rp_token_hash p)) (invites db) of
        None \<Rightarrow> Inl AccInviteUnavailable
      | Some i \<Rightarrow>
          let db1 = db\<lparr>invites := sql_update (invite_open clk (rp_token_hash p))
                         (\<lambda>i. i\<lparr>i_used_count := i_used_count i + 1\<rparr>) (invites db)\<rparr> in
          res_bind (insert_account lower (registered_row clk p i) db1) (\<lambda>(uid, db2).
            if \<not> text_column (rp_ip p) then Inl AccConstraint
            else Inr ((uid, i_id i),
              db2\<lparr>invite_uses := invite_uses db2 @
                [\<lparr>iu_invite_id = i_id i, iu_user_id = uid, iu_ip = rp_ip p, iu_used_at = tx_now clk\<rparr>]\<rparr>)))"

definition default_terms :: "invite_params \<Rightarrow> access_terms" where
  "default_terms p =
     (let g = ip_terms p;
          g1 = (if g_quick g \<and> \<not> g_text_to_image g \<and> \<not> g_image_to_image g \<and> \<not> g_video g
                then g\<lparr>g_text_to_image := True\<rparr> else g)
      in if g_max_video_quality g1 = 0 then g1\<lparr>g_max_video_quality := 1440\<rparr> else g1)"

definition create_invite :: "clock \<Rightarrow> invite_params \<Rightarrow> account_db \<Rightarrow> account_error + (int \<times> account_db)" where
  "create_invite clk p db =
     (let i = \<lparr>i_id = next_invite_id db, i_token_hash = ip_token_hash p,
               i_created_by = Some (ip_created_by p), i_max_uses = ip_max_uses p,
               i_used_count = 0, i_expires_at = ip_expires_at p, i_revoked = False,
               i_terms = default_terms p, i_lifetime = ip_lifetime p, i_created_at = tx_now clk\<rparr>
      in if \<not> invite_row_ok i \<or> sql_exists (\<lambda>k. i_token_hash k = i_token_hash i) (invites db) \<or>
            \<not> sql_exists (\<lambda>a. a_id a = ip_created_by p) (accounts db)
         then Inl AccConstraint
         else Inr (i_id i, db\<lparr>invites := invites db @ [i], next_invite_id := next_invite_id db + 1\<rparr>))"

definition set_invite_revoked :: "int \<Rightarrow> bool \<Rightarrow> account_db \<Rightarrow> bool \<times> account_db" where
  "set_invite_revoked iid revoked db =
     (sql_exists (\<lambda>i. i_id i = iid) (invites db),
      db\<lparr>invites := sql_update (\<lambda>i. i_id i = iid) (\<lambda>i. i\<lparr>i_revoked := revoked\<rparr>) (invites db)\<rparr>)"

definition delete_invite :: "int \<Rightarrow> account_db \<Rightarrow> bool \<times> account_db" where
  "delete_invite iid db =
     (sql_exists (\<lambda>i. i_id i = iid) (invites db),
      db\<lparr>invites := sql_delete (\<lambda>i. i_id i = iid) (invites db),
         invite_uses := sql_delete (\<lambda>u. iu_invite_id u = iid) (invite_uses db)\<rparr>)"

datatype invite_status = InviteRevoked | InviteExpired | InviteUsed | InviteActive

definition invite_status :: "clock \<Rightarrow> invite_row \<Rightarrow> invite_status" where
  "invite_status clk i =
     (if i_revoked i then InviteRevoked
      else if i_expires_at i \<le> tx_now clk then InviteExpired
      else if i_max_uses i \<le> i_used_count i then InviteUsed
      else InviteActive)"

definition list_invites ::
  "clock \<Rightarrow> int \<Rightarrow> account_db \<Rightarrow> (invite_row \<times> string \<times> invite_status) list" where
  "list_invites clk limit db =
     (let n = (if limit \<le> 0 \<or> 500 < limit then 200 else limit) in
      map (\<lambda>i. (i, (case sql_find (\<lambda>a. i_created_by i = Some (a_id a)) (accounts db) of
                      None \<Rightarrow> [] | Some a \<Rightarrow> a_username a), invite_status clk i))
        (take (nat n) (sort_key (\<lambda>i. - i_created_at i) (invites db))))"

section \<open>Sign-in and lockout\<close>

definition identity_matches :: "(string \<Rightarrow> string) \<Rightarrow> string \<Rightarrow> account_row \<Rightarrow> bool" where
  "identity_matches lower identity a =
     (a_username a = identity \<or>
      (case a_email a of None \<Rightarrow> False | Some e \<Rightarrow> lower e = lower identity))"

definition account_unexpired :: "clock \<Rightarrow> account_row \<Rightarrow> bool" where
  "account_unexpired clk a = (case a_expires_at a of None \<Rightarrow> True | Some t \<Rightarrow> tx_now clk < t)"

definition find_user_with_password ::
  "(string \<Rightarrow> string) \<Rightarrow> clock \<Rightarrow> string \<Rightarrow> account_db \<Rightarrow> account_error + account_row" where
  "find_user_with_password lower clk identity db =
     (case sql_first (\<lambda>a b. a_username a = identity \<or> a_username b \<noteq> identity)
             (filter (\<lambda>a. identity_matches lower identity a \<and> account_unexpired clk a) (accounts db)) of
        None \<Rightarrow> Inl AccNoRows
      | Some a \<Rightarrow> Inr a)"

definition is_locked :: "int \<Rightarrow> account_row \<Rightarrow> bool" where
  "is_locked now a = (case a_locked_until a of None \<Rightarrow> False | Some t \<Rightarrow> now < t)"

definition failed_login :: "clock \<Rightarrow> int \<Rightarrow> int \<Rightarrow> account_row \<Rightarrow> account_row" where
  "failed_login clk threshold lock_duration a =
     (let n = (if (case a_locked_until a of None \<Rightarrow> False | Some t \<Rightarrow> t \<le> tx_now clk) then 1
               else a_failed_count a + 1)
      in a\<lparr>a_failed_count := n,
           a_locked_until := (if threshold \<le> n then Some (tx_now clk + usec (dur_seconds lock_duration))
                              else None)\<rparr>)"

definition record_login_failure ::
  "(string \<Rightarrow> string) \<Rightarrow> clock \<Rightarrow> string \<Rightarrow> int \<Rightarrow> int \<Rightarrow> account_db
     \<Rightarrow> account_error + (int option \<times> account_db)" where
  "record_login_failure lower clk identity threshold lock_duration db =
     (let hit = (\<lambda>a. identity_matches lower identity a \<and> \<not> a_disabled a);
          fail = failed_login clk threshold lock_duration
      in case sql_find hit (accounts db) of
           None \<Rightarrow> Inl AccNoRows
         | Some a \<Rightarrow>
             if list_ex (\<lambda>b. hit b \<and> \<not> account_row_ok (fail b)) (accounts db) then Inl AccConstraint
             else Inr (a_locked_until (fail a), db\<lparr>accounts := sql_update hit fail (accounts db)\<rparr>))"

definition unlocked :: "account_row \<Rightarrow> account_row" where
  "unlocked a = a\<lparr>a_failed_count := 0, a_locked_until := None\<rparr>"

definition record_login_success :: "clock \<Rightarrow> int \<Rightarrow> account_db \<Rightarrow> account_db" where
  "record_login_success clk uid db =
     db\<lparr>accounts := sql_update (\<lambda>a. a_id a = uid)
          (\<lambda>a. (unlocked a)\<lparr>a_last_login := Some (tx_now clk)\<rparr>) (accounts db)\<rparr>"

definition unlock_user :: "int \<Rightarrow> account_db \<Rightarrow> bool \<times> account_db" where
  "unlock_user uid db =
     (let hit = (\<lambda>a. a_id a = uid \<and> (a_failed_count a \<noteq> 0 \<or> a_locked_until a \<noteq> None))
      in (sql_exists hit (accounts db), db\<lparr>accounts := sql_update hit unlocked (accounts db)\<rparr>))"

section \<open>Account changes\<close>

definition update_password :: "int \<Rightarrow> string \<Rightarrow> account_db \<Rightarrow> account_error + account_db" where
  "update_password uid hash db =
     (if sql_exists (\<lambda>a. a_id a = uid) (accounts db) \<and> \<not> text_column hash then Inl AccConstraint
      else Inr (db\<lparr>accounts := sql_update (\<lambda>a. a_id a = uid)
             (\<lambda>a. (unlocked a)\<lparr>a_password_hash := hash\<rparr>) (accounts db)\<rparr>))"

definition update_own_profile ::
  "(string \<Rightarrow> string) \<Rightarrow> int \<Rightarrow> string \<Rightarrow> string \<Rightarrow> bool \<Rightarrow> account_db \<Rightarrow> account_error + account_db" where
  "update_own_profile lower uid username email allow_username db =
     (let mail = (if email = [] then None else Some email);
          hit = (\<lambda>a. a_id a = uid \<and> (if allow_username then a_role a = Admin else a_role a \<noteq> Admin));
          change = (\<lambda>a. if allow_username then a\<lparr>a_username := username, a_email := mail\<rparr>
                        else a\<lparr>a_email := mail\<rparr>)
      in case sql_find hit (accounts db) of
           None \<Rightarrow> Inr db
         | Some a \<Rightarrow>
             (case account_clash lower (change a) db of
                Some e \<Rightarrow> Inl e
              | None \<Rightarrow> Inr (db\<lparr>accounts := sql_update hit change (accounts db)\<rparr>)))"

definition set_disabled :: "int \<Rightarrow> bool \<Rightarrow> account_db \<Rightarrow> (bool \<times> int) \<times> account_db" where
  "set_disabled uid disabled db =
     (let hit = (\<lambda>a. a_id a = uid \<and> a_role a \<noteq> Admin);
          found = sql_exists hit (accounts db);
          db1 = db\<lparr>accounts := sql_update hit (\<lambda>a. a\<lparr>a_disabled := disabled\<rparr>) (accounts db)\<rparr>;
          mine = (\<lambda>s. s_user_id s = uid)
      in if disabled \<and> found
         then ((True, int (sql_count mine (sessions db1))),
               db1\<lparr>sessions := sql_delete mine (sessions db1)\<rparr>)
         else ((found, 0), db1))"

definition delete_user :: "int \<Rightarrow> string \<Rightarrow> account_db \<Rightarrow> bool \<times> account_db" where
  "delete_user uid username db =
     (let hit = (\<lambda>a. a_id a = uid \<and> a_username a = username \<and> a_role a \<noteq> Admin)
      in (sql_exists hit (accounts db), remove_accounts hit db))"

definition delete_expired_temporary_users :: "clock \<Rightarrow> account_db \<Rightarrow> int \<times> account_db" where
  "delete_expired_temporary_users clk db =
     (let hit = (\<lambda>a. a_role a = Regular \<and>
                (case a_expires_at a of None \<Rightarrow> False | Some t \<Rightarrow> t \<le> tx_now clk))
      in (int (sql_count hit (accounts db)), remove_accounts hit db))"

definition set_service_access ::
  "int \<Rightarrow> access_terms \<Rightarrow> bool \<Rightarrow> account_db \<Rightarrow> account_error + (bool \<times> account_db)" where
  "set_service_access uid terms manage_mining db =
     (let hit = (\<lambda>a. a_id a = uid \<and> a_role a \<noteq> Admin);
          g = (if g_max_video_quality terms = 0 then terms\<lparr>g_max_video_quality := 1440\<rparr> else terms)
      in if sql_exists hit (accounts db) \<and> \<not> terms_ok g then Inl AccConstraint
         else Inr (sql_exists hit (accounts db),
                   db\<lparr>accounts := sql_update hit (\<lambda>a. a\<lparr>a_terms := g, a_manage_mining := manage_mining\<rparr>)
                        (accounts db)\<rparr>))"

definition set_admin_queue_priority :: "int \<Rightarrow> bool \<Rightarrow> account_db \<Rightarrow> bool \<times> account_db" where
  "set_admin_queue_priority uid enabled db =
     (let hit = (\<lambda>a. a_id a = uid \<and> a_role a = Admin)
      in (sql_exists hit (accounts db),
          db\<lparr>accounts := sql_update hit (\<lambda>a. a\<lparr>a_terms := (a_terms a)\<lparr>g_queue_priority := enabled\<rparr>\<rparr>)
               (accounts db)\<rparr>))"

definition set_admin_mining_policy :: "int \<Rightarrow> bool \<Rightarrow> account_db \<Rightarrow> bool \<times> account_db" where
  "set_admin_mining_policy uid enabled db =
     (let hit = (\<lambda>a. a_id a = uid \<and> a_role a = Admin)
      in (sql_exists hit (accounts db),
          db\<lparr>accounts := sql_update hit (\<lambda>a. a\<lparr>a_terms := (a_terms a)\<lparr>g_pause_mining := enabled\<rparr>\<rparr>)
               (accounts db)\<rparr>))"

text \<open>The terms of the first administrator: the given permissions and the column defaults.\<close>

definition bootstrap_terms :: access_terms where
  "bootstrap_terms = \<lparr>g_comfyui = True, g_openwebui = True, g_quick = True, g_text_to_image = True,
     g_image_to_image = False, g_video = False, g_advanced = True, g_train_lora = False,
     g_pause_mining = False, g_queue_priority = False, g_daily_limit = 0, g_total_limit = 0,
     g_video_daily_limit = 0, g_video_total_limit = 0, g_max_video_quality = 1440\<rparr>"

definition ensure_bootstrap_admin ::
  "(string \<Rightarrow> string) \<Rightarrow> clock \<Rightarrow> string \<Rightarrow> string \<Rightarrow> account_db \<Rightarrow> account_error + account_db" where
  "ensure_bootstrap_admin lower clk username hash db =
     (if trim_space username = [] \<or> hash = [] then Inl AccInvalidBootstrap
      else if sql_exists (\<lambda>a. a_role a = Admin) (accounts db) then Inr db
      else let a = \<lparr>a_id = 0, a_username = username, a_email = None, a_password_hash = hash,
                    a_role = Admin, a_disabled = False, a_terms = bootstrap_terms,
                    a_manage_mining = False, a_failed_count = 0, a_locked_until = None,
                    a_expires_at = None, a_created_at = tx_now clk, a_last_login = None\<rparr>
           in (case insert_account lower a db of
                 Inl e \<Rightarrow> Inl AccConstraint
               | Inr (uid, db1) \<Rightarrow> Inr db1))"

section \<open>Sessions\<close>

definition session_live :: "clock \<Rightarrow> int \<Rightarrow> session_row \<Rightarrow> bool" where
  "session_live clk idle s =
     (tx_now clk < s_expires_at s \<and> tx_now clk - usec (dur_seconds idle) < s_last_seen_at s)"

definition may_sign_in :: "clock \<Rightarrow> account_row \<Rightarrow> bool" where
  "may_sign_in clk a = (\<not> a_disabled a \<and> account_unexpired clk a)"

definition user_by_session_hash ::
  "clock \<Rightarrow> string \<Rightarrow> int \<Rightarrow> account_db \<Rightarrow> account_error + account_row" where
  "user_by_session_hash clk token_hash idle db =
     (case sql_find (\<lambda>(s, a). s_token_hash s = token_hash \<and> session_live clk idle s \<and>
             a_id a = s_user_id s \<and> may_sign_in clk a)
             (List.product (sessions db) (accounts db)) of
        None \<Rightarrow> Inl AccNoRows
      | Some (s, a) \<Rightarrow> Inr a)"

definition create_session ::
  "clock \<Rightarrow> int \<Rightarrow> string \<Rightarrow> int \<Rightarrow> string \<Rightarrow> string \<Rightarrow> account_db \<Rightarrow> account_error + account_db" where
  "create_session clk uid token_hash expires_at user_agent ip db =
     (if \<not> text_column token_hash \<or> \<not> text_column user_agent \<or> \<not> text_column ip \<or>
         sql_exists (\<lambda>s. s_token_hash s = token_hash) (sessions db) \<or>
         \<not> sql_exists (\<lambda>a. a_id a = uid) (accounts db)
      then Inl AccConstraint
      else Inr (db\<lparr>sessions := sessions db @
             [\<lparr>s_id = next_session_id db, s_user_id = uid, s_token_hash = token_hash,
               s_created_at = tx_now clk, s_expires_at = expires_at, s_last_seen_at = tx_now clk,
               s_user_agent = user_agent, s_ip = ip\<rparr>],
             next_session_id := next_session_id db + 1\<rparr>))"

definition touch_session :: "clock \<Rightarrow> string \<Rightarrow> account_db \<Rightarrow> account_db" where
  "touch_session clk token_hash db =
     db\<lparr>sessions := sql_update
          (\<lambda>s. s_token_hash s = token_hash \<and> s_last_seen_at s < tx_now clk - usec 60)
          (\<lambda>s. s\<lparr>s_last_seen_at := tx_now clk\<rparr>) (sessions db)\<rparr>"

definition delete_sessions :: "(session_row \<Rightarrow> bool) \<Rightarrow> account_db \<Rightarrow> account_db" where
  "delete_sessions P db = db\<lparr>sessions := sql_delete P (sessions db)\<rparr>"

definition delete_session_by_hash :: "string \<Rightarrow> account_db \<Rightarrow> account_db" where
  "delete_session_by_hash token_hash db = delete_sessions (\<lambda>s. s_token_hash s = token_hash) db"

definition revoke_sessions :: "int \<Rightarrow> account_db \<Rightarrow> int \<times> account_db" where
  "revoke_sessions uid db =
     (int (sql_count (\<lambda>s. s_user_id s = uid) (sessions db)),
      delete_sessions (\<lambda>s. s_user_id s = uid) db)"

definition revoke_other_sessions :: "int \<Rightarrow> string \<Rightarrow> account_db \<Rightarrow> int \<times> account_db" where
  "revoke_other_sessions uid current_hash db =
     (let P = (\<lambda>s. s_user_id s = uid \<and> s_token_hash s \<noteq> current_hash)
      in (int (sql_count P (sessions db)), delete_sessions P db))"

definition revoke_owned_session ::
  "int \<Rightarrow> int \<Rightarrow> string \<Rightarrow> account_db \<Rightarrow> (string \<times> bool) \<times> account_db" where
  "revoke_owned_session sid uid current_hash db =
     (let P = (\<lambda>s. s_id s = sid \<and> s_user_id s = uid \<and> s_token_hash s \<noteq> current_hash)
      in case sql_find P (sessions db) of
           None \<Rightarrow> (([], False), db)
         | Some s \<Rightarrow> ((s_token_hash s, True), delete_sessions P db))"

definition active_session_hashes ::
  "clock \<Rightarrow> string list \<Rightarrow> int \<Rightarrow> account_db \<Rightarrow> string list" where
  "active_session_hashes clk hashes idle db =
     map s_token_hash (filter (\<lambda>s. s_token_hash s \<in> set hashes \<and> session_live clk idle s \<and>
       sql_exists (\<lambda>a. a_id a = s_user_id s \<and> may_sign_in clk a) (accounts db)) (sessions db))"

definition list_account_sessions ::
  "clock \<Rightarrow> int \<Rightarrow> string \<Rightarrow> int \<Rightarrow> account_db \<Rightarrow> (session_row \<times> bool) list" where
  "list_account_sessions clk uid current_hash idle db =
     map (\<lambda>s. (s, s_token_hash s = current_hash))
       (sort_key (\<lambda>s. - s_last_seen_at s)
         (filter (\<lambda>s. s_user_id s = uid \<and> session_live clk idle s) (sessions db)))"

definition delete_expired_sessions :: "clock \<Rightarrow> int \<Rightarrow> account_db \<Rightarrow> int \<times> account_db" where
  "delete_expired_sessions clk idle db =
     (let P = (\<lambda>s. s_expires_at s \<le> tx_now clk \<or>
                   s_last_seen_at s \<le> tx_now clk - usec (dur_seconds idle))
      in (int (sql_count P (sessions db)), delete_sessions P db))"

section \<open>Permissions\<close>

text \<open>\<open>CanUseQuickGenerationType\<close>, \<open>CanAccessMining\<close> and \<open>CanUseService\<close> of \<open>domain/user.go\<close>.\<close>

definition can_use_generation_type :: "account_row \<Rightarrow> string \<Rightarrow> bool" where
  "can_use_generation_type a template =
     (if a_role a = Admin then True
      else if \<not> g_quick (a_terms a) then False
      else if template = ''text-to-image'' then g_text_to_image (a_terms a)
      else if template = ''image-to-image'' then g_image_to_image (a_terms a)
      else if template = ''minimax-h3-video'' then g_video (a_terms a)
      else False)"

definition can_access_mining :: "account_row \<Rightarrow> bool" where
  "can_access_mining a = (a_role a = Admin \<or> a_manage_mining a)"

definition can_use_service :: "account_row \<Rightarrow> string \<Rightarrow> bool" where
  "can_use_service a service =
     (if a_role a = Admin then True
      else if service = ''quick_generation'' then g_quick (a_terms a)
      else if service = ''comfyui'' then g_comfyui (a_terms a)
      else if service = ''openwebui'' then g_openwebui (a_terms a)
      else False)"

end
