(* ===== verification/AccountRuns.thy ===== *)
theory AccountRuns
  imports Accounts
begin

text \<open>
  The account store as a transition system: every operation of \<open>Accounts\<close> that writes is a
  step.  The invariant bounds the use of invitations; the evolution states what no operation
  does to an administrator.
\<close>

section \<open>Steps\<close>

inductive account_step :: "account_db \<Rightarrow> account_db \<Rightarrow> bool" where
  as_bootstrap: "ensure_bootstrap_admin lower clk username hash s = Inr t \<Longrightarrow> account_step s t"
| as_create_invite: "create_invite clk p s = Inr (iid, t) \<Longrightarrow> account_step s t"
| as_register: "register_from_invite lower clk p s = Inr (r, t) \<Longrightarrow> account_step s t"
| as_revoke_invite: "set_invite_revoked iid revoked s = (found, t) \<Longrightarrow> account_step s t"
| as_delete_invite: "delete_invite iid s = (found, t) \<Longrightarrow> account_step s t"
| as_login_failure: "record_login_failure lower clk identity threshold dur s = Inr (r, t)
    \<Longrightarrow> account_step s t"
| as_login_success: "record_login_success clk uid s = t \<Longrightarrow> account_step s t"
| as_unlock: "unlock_user uid s = (found, t) \<Longrightarrow> account_step s t"
| as_password: "update_password uid hash s = Inr t \<Longrightarrow> account_step s t"
| as_profile: "update_own_profile lower uid username email allow s = Inr t \<Longrightarrow> account_step s t"
| as_disable: "set_disabled uid disabled s = (r, t) \<Longrightarrow> account_step s t"
| as_delete_user: "delete_user uid username s = (found, t) \<Longrightarrow> account_step s t"
| as_delete_temporary: "delete_expired_temporary_users clk s = (n, t) \<Longrightarrow> account_step s t"
| as_access: "set_service_access uid terms manage s = Inr (found, t) \<Longrightarrow> account_step s t"
| as_admin_priority: "set_admin_queue_priority uid enabled s = (found, t) \<Longrightarrow> account_step s t"
| as_admin_mining: "set_admin_mining_policy uid enabled s = (found, t) \<Longrightarrow> account_step s t"
| as_session: "create_session clk uid hash expires agent ip s = Inr t \<Longrightarrow> account_step s t"
| as_touch: "touch_session clk hash s = t \<Longrightarrow> account_step s t"
| as_sign_out: "delete_session_by_hash hash s = t \<Longrightarrow> account_step s t"
| as_revoke: "revoke_sessions uid s = (n, t) \<Longrightarrow> account_step s t"
| as_revoke_others: "revoke_other_sessions uid hash s = (n, t) \<Longrightarrow> account_step s t"
| as_revoke_owned: "revoke_owned_session sid uid hash s = (r, t) \<Longrightarrow> account_step s t"
| as_sweep: "delete_expired_sessions clk idle s = (n, t) \<Longrightarrow> account_step s t"

text \<open>What a step does to the tables, in one of five ways.\<close>

definition only_sessions :: "account_db \<Rightarrow> account_db \<Rightarrow> bool" where
  "only_sessions s t \<longleftrightarrow> accounts t = accounts s \<and> next_account_id t = next_account_id s \<and>
     invites t = invites s \<and> next_invite_id t = next_invite_id s \<and> invite_uses t = invite_uses s"

lemmas account_ops =
  ensure_bootstrap_admin_def create_invite_def register_from_invite_def set_invite_revoked_def
  delete_invite_def record_login_failure_def record_login_success_def unlock_user_def
  update_password_def update_own_profile_def set_disabled_def delete_user_def
  delete_expired_temporary_users_def set_service_access_def set_admin_queue_priority_def
  set_admin_mining_policy_def

lemmas session_ops =
  create_session_def touch_session_def delete_session_by_hash_def revoke_sessions_def
  revoke_other_sessions_def revoke_owned_session_def delete_expired_sessions_def delete_sessions_def

lemma session_op_frames:
  "create_session clk uid hash expires agent ip s = Inr t \<Longrightarrow> only_sessions s t"
  "only_sessions s (touch_session clk hash s)"
  "only_sessions s (delete_session_by_hash hash s)"
  "only_sessions s (snd (revoke_sessions uid s))"
  "only_sessions s (snd (revoke_other_sessions uid hash s))"
  "only_sessions s (snd (revoke_owned_session sid uid hash s))"
  "only_sessions s (snd (delete_expired_sessions clk idle s))"
  by (auto simp: only_sessions_def session_ops Let_def split: if_splits option.splits)

section \<open>Invariant\<close>

definition uses_of :: "int \<Rightarrow> account_db \<Rightarrow> nat" where
  "uses_of iid db = sql_count (\<lambda>u. iu_invite_id u = iid) (invite_uses db)"

definition invite_inv :: "account_db \<Rightarrow> invite_row \<Rightarrow> bool" where
  "invite_inv db i \<longleftrightarrow> i_id i < next_invite_id db \<and> 0 < i_max_uses i \<and> i_used_count i \<le> i_max_uses i \<and>
     int (uses_of (i_id i) db) \<le> i_used_count i"

definition accounts_inv :: "account_db \<Rightarrow> bool" where
  "accounts_inv db \<longleftrightarrow>
     unique_key a_id (accounts db) \<and> (\<forall>a\<in>set (accounts db). a_id a < next_account_id db) \<and>
     unique_key i_id (invites db) \<and> unique_key i_token_hash (invites db) \<and>
     (\<forall>i\<in>set (invites db). invite_inv db i) \<and>
     (\<forall>u\<in>set (invite_uses db). iu_invite_id u < next_invite_id db)"

lemma empty_accounts_inv: "accounts_inv empty_accounts"
  by (simp add: accounts_inv_def empty_accounts_def)

lemma only_sessions_inv: "only_sessions s t \<Longrightarrow> accounts_inv s \<Longrightarrow> accounts_inv t"
  by (simp add: only_sessions_def accounts_inv_def invite_inv_def uses_of_def)

text \<open>A step that rewrites columns of accounts, keeping their ids, and touches nothing else
  of what the invariant reads.\<close>

definition updates_accounts :: "(account_row \<Rightarrow> bool) \<Rightarrow> (account_row \<Rightarrow> account_row)
    \<Rightarrow> account_db \<Rightarrow> account_db \<Rightarrow> bool" where
  "updates_accounts P f s t \<longleftrightarrow> accounts t = sql_update P f (accounts s) \<and>
     (\<forall>a. a_id (f a) = a_id a) \<and> next_account_id t = next_account_id s \<and>
     invites t = invites s \<and> next_invite_id t = next_invite_id s \<and> invite_uses t = invite_uses s"

lemma updates_accounts_inv: "updates_accounts P f s t \<Longrightarrow> accounts_inv s \<Longrightarrow> accounts_inv t"
  unfolding updates_accounts_def accounts_inv_def invite_inv_def uses_of_def
  by (auto simp: set_sql_update unique_key_update)

lemma unique_key_update_id [simp]:
  "\<forall>a. a_id (f a) = a_id a \<Longrightarrow> unique_key a_id (sql_update P f t) = unique_key a_id t"
  by (rule unique_key_update) simp

text \<open>The rows that a step may rewrite, and how an administrator's row may change.\<close>

definition same_terms :: "access_terms \<Rightarrow> access_terms \<Rightarrow> bool" where
  "same_terms g h \<longleftrightarrow> g\<lparr>g_pause_mining := False, g_queue_priority := False\<rparr> =
     h\<lparr>g_pause_mining := False, g_queue_priority := False\<rparr>"

definition admin_same :: "account_row \<Rightarrow> account_row \<Rightarrow> bool" where
  "admin_same a b \<longleftrightarrow> a_id b = a_id a \<and> a_role b = Admin \<and> a_disabled b = a_disabled a \<and>
     a_expires_at b = a_expires_at a \<and> a_manage_mining b = a_manage_mining a \<and>
     same_terms (a_terms a) (a_terms b)"

definition admins_kept :: "account_db \<Rightarrow> account_db \<Rightarrow> bool" where
  "admins_kept s t \<longleftrightarrow> (\<forall>a\<in>set (accounts s). a_role a = Admin \<longrightarrow>
     (\<exists>b\<in>set (accounts t). admin_same a b))"

lemma admin_same_refl: "a_role a = Admin \<Longrightarrow> admin_same a a"
  by (simp add: admin_same_def same_terms_def)

lemma admin_same_trans: "admin_same a b \<Longrightarrow> admin_same b c \<Longrightarrow> admin_same a c"
  by (simp add: admin_same_def same_terms_def)

lemma admins_kept_refl: "admins_kept s s"
  by (auto simp: admins_kept_def intro: admin_same_refl)

lemma admins_kept_trans: "admins_kept s t \<Longrightarrow> admins_kept t u \<Longrightarrow> admins_kept s u"
  unfolding admins_kept_def by (meson admin_same_def admin_same_trans)

lemma updates_accounts_kept:
  assumes "updates_accounts P f s t"
    and "\<And>a. P a \<Longrightarrow> a_role a = Admin \<Longrightarrow> admin_same a (f a)"
  shows "admins_kept s t"
proof -
  have "admin_same a (if P a then f a else a)" if "a_role a = Admin" for a
    using assms(2) admin_same_refl that by simp
  then show ?thesis using assms(1) unfolding updates_accounts_def admins_kept_def
    by (auto simp only: set_sql_update intro!: bexI imageI)
qed

lemma only_sessions_kept: "only_sessions s t \<Longrightarrow> admins_kept s t"
  using admins_kept_refl[of s] by (simp add: only_sessions_def admins_kept_def)

text \<open>A good step keeps the invariant and the administrators.\<close>

definition good_step :: "account_db \<Rightarrow> account_db \<Rightarrow> bool" where
  "good_step s t \<longleftrightarrow> (accounts_inv s \<longrightarrow> accounts_inv t) \<and> admins_kept s t"

lemma good_step_refl: "good_step s s"
  by (simp add: good_step_def admins_kept_refl)

lemma good_step_sessions: "only_sessions s t \<Longrightarrow> good_step s t"
  by (simp add: good_step_def only_sessions_inv only_sessions_kept)

lemma good_step_update:
  assumes "accounts t = sql_update P f (accounts s)" "\<And>a. a_id (f a) = a_id a"
    "next_account_id t = next_account_id s" "invites t = invites s"
    "next_invite_id t = next_invite_id s" "invite_uses t = invite_uses s"
    and "\<And>a. P a \<Longrightarrow> a_role a = Admin \<Longrightarrow> admin_same a (f a)"
  shows "good_step s t"
proof -
  have "updates_accounts P f s t" using assms by (simp add: updates_accounts_def)
  then show ?thesis using assms(7)
    by (auto simp: good_step_def intro: updates_accounts_inv updates_accounts_kept)
qed

lemma good_updates:
  "record_login_failure lower clk identity threshold dur s = Inr (r, t) \<Longrightarrow> good_step s t"
  "good_step s (record_login_success clk uid s)"
  "good_step s (snd (unlock_user uid s))"
  "update_password uid hash s = Inr t \<Longrightarrow> good_step s t"
  "good_step s (snd (set_disabled uid disabled s))"
  "set_service_access uid terms manage s = Inr (found, t) \<Longrightarrow> good_step s t"
  "good_step s (snd (set_admin_queue_priority uid enabled s))"
  "good_step s (snd (set_admin_mining_policy uid enabled s))"
  by (auto simp: account_ops Let_def failed_login_def unlocked_def admin_same_def same_terms_def
      split: if_splits option.splits intro!: good_step_update)

lemma good_profile:
  "update_own_profile lower uid username email allow s = Inr t \<Longrightarrow> good_step s t"
  by (auto simp: account_ops Let_def admin_same_def same_terms_def
      split: if_splits option.splits intro!: good_step_refl good_step_update)

subsection \<open>Inserting and deleting accounts\<close>

lemma insert_account_Inr:
  "insert_account lower r s = Inr (uid, t) \<longleftrightarrow>
     uid = next_account_id s \<and> account_clash lower (r\<lparr>a_id := uid\<rparr>) s = None \<and>
     t = s\<lparr>accounts := accounts s @ [r\<lparr>a_id := uid\<rparr>], next_account_id := next_account_id s + 1\<rparr>"
  by (auto simp: insert_account_def Let_def split: option.splits)

lemma insert_account_good: "insert_account lower r s = Inr (uid, t) \<Longrightarrow> good_step s t"
  unfolding good_step_def insert_account_Inr accounts_inv_def admins_kept_def
  by (force simp: unique_key_append invite_inv_def uses_of_def intro: admin_same_refl)

lemma remove_accounts_good:
  assumes "\<And>a. P a \<Longrightarrow> a_role a \<noteq> Admin"
  shows "good_step s (remove_accounts P s)"
proof -
  let ?t = "remove_accounts P s"
  let ?unlink = "\<lambda>i. i\<lparr>i_created_by := None\<rparr>"
  have fields: "accounts ?t = sql_delete P (accounts s)" "next_account_id ?t = next_account_id s"
    "next_invite_id ?t = next_invite_id s"
    by (simp_all add: remove_accounts_def Let_def)
  obtain Q where inv: "invites ?t = sql_update Q ?unlink (invites s)"
    by (simp add: remove_accounts_def Let_def)
  obtain R where uses: "invite_uses ?t = sql_delete R (invite_uses s)"
    by (simp add: remove_accounts_def Let_def)
  have less: "uses_of iid ?t \<le> uses_of iid s" for iid
    by (simp add: uses_of_def uses sql_count_delete)
  have "invite_inv ?t j" if "j \<in> set (invites ?t)" "\<forall>i\<in>set (invites s). invite_inv s i" for j
  proof -
    from that(1)[unfolded inv set_sql_update] obtain i
      where i: "i \<in> set (invites s)" "j = (if Q i then ?unlink i else i)" by blast
    with that(2) have "invite_inv s i" by blast
    then show ?thesis using less[of "i_id i"] fields(3) i(2) by (auto simp: invite_inv_def)
  qed
  then have "accounts_inv s \<longrightarrow> accounts_inv ?t"
    by (auto simp: accounts_inv_def fields inv uses unique_key_delete unique_key_update)
  moreover have "admins_kept s ?t"
    using assms by (auto simp: admins_kept_def fields intro: admin_same_refl)
  ultimately show ?thesis by (simp add: good_step_def)
qed

lemma good_deletes:
  "good_step s (snd (delete_user uid username s))"
  "good_step s (snd (delete_expired_temporary_users clk s))"
  by (auto simp: delete_user_def delete_expired_temporary_users_def Let_def intro!: remove_accounts_good)

lemma good_bootstrap: "ensure_bootstrap_admin lower clk username hash s = Inr t \<Longrightarrow> good_step s t"
  by (auto simp: ensure_bootstrap_admin_def Let_def split: if_splits sum.splits prod.splits
      intro: good_step_refl insert_account_good)

subsection \<open>Invitations\<close>

lemma invite_steps_kept: "accounts t = accounts s \<Longrightarrow> admins_kept s t"
  using admins_kept_refl[of s] by (simp add: admins_kept_def)

lemma accounts_invI:
  assumes "unique_key a_id (accounts db)" "\<forall>a\<in>set (accounts db). a_id a < next_account_id db"
    "unique_key i_id (invites db)" "unique_key i_token_hash (invites db)"
    "\<And>i. i \<in> set (invites db) \<Longrightarrow> invite_inv db i"
    "\<And>u. u \<in> set (invite_uses db) \<Longrightarrow> iu_invite_id u < next_invite_id db"
  shows "accounts_inv db"
  using assms by (simp add: accounts_inv_def)

lemma no_uses_yet: "accounts_inv s \<Longrightarrow> uses_of (next_invite_id s) s = 0"
  by (force simp: uses_of_def sql_count_0 accounts_inv_def)

lemma appended_invite_inv:
  assumes inv: "accounts_inv s" and i: "invite_inv s i" "i_id i \<notin> i_id ` set (invites s)"
    "i_token_hash i \<notin> i_token_hash ` set (invites s)"
    and t: "accounts t = accounts s" "next_account_id t = next_account_id s"
    "invites t = invites s @ [i]" "invite_uses t = invite_uses s"
    "next_invite_id s \<le> next_invite_id t"
  shows "accounts_inv t"
proof (rule accounts_invI)
  note old = inv[unfolded accounts_inv_def]
  show "unique_key a_id (accounts t)" "\<forall>a\<in>set (accounts t). a_id a < next_account_id t"
    using old t(1,2) by simp_all
  show "unique_key i_id (invites t)" "unique_key i_token_hash (invites t)"
    using old i t(3) by (simp_all add: unique_key_append)
  show "invite_inv t k" if "k \<in> set (invites t)" for k
  proof -
    have "invite_inv s k" using that old i(1) by (auto simp: t(3))
    with t(4,5) show ?thesis by (auto simp: invite_inv_def uses_of_def)
  qed
  show "iu_invite_id u < next_invite_id t" if "u \<in> set (invite_uses t)" for u
    using old that t(4,5) by (auto intro: order_less_le_trans)
qed

lemma good_create_invite:
  assumes "create_invite clk p s = Inr (iid, t)"
  shows "good_step s t"
proof -
  obtain i where i: "invite_row_ok i" "i_used_count i = 0" "i_id i = next_invite_id s"
    "\<forall>k\<in>set (invites s). i_token_hash k \<noteq> i_token_hash i"
    and t: "t = s\<lparr>invites := invites s @ [i], next_invite_id := next_invite_id s + 1\<rparr>"
    using assms by (auto simp: create_invite_def Let_def sql_exists_iff split: if_splits)
  have "accounts_inv t" if inv: "accounts_inv s"
  proof -
    define s1 where "s1 = s\<lparr>next_invite_id := next_invite_id s + 1\<rparr>"
    have "accounts_inv s1" using inv
      by (force simp: s1_def accounts_inv_def invite_inv_def uses_of_def)
    moreover have "invite_inv s1 i"
      using i(1-3) no_uses_yet[OF inv] by (simp add: s1_def invite_inv_def invite_row_ok_def uses_of_def)
    moreover have "i_id i \<notin> i_id ` set (invites s1)"
      using inv i(3) by (auto simp: s1_def accounts_inv_def invite_inv_def)
    moreover have "i_token_hash i \<notin> i_token_hash ` set (invites s1)"
      using i(4) by (auto simp: s1_def)
    ultimately show ?thesis by (rule appended_invite_inv) (simp_all add: s1_def t)
  qed
  moreover have "admins_kept s t" by (simp add: t invite_steps_kept)
  ultimately show ?thesis by (simp add: good_step_def)
qed

lemma invite_inv_invites [simp]: "invite_inv (s\<lparr>invites := xs\<rparr>) i = invite_inv s i"
  by (simp add: invite_inv_def uses_of_def)

lemma good_revoke_invite: "good_step s (snd (set_invite_revoked iid revoked s))"
proof -
  let ?t = "snd (set_invite_revoked iid revoked s)"
  have flag: "invite_inv s (i\<lparr>i_revoked := revoked\<rparr>) \<longleftrightarrow> invite_inv s i" for i
    by (simp add: invite_inv_def)
  have "accounts_inv ?t" if inv: "accounts_inv s"
  proof (rule accounts_invI)
    note old = inv[unfolded accounts_inv_def]
    show "invite_inv ?t i" if "i \<in> set (invites ?t)" for i
      using that old by (auto simp: flag set_invite_revoked_def set_sql_update)
  qed (use inv in \<open>auto simp: accounts_inv_def set_invite_revoked_def unique_key_update\<close>)
  then show ?thesis by (simp add: good_step_def set_invite_revoked_def invite_steps_kept)
qed

lemma good_delete_invite: "good_step s (snd (delete_invite iid s))"
proof -
  let ?t = "snd (delete_invite iid s)"
  have "uses_of k ?t \<le> uses_of k s" for k
    by (simp add: delete_invite_def uses_of_def sql_count_delete)
  then have "invite_inv ?t i" if "invite_inv s i" for i
    using that by (simp add: invite_inv_def delete_invite_def) (meson of_nat_mono order_trans)
  then show ?thesis
    by (auto simp: good_step_def accounts_inv_def delete_invite_def unique_key_delete invite_steps_kept)
qed

lemma open_token: "invite_open clk h i \<Longrightarrow> i_token_hash i = h"
  by (simp add: invite_open_def)

lemma register_Inr:
  assumes "register_from_invite lower clk p s = Inr ((uid, iid), t)"
  obtains i where "i \<in> set (invites s)" "invite_open clk (rp_token_hash p) i" "iid = i_id i"
    "uid = next_account_id s"
    "account_clash lower ((registered_row clk p i)\<lparr>a_id := uid\<rparr>) s = None"
    "accounts t = accounts s @ [(registered_row clk p i)\<lparr>a_id := uid\<rparr>]"
    "next_account_id t = next_account_id s + 1"
    "invites t = sql_update (invite_open clk (rp_token_hash p))
        (\<lambda>i. i\<lparr>i_used_count := i_used_count i + 1\<rparr>) (invites s)"
    "next_invite_id t = next_invite_id s"
    "invite_uses t = invite_uses s @ [\<lparr>iu_invite_id = i_id i, iu_user_id = uid, iu_ip = rp_ip p,
        iu_used_at = tx_now clk\<rparr>]"
    "sessions t = sessions s"
proof -
  obtain i where i: "sql_find (invite_open clk (rp_token_hash p)) (invites s) = Some i"
    using assms by (auto simp: register_from_invite_def split: option.splits)
  have clash: "account_clash lower a (s\<lparr>invites := xs\<rparr>) = account_clash lower a s" for a xs
    by (simp add: account_clash_def)
  show thesis
    by (rule that[of i]) (use assms sql_find_Some[OF i] in
      \<open>auto simp: register_from_invite_def i Let_def res_bind_Inr insert_account_Inr clash split: if_splits\<close>)
qed

lemma good_register:
  assumes "register_from_invite lower clk p s = Inr ((uid, iid), t)"
  shows "good_step s t"
proof -
  from assms obtain i where i: "i \<in> set (invites s)" "invite_open clk (rp_token_hash p) i"
    and acc: "accounts t = accounts s @ [(registered_row clk p i)\<lparr>a_id := next_account_id s\<rparr>]"
      "next_account_id t = next_account_id s + 1"
    and inv: "invites t = sql_update (invite_open clk (rp_token_hash p))
        (\<lambda>i. i\<lparr>i_used_count := i_used_count i + 1\<rparr>) (invites s)" "next_invite_id t = next_invite_id s"
    and uses: "invite_uses t = invite_uses s @ [\<lparr>iu_invite_id = i_id i, iu_user_id = next_account_id s,
        iu_ip = rp_ip p, iu_used_at = tx_now clk\<rparr>]"
    by (rule register_Inr) blast
  have count: "uses_of k t = uses_of k s + (if k = i_id i then 1 else 0)" for k
    by (simp add: uses_of_def uses sql_count_append)
  have "accounts_inv t" if s: "accounts_inv s"
  proof (rule accounts_invI)
    note old = s[unfolded accounts_inv_def]
    show "invite_inv t j" if "j \<in> set (invites t)" for j
    proof -
      from that[unfolded inv set_sql_update] obtain k where k: "k \<in> set (invites s)"
        "j = (if invite_open clk (rp_token_hash p) k then k\<lparr>i_used_count := i_used_count k + 1\<rparr> else k)"
        by blast
      have same: "k = i" if "i_id k = i_id i \<or> invite_open clk (rp_token_hash p) k"
      proof -
        have "i_id k = i_id i \<or> i_token_hash k = i_token_hash i"
          using that open_token i(2) by metis
        then show ?thesis using old k(1) i(1) by (blast dest: unique_keyD)
      qed
      have "invite_inv s k" using old k(1) by blast
      then show ?thesis using k(2) same i(2) count[of "i_id k"] inv(2)
        by (auto simp: invite_inv_def invite_open_def split: if_splits)
    qed
    show "unique_key a_id (accounts t)" using old by (force simp: acc unique_key_append)
    show "\<forall>a\<in>set (accounts t). a_id a < next_account_id t" using old by (force simp: acc)
    show "unique_key i_id (invites t)" "unique_key i_token_hash (invites t)"
      using old by (simp_all add: inv unique_key_update)
    show "iu_invite_id u < next_invite_id t" if "u \<in> set (invite_uses t)" for u
      using that old i(1) by (auto simp: uses inv invite_inv_def)
  qed
  moreover have "admins_kept s t"
    by (force simp: admins_kept_def acc intro: admin_same_refl)
  ultimately show ?thesis by (simp add: good_step_def)
qed

lemma account_step_good: "account_step s t \<Longrightarrow> good_step s t"
proof (induction rule: account_step.induct)
  case (as_register lower clk p s r t)
  then show ?case using good_register by (cases r) blast
next
  case (as_session clk uid hash expires agent ip s t)
  then show ?case using session_op_frames(1) good_step_sessions by blast
qed (metis good_bootstrap good_create_invite good_revoke_invite good_delete_invite good_updates
     good_profile good_deletes session_op_frames good_step_sessions snd_conv)+

interpretation accounts: evolution "\<lambda>s. s = empty_accounts" account_step accounts_inv admins_kept
proof
  show "accounts_inv s" if "s = empty_accounts" for s using that empty_accounts_inv by simp
  show "accounts_inv t" if "account_step s t" "accounts_inv s" for s t
    using account_step_good that by (simp add: good_step_def)
  show "admins_kept s t" if "account_step s t" "accounts_inv s" for s t
    using account_step_good that by (simp add: good_step_def)
qed (rule admins_kept_refl, erule (1) admins_kept_trans)

section \<open>Properties\<close>

text \<open>C26: An invitation is never used more often than it allows, in any run of the account store
  from the empty database: its counter stays within its maximum, and no more accounts are on
  record as registered through it than the counter says, whatever is deleted, revoked or
  registered in between.\<close>

theorem invite_never_oversold:
  assumes "steps account_step empty_accounts t" and "i \<in> set (invites t)"
  shows "i_used_count i \<le> i_max_uses i \<and>
     int (sql_count (\<lambda>u. iu_invite_id u = i_id i) (invite_uses t)) \<le> i_used_count i"
proof -
  have "accounts_inv t" using accounts.reachable_inv assms(1) by blast
  with assms(2) show ?thesis by (auto simp: accounts_inv_def invite_inv_def uses_of_def)
qed

definition ex_clk :: clock where
  "ex_clk = \<lparr>tx_now = 5000000, tx_clock = 5000000, go_now = 5000000, msk_day = 0\<rparr>"

definition ex_invite_params :: invite_params where
  "ex_invite_params = \<lparr>ip_token_hash = ''h'', ip_created_by = 1, ip_max_uses = 1,
     ip_expires_at = 9000000, ip_terms = bootstrap_terms, ip_lifetime = 60\<rparr>"

definition ex_register :: register_params where
  "ex_register = \<lparr>rp_token_hash = ''h'', rp_username = ''bob'', rp_email = [],
     rp_password_hash = ''x'', rp_ip = ''127.0.0.1''\<rparr>"

definition ok_db :: "account_db \<Rightarrow> 'e + 'a \<times> account_db \<Rightarrow> account_db" where
  "ok_db s r = (case r of Inl e \<Rightarrow> s | Inr (v, t) \<Rightarrow> t)"

definition ex_admin :: account_db where
  "ex_admin = (case ensure_bootstrap_admin id ex_clk ''root'' ''pw'' empty_accounts of
     Inl e \<Rightarrow> empty_accounts | Inr t \<Rightarrow> t)"

definition ex_invited :: account_db where
  "ex_invited = ok_db ex_admin (create_invite ex_clk ex_invite_params ex_admin)"

definition ex_joined :: account_db where
  "ex_joined = ok_db ex_invited (register_from_invite id ex_clk ex_register ex_invited)"

lemma ex_admin_made: "ensure_bootstrap_admin id ex_clk ''root'' ''pw'' empty_accounts = Inr ex_admin"
proof -
  have "is_ok (ensure_bootstrap_admin id ex_clk ''root'' ''pw'' empty_accounts)" by code_simp
  then show ?thesis by (auto simp: ex_admin_def is_ok_iff)
qed

lemma ex_invite_made: "create_invite ex_clk ex_invite_params ex_admin = Inr (1, ex_invited)"
proof -
  have "case create_invite ex_clk ex_invite_params ex_admin of Inl e \<Rightarrow> False | Inr (n, t) \<Rightarrow> n = 1"
    by code_simp
  then show ?thesis by (auto simp: ex_invited_def ok_db_def split: sum.splits)
qed

lemma ex_registered:
  "register_from_invite id ex_clk ex_register ex_invited = Inr ((2, 1), ex_joined)"
proof -
  have "case register_from_invite id ex_clk ex_register ex_invited of
      Inl e \<Rightarrow> False | Inr (n, t) \<Rightarrow> n = (2, 1)" by code_simp
  then show ?thesis by (auto simp: ex_joined_def ok_db_def split: sum.splits)
qed

lemma ex_run: "steps account_step empty_accounts ex_joined"
  using ex_admin_made ex_invite_made ex_registered
  by (meson steps_refl steps_snoc as_bootstrap as_create_invite as_register)

lemma invite_never_oversold_witness:
  "i_used_count (hd (invites ex_joined)) \<le> i_max_uses (hd (invites ex_joined)) \<and>
   i_used_count (hd (invites ex_joined)) = 1"
proof -
  have "invites ex_joined \<noteq> [] \<and> i_used_count (hd (invites ex_joined)) = 1" by code_simp
  then have "hd (invites ex_joined) \<in> set (invites ex_joined)"
    "i_used_count (hd (invites ex_joined)) = 1" using hd_in_set by blast+
  then show ?thesis using invite_never_oversold[OF ex_run] by blast
qed

text \<open>C27: Registration gives what the invitation grants and nothing else: it succeeds only through
  an invitation that is not revoked, not expired and not used up; the new account is a regular
  one with exactly the invitation's permissions and limits, expires after its lifetime, and
  shares its name with no other account; the invitation counts one more use, and no existing
  account changes.\<close>

theorem registration_grants_invite:
  assumes "register_from_invite lower clk p s = Inr ((uid, iid), t)" and "accounts_inv s"
  shows "\<exists>i\<in>set (invites s). \<exists>a. i_id i = iid \<and> i_token_hash i = rp_token_hash p \<and>
     \<not> i_revoked i \<and> tx_now clk < i_expires_at i \<and> i_used_count i < i_max_uses i \<and>
     accounts t = accounts s @ [a] \<and> a_id a = uid \<and> a_username a = rp_username p \<and>
     a_role a = Regular \<and> a_terms a = i_terms i \<and> \<not> a_manage_mining a \<and>
     a_expires_at a = (if 0 < i_lifetime i then Some (tx_now clk + usec (i_lifetime i)) else None) \<and>
     a_username a \<notin> a_username ` set (accounts s) \<and>
     i\<lparr>i_used_count := i_used_count i + 1\<rparr> \<in> set (invites t)"
  using assms(1)
proof (rule register_Inr)
  fix i
  assume i: "i \<in> set (invites s)" "invite_open clk (rp_token_hash p) i" "iid = i_id i"
    and uid: "uid = next_account_id s"
    and clash: "account_clash lower ((registered_row clk p i)\<lparr>a_id := uid\<rparr>) s = None"
    and acc: "accounts t = accounts s @ [(registered_row clk p i)\<lparr>a_id := uid\<rparr>]"
    and inv: "invites t = sql_update (invite_open clk (rp_token_hash p))
        (\<lambda>i. i\<lparr>i_used_count := i_used_count i + 1\<rparr>) (invites s)"
  have "\<forall>b\<in>set (accounts s). a_id b \<noteq> uid"
    using assms(2) uid by (auto simp: accounts_inv_def)
  then have "rp_username p \<notin> a_username ` set (accounts s)"
    using clash by (auto simp: account_clash_def sql_exists_iff registered_row_def split: if_splits)
  moreover have "i\<lparr>i_used_count := i_used_count i + 1\<rparr> \<in> set (invites t)"
    using i(1,2) by (force simp: inv set_sql_update)
  ultimately show ?thesis using i
    by (intro bexI[of _ i] exI[of _ "(registered_row clk p i)\<lparr>a_id := uid\<rparr>"])
       (auto simp: invite_open_def acc registered_row_def)
qed

lemma ex_invited_inv: "accounts_inv ex_invited"
  using account_step_good[OF as_create_invite[OF ex_invite_made]]
    account_step_good[OF as_bootstrap[OF ex_admin_made]] empty_accounts_inv
  by (simp add: good_step_def)

lemma registration_grants_invite_witness:
  "\<exists>a\<in>set (accounts ex_joined). a_username a = ''bob'' \<and> a_role a = Regular"
  using registration_grants_invite[OF ex_registered ex_invited_inv]
  by (auto simp: ex_register_def)



text \<open>Failed logins for one identity, one after the other.\<close>

fun fail_logins :: "(string \<Rightarrow> string) \<Rightarrow> string \<Rightarrow> int \<Rightarrow> int \<Rightarrow> clock list \<Rightarrow> account_db
    \<Rightarrow> account_error + account_db" where
  "fail_logins lower identity threshold dur [] s = Inr s"
| "fail_logins lower identity threshold dur (clk # clks) s =
     res_bind (record_login_failure lower clk identity threshold dur s)
       (\<lambda>(r, t). fail_logins lower identity threshold dur clks t)"

lemma failure_row:
  assumes "record_login_failure lower clk identity threshold dur s = Inr (r, t)"
    and "a \<in> set (accounts s)" "identity_matches lower identity a" "\<not> a_disabled a"
  shows "failed_login clk threshold dur a \<in> set (accounts t)"
  using assms by (force simp: record_login_failure_def Let_def set_sql_update split: option.splits if_splits)

text \<open>The lockout counts consecutive failures exactly.  Starting from a clean account, after
  fewer failed logins than the threshold the account is not locked; after as many as the
  threshold it is locked until the lock duration after the last of them.\<close>

theorem lockout_at_threshold:
  assumes "fail_logins lower identity threshold dur clks s = Inr t"
    and "a \<in> set (accounts s)" and "identity_matches lower identity a" and "\<not> a_disabled a"
    and "a_failed_count a = 0" and "a_locked_until a = None"
    and "clks \<noteq> []" and "int (length clks) \<le> threshold"
  shows "\<exists>b\<in>set (accounts t). a_id b = a_id a \<and> a_failed_count b = int (length clks) \<and>
     a_locked_until b = (if int (length clks) = threshold
       then Some (tx_now (last clks) + usec (dur_seconds dur)) else None)"
proof -
  have "\<exists>b\<in>set (accounts t). a_id b = a_id a \<and> a_failed_count b = n + int (length clks) \<and>
     a_locked_until b = (if n + int (length clks) = threshold
       then Some (tx_now (last clks) + usec (dur_seconds dur)) else None)"
    if "fail_logins lower identity threshold dur clks s = Inr t" "a \<in> set (accounts s)"
      "identity_matches lower identity a" "\<not> a_disabled a" "a_failed_count a = n"
      "a_locked_until a = None" "clks \<noteq> []" "n + int (length clks) \<le> threshold" for n a clks s
    using that
  proof (induction clks arbitrary: a n s)
    case (Cons clk clks)
    let ?b = "failed_login clk threshold dur a"
    obtain r u where u: "record_login_failure lower clk identity threshold dur s = Inr (r, u)"
      "fail_logins lower identity threshold dur clks u = Inr t"
      using Cons.prems(1) by (auto simp: res_bind_Inr)
    have b: "?b \<in> set (accounts u)" using failure_row[OF u(1)] Cons.prems by blast
    have row: "a_id ?b = a_id a" "a_failed_count ?b = n + 1"
      "a_locked_until ?b = (if threshold \<le> n + 1 then Some (tx_now clk + usec (dur_seconds dur)) else None)"
      "identity_matches lower identity ?b" "\<not> a_disabled ?b"
      using Cons.prems by (auto simp: failed_login_def identity_matches_def Let_def)
    show ?case
    proof (cases "clks = []")
      case True
      then show ?thesis using b row u(2) Cons.prems(8) by (intro bexI[of _ ?b]) auto
    next
      case False
      then have "a_locked_until ?b = None" using row(3) Cons.prems(8) by (cases clks) auto
      then show ?thesis
        using Cons.IH[OF u(2) b row(4,5,2)] False Cons.prems(8) row(1) by (auto simp: add.assoc)
    qed
  qed simp
  from this[of clks s a 0] assms show ?thesis by simp
qed

definition ex_bob_failed :: "account_error + account_db" where
  "ex_bob_failed = fail_logins id ''bob'' 2 (15 * second_ns) [ex_clk, ex_clk] ex_joined"

lemma lockout_at_threshold_witness:
  "case ex_bob_failed of Inl e \<Rightarrow> False
   | Inr t \<Rightarrow> \<exists>b\<in>set (accounts t). a_id b = 2 \<and> a_locked_until b = Some 20000000"
proof -
  have "is_ok ex_bob_failed" by code_simp
  then obtain t where t: "fail_logins id ''bob'' 2 (15 * second_ns) [ex_clk, ex_clk] ex_joined = Inr t"
    by (auto simp: ex_bob_failed_def is_ok_iff)
  have "list_ex (\<lambda>a. a_id a = 2 \<and> identity_matches id ''bob'' a \<and> \<not> a_disabled a \<and>
      a_failed_count a = 0 \<and> a_locked_until a = None) (accounts ex_joined)" by code_simp
  then obtain a where "a \<in> set (accounts ex_joined)" "a_id a = 2" "identity_matches id ''bob'' a"
    "\<not> a_disabled a" "a_failed_count a = 0" "a_locked_until a = None" by (auto simp: list_ex_iff)
  from lockout_at_threshold[OF t this(1,3,4,5,6)] this(2)
  show ?thesis unfolding ex_bob_failed_def t
    by (auto simp: ex_clk_def usec_def dur_seconds_def second_ns_def)
qed

text \<open>Sessions.\<close>

definition opens :: "clock \<Rightarrow> string \<Rightarrow> int \<Rightarrow> int \<Rightarrow> account_db \<Rightarrow> bool" where
  "opens clk token_hash idle uid db =
     (case user_by_session_hash clk token_hash idle db of Inl e \<Rightarrow> False | Inr a \<Rightarrow> a_id a = uid)"

lemma opens_session:
  assumes "opens clk h idle uid db"
  obtains s a where "s \<in> set (sessions db)" "s_user_id s = uid" "s_token_hash s = h"
    "session_live clk idle s" "a \<in> set (accounts db)" "a_id a = uid" "may_sign_in clk a"
proof -
  let ?P = "\<lambda>(s, a). s_token_hash s = h \<and> session_live clk idle s \<and> a_id a = s_user_id s \<and> may_sign_in clk a"
  obtain s a where f: "sql_find ?P (List.product (sessions db) (accounts db)) = Some (s, a)" "a_id a = uid"
    using assms by (auto simp: opens_def user_by_session_hash_def split: option.splits)
  show thesis using sql_find_Some[OF f(1)] f(2) by (intro that[of s a]) auto
qed

text \<open>Disabling a regular account signs it out for good: right after, no token opens a session
  of the account at any time, and enabling the account again brings no old session back.\<close>

theorem disabled_account_signed_out:
  assumes "set_disabled uid True s = ((True, n), t)"
  shows "\<not> opens clk token_hash idle uid t \<and>
     \<not> opens clk token_hash idle uid (snd (set_disabled uid False t)) \<and>
     int (sql_count (\<lambda>k. s_user_id k = uid) (sessions s)) = n"
proof -
  have t: "\<forall>k\<in>set (sessions t). s_user_id k \<noteq> uid"
    "n = int (sql_count (\<lambda>k. s_user_id k = uid) (sessions s))"
    using assms by (auto simp: set_disabled_def Let_def split: if_splits)
  have "sessions (snd (set_disabled uid False t)) = sessions t"
    by (simp add: set_disabled_def Let_def)
  with t show ?thesis by (auto elim!: opens_session)
qed

definition ex_session :: account_db where
  "ex_session = (case create_session ex_clk 2 ''t'' 90000000 [] [] ex_joined of
     Inl e \<Rightarrow> empty_accounts | Inr s \<Rightarrow> s)"

lemma disabled_account_signed_out_witness:
  "opens ex_clk ''t'' (60 * second_ns) 2 ex_session \<and>
   \<not> opens ex_clk ''t'' (60 * second_ns) 2 (snd (set_disabled 2 True ex_session))"
proof -
  have "fst (set_disabled 2 True ex_session) = (True, 1)" by code_simp
  then have "set_disabled 2 True ex_session = ((True, 1), snd (set_disabled 2 True ex_session))"
    by (metis prod.collapse)
  then have "\<not> opens ex_clk ''t'' (60 * second_ns) 2 (snd (set_disabled 2 True ex_session))"
    using disabled_account_signed_out by blast
  moreover have "opens ex_clk ''t'' (60 * second_ns) 2 ex_session" by code_simp
  ultimately show ?thesis by blast
qed

end
