(* ===== verification/LoraMessages.thy ===== *)
theory LoraMessages
  imports GoText
begin

text \<open>
  The Russian texts that \<open>store/lora_training.go\<close>, \<open>gateway/lora_training.go\<close> and
  \<open>gateway/lora_training_handoff.go\<close> write, and those of the caption jobs
  (\<open>store/lora_caption.go\<close>, \<open>gateway/lora_caption_worker.go\<close>), as the UTF-8 bytes of the source.
\<close>

text \<open>The stage of a queued training.\<close>

definition lora_stage_queued :: string where
  "lora_stage_queued =
     utf8_text
      [1042, 32, 1086, 1095, 1077, 1088, 1077, 1076, 1080]"

text \<open>The stage of a cancelled training.\<close>

definition lora_stage_cancelled :: string where
  "lora_stage_cancelled =
     utf8_text
      [1054, 1090, 1084, 1077, 1085, 1077, 1085, 1086]"

text \<open>The stage of a claimed training.\<close>

definition lora_stage_upload :: string where
  "lora_stage_upload =
     utf8_text
      [1055, 1077, 1088, 1077, 1076, 1072, 1105, 1084, 32, 1076, 1072, 1090, 1072, 1089, 1077,
       1090, 32, 1072, 1075, 1077, 1085, 1090, 1091]"

text \<open>The message of a claimed training.\<close>

definition lora_msg_upload :: string where
  "lora_msg_upload =
     utf8_text
      [1055, 1086, 1076, 1075, 1086, 1090, 1072, 1074, 1083, 1080, 1074, 1072, 1077, 1084, 32,
       1079, 1072, 1097, 1080, 1097, 1105, 1085, 1085, 1091, 1102, 32, 1087, 1077, 1088, 1077,
       1076, 1072, 1095, 1091, 32, 1092, 1072, 1081, 1083, 1086, 1074, 46]"

text \<open>Cancelled while it was being handed over.\<close>

definition lora_msg_requeue_cancelled :: string where
  "lora_msg_requeue_cancelled =
     utf8_text
      [1047, 1072, 1076, 1072, 1085, 1080, 1077, 32, 1086, 1090, 1084, 1077, 1085, 1077, 1085,
       1086, 32, 1074, 1086, 32, 1074, 1088, 1077, 1084, 1103, 32, 1087, 1077, 1088, 1077,
       1076, 1072, 1095, 1080, 32, 1076, 1072, 1090, 1072, 1089, 1077, 1090, 1072, 46]"

text \<open>The outcome of the hand-over is being checked.\<close>

definition lora_stage_handoff :: string where
  "lora_stage_handoff =
     utf8_text
      [1055, 1088, 1086, 1074, 1077, 1088, 1103, 1077, 1084, 32, 1087, 1077, 1088, 1077, 1076,
       1072, 1095, 1091]"

text \<open>A running training is being cancelled.\<close>

definition lora_stage_cancelling :: string where
  "lora_stage_cancelling =
     utf8_text
      [1054, 1090, 1084, 1077, 1085, 1103, 1077, 1084, 32, 1086, 1073, 1091, 1095, 1077, 1085,
       1080, 1077]"

text \<open>Cancelled in the queue.\<close>

definition lora_msg_cancelled_early :: string where
  "lora_msg_cancelled_early =
     utf8_text
      [1047, 1072, 1076, 1072, 1085, 1080, 1077, 32, 1086, 1090, 1084, 1077, 1085, 1077, 1085,
       1086, 32, 1076, 1086, 32, 1079, 1072, 1087, 1091, 1089, 1082, 1072, 46]"

text \<open>The cancellation is on its way to the agent.\<close>

definition lora_msg_cancel_sent :: string where
  "lora_msg_cancel_sent =
     utf8_text
      [1054, 1090, 1087, 1088, 1072, 1074, 1083, 1103, 1077, 1084, 32, 1086, 1090, 1084, 1077,
       1085, 1091, 32, 1072, 1075, 1077, 1085, 1090, 1091, 46]"

text \<open>Requeued after a restart.\<close>

definition lora_msg_restart_queued :: string where
  "lora_msg_restart_queued =
     utf8_text
      [71, 97, 116, 101, 119, 97, 121, 32, 1087, 1077, 1088, 1077, 1079, 1072, 1087, 1091,
       1097, 1077, 1085, 32, 1076, 1086, 32, 1087, 1077, 1088, 1077, 1076, 1072, 1095, 1080,
       32, 1076, 1072, 1090, 1072, 1089, 1077, 1090, 1072, 46, 32, 1047, 1072, 1076, 1072,
       1085, 1080, 1077, 32, 1087, 1086, 1089, 1090, 1072, 1074, 1083, 1077, 1085, 1086, 32,
       1074, 32, 1086, 1095, 1077, 1088, 1077, 1076, 1100, 32, 1087, 1086, 1074, 1090, 1086,
       1088, 1085, 1086, 46]"

text \<open>Cancelled after a restart.\<close>

definition lora_msg_restart_cancelled :: string where
  "lora_msg_restart_cancelled =
     utf8_text
      [1054, 1090, 1084, 1077, 1085, 1072, 32, 1079, 1072, 1074, 1077, 1088, 1096, 1077, 1085,
       1072, 32, 1087, 1086, 1089, 1083, 1077, 32, 1087, 1077, 1088, 1077, 1079, 1072, 1087,
       1091, 1089, 1082, 1072, 32, 71, 97, 116, 101, 119, 97, 121, 46]"

text \<open>The outcome of a hand-over is unknown.\<close>

definition handoff_msg_checking :: string where
  "handoff_msg_checking =
     utf8_text
      [1055, 1088, 1086, 1074, 1077, 1088, 1103, 1077, 1084, 32, 1080, 1089, 1093, 1086, 1076,
       32, 1087, 1077, 1088, 1077, 1076, 1072, 1095, 1080, 46, 32, 1047, 1072, 1074, 1077,
       1088, 1096, 1077, 1085, 1080, 1077, 32, 1088, 1072, 1073, 1086, 1090, 1099, 32, 1072,
       1075, 1077, 1085, 1090, 1072, 32, 1087, 1086, 1082, 1072, 32, 1085, 1077, 32, 1087,
       1086, 1076, 1090, 1074, 1077, 1088, 1078, 1076, 1077, 1085, 1086, 59, 32, 1084, 1072,
       1081, 1085, 1080, 1085, 1075, 32, 1086, 1089, 1090, 1072, 1105, 1090, 1089, 1103, 32,
       1085, 1072, 32, 1087, 1072, 1091, 1079, 1077, 46]"

text \<open>Cancelled before the hand-over.\<close>

definition lora_msg_not_started :: string where
  "lora_msg_not_started =
     utf8_text
      [1047, 1072, 1076, 1072, 1085, 1080, 1077, 32, 1086, 1090, 1084, 1077, 1085, 1077, 1085,
       1086, 32, 1076, 1086, 32, 1079, 1072, 1087, 1091, 1089, 1082, 1072, 32, 1083, 1086,
       1082, 1072, 1083, 1100, 1085, 1086, 1075, 1086, 32, 1087, 1088, 1086, 1094, 1077, 1089,
       1089, 1072, 46]"

text \<open>The agent does not confirm the process.\<close>

definition lora_stage_unconfirmed :: string where
  "lora_stage_unconfirmed =
     utf8_text
      [1055, 1088, 1086, 1074, 1077, 1088, 1103, 1077, 1084, 32, 1087, 1088, 1086, 1094, 1077,
       1089, 1089]"

text \<open>The agent does not confirm the process.\<close>

definition lora_msg_unconfirmed :: string where
  "lora_msg_unconfirmed =
     utf8_text
      [1040, 1075, 1077, 1085, 1090, 32, 1085, 1077, 32, 1087, 1086, 1076, 1090, 1074, 1077,
       1088, 1076, 1080, 1083, 32, 1089, 1086, 1089, 1090, 1086, 1103, 1085, 1080, 1077, 32,
       1087, 1088, 1077, 1078, 1085, 1077, 1075, 1086, 32, 1087, 1088, 1086, 1094, 1077, 1089,
       1089, 1072, 46, 32, 1055, 1072, 1091, 1079, 1072, 32, 1084, 1072, 1081, 1085, 1080,
       1085, 1075, 1072, 32, 1089, 1086, 1093, 1088, 1072, 1085, 1103, 1077, 1090, 1089, 1103,
       46]"

text \<open>The dataset cannot be opened.\<close>

definition lora_stage_no_dataset :: string where
  "lora_stage_no_dataset =
     utf8_text
      [1054, 1096, 1080, 1073, 1082, 1072, 32, 1076, 1072, 1090, 1072, 1089, 1077, 1090, 1072]"

text \<open>The dataset cannot be opened.\<close>

definition lora_msg_no_dataset :: string where
  "lora_msg_no_dataset =
     utf8_text
      [1048, 1089, 1093, 1086, 1076, 1085, 1099, 1081, 32, 1076, 1072, 1090, 1072, 1089, 1077,
       1090, 32, 1085, 1077, 32, 1085, 1072, 1081, 1076, 1077, 1085, 46]"

text \<open>The owner is gone.\<close>

definition lora_stage_no_user :: string where
  "lora_stage_no_user =
     utf8_text
      [1053, 1077, 1090, 32, 1087, 1086, 1083, 1100, 1079, 1086, 1074, 1072, 1090, 1077, 1083,
       1103]"

text \<open>The owner is gone.\<close>

definition lora_msg_no_user :: string where
  "lora_msg_no_user =
     utf8_text
      [1042, 1083, 1072, 1076, 1077, 1083, 1077, 1094, 32, 1079, 1072, 1076, 1072, 1085, 1080,
       1103, 32, 1073, 1086, 1083, 1100, 1096, 1077, 32, 1085, 1077, 32, 1089, 1091, 1097,
       1077, 1089, 1090, 1074, 1091, 1077, 1090, 46]"

text \<open>The miner could not be paused.\<close>

definition lora_msg_waiting_gpu :: string where
  "lora_msg_waiting_gpu =
     utf8_text
      [1046, 1076, 1105, 1084, 32, 1086, 1089, 1074, 1086, 1073, 1086, 1078, 1076, 1077, 1085,
       1080, 1103, 32, 71, 80, 85, 58, 32]"

text \<open>The hand-over could not be recorded.\<close>

definition lora_msg_retry :: string where
  "lora_msg_retry =
     utf8_text
      [1055, 1086, 1074, 1090, 1086, 1088, 1103, 1077, 1084, 32, 1087, 1086, 1076, 1075, 1086,
       1090, 1086, 1074, 1082, 1091, 32, 1087, 1077, 1088, 1077, 1076, 1072, 1095, 1080, 46]"

text \<open>The agent did not answer the hand-over.\<close>

definition handoff_msg_unanswered :: string where
  "handoff_msg_unanswered =
     utf8_text
      [1054, 1090, 1074, 1077, 1090, 32, 1072, 1075, 1077, 1085, 1090, 1072, 32, 1085, 1077,
       32, 1087, 1086, 1076, 1090, 1074, 1077, 1088, 1078, 1076, 1105, 1085, 46, 32, 1055,
       1088, 1086, 1074, 1077, 1088, 1103, 1077, 1084, 32, 1087, 1088, 1080, 1085, 1103, 1090,
       1080, 1077, 32, 1079, 1072, 1076, 1072, 1085, 1080, 1103, 59, 32, 1087, 1072, 1091,
       1079, 1072, 32, 1084, 1072, 1081, 1085, 1080, 1085, 1075, 1072, 32, 1089, 1086, 1093,
       1088, 1072, 1085, 1103, 1077, 1090, 1089, 1103, 46]"

text \<open>The agent has the training.\<close>

definition handoff_msg_found :: string where
  "handoff_msg_found =
     utf8_text
      [1042, 1086, 1089, 1089, 1090, 1072, 1085, 1086, 1074, 1083, 1077, 1085, 1072, 32, 1089,
       1074, 1103, 1079, 1100, 32, 1089, 32, 1087, 1088, 1080, 1085, 1103, 1090, 1099, 1084,
       32, 1079, 1072, 1076, 1072, 1085, 1080, 1077, 1084, 46]"

text \<open>The fence is confirmed.\<close>

definition handoff_stage_settled :: string where
  "handoff_stage_settled =
     utf8_text
      [1055, 1088, 1086, 1074, 1077, 1088, 1082, 1072, 32, 1079, 1072, 1074, 1077, 1088, 1096,
       1077, 1085, 1072]"

text \<open>The fence is confirmed.\<close>

definition handoff_msg_settled :: string where
  "handoff_msg_settled =
     utf8_text
      [1040, 1075, 1077, 1085, 1090, 32, 1087, 1086, 1076, 1090, 1074, 1077, 1088, 1076, 1080,
       1083, 32, 1080, 1089, 1093, 1086, 1076, 32, 1087, 1077, 1088, 1077, 1076, 1072, 1095,
       1080, 46]"

text \<open>The hand-over did not happen.\<close>

definition handoff_msg_failed :: string where
  "handoff_msg_failed =
     utf8_text
      [1055, 1077, 1088, 1077, 1076, 1072, 1095, 1072, 32, 1072, 1075, 1077, 1085, 1090, 1091,
       32, 1085, 1077, 32, 1079, 1072, 1074, 1077, 1088, 1096, 1080, 1083, 1072, 1089, 1100,
       46, 32, 1055, 1086, 1079, 1076, 1085, 1080, 1081, 32, 1079, 1072, 1087, 1091, 1089,
       1082, 32, 1079, 1072, 1073, 1083, 1086, 1082, 1080, 1088, 1086, 1074, 1072, 1085, 59,
       32, 1086, 1073, 1091, 1095, 1077, 1085, 1080, 1077, 32, 1084, 1086, 1078, 1085, 1086,
       32, 1079, 1072, 1087, 1091, 1089, 1090, 1080, 1090, 1100, 32, 1079, 1072, 1085, 1086,
       1074, 1086, 32, 1080, 1079, 32, 1089, 1086, 1093, 1088, 1072, 1085, 1105, 1085, 1085,
       1086, 1075, 1086, 32, 1076, 1072, 1090, 1072, 1089, 1077, 1090, 1072, 46]"

text \<open>The cancellation is confirmed.\<close>

definition handoff_msg_cancelled :: string where
  "handoff_msg_cancelled =
     utf8_text
      [1054, 1090, 1084, 1077, 1085, 1072, 32, 1087, 1086, 1076, 1090, 1074, 1077, 1088, 1078,
       1076, 1077, 1085, 1072, 32, 1072, 1075, 1077, 1085, 1090, 1086, 1084, 59, 32, 1087,
       1086, 1079, 1076, 1085, 1080, 1081, 32, 1079, 1072, 1087, 1091, 1089, 1082, 32, 1079,
       1072, 1073, 1083, 1086, 1082, 1080, 1088, 1086, 1074, 1072, 1085, 46]"

text \<open>The label of a failed training.\<close>

definition lora_label_failed :: string where
  "lora_label_failed =
     utf8_text
      [1054, 1096, 1080, 1073, 1082, 1072]"

text \<open>The label of a completed training.\<close>

definition lora_label_completed :: string where
  "lora_label_completed =
     utf8_text
      [1043, 1086, 1090, 1086, 1074, 1086]"

text \<open>The status of a new caption job.\<close>

definition caption_status_queued :: string where
  "caption_status_queued =
     utf8_text
      [1054, 1087, 1080, 1089, 1072, 1085, 1080, 1077, 32, 1087, 1086, 1089, 1090, 1072, 1074,
       1083, 1077, 1085, 1086, 32, 1074, 32, 1086, 1095, 1077, 1088, 1077, 1076, 1100]"

text \<open>The status after a recovery.\<close>

definition caption_status_recovered :: string where
  "caption_status_recovered =
     utf8_text
      [1042, 1086, 1089, 1089, 1090, 1072, 1085, 1086, 1074, 1083, 1077, 1085, 1086, 32, 1087,
       1086, 1089, 1083, 1077, 32, 1086, 1089, 1090, 1072, 1085, 1086, 1074, 1082, 1080, 32,
       1086, 1073, 1088, 1072, 1073, 1086, 1090, 1095, 1080, 1082, 1072]"

text \<open>The error of a job that was interrupted too often.\<close>

definition caption_err_interrupted :: string where
  "caption_err_interrupted =
     utf8_text
      [1054, 1073, 1088, 1072, 1073, 1086, 1090, 1095, 1080, 1082, 32, 1073, 1099, 1083, 32,
       1087, 1088, 1077, 1088, 1074, 1072, 1085, 32, 1085, 1077, 1089, 1082, 1086, 1083, 1100,
       1082, 1086, 32, 1088, 1072, 1079, 59, 32, 1087, 1086, 1074, 1090, 1086, 1088, 1080,
       1090, 1077, 32, 1079, 1072, 1076, 1072, 1085, 1080, 1077]"

text \<open>The status of a claimed job.\<close>

definition caption_status_running :: string where
  "caption_status_running =
     utf8_text
      [1054, 1078, 1080, 1076, 1072, 1077, 1084, 32, 118, 105, 115, 105, 111, 110, 45, 1084,
       1086, 1076, 1077, 1083, 1100]"

text \<open>The status of a job that was cancelled while it ran.\<close>

definition caption_status_cancelled :: string where
  "caption_status_cancelled =
     utf8_text
      [1054, 1087, 1080, 1089, 1072, 1085, 1080, 1077, 32, 1086, 1090, 1084, 1077, 1085, 1077,
       1085, 1086]"

text \<open>The status of a job whose cancellation was asked for.\<close>

definition caption_status_cancelling :: string where
  "caption_status_cancelling =
     utf8_text
      [1054, 1090, 1084, 1077, 1085, 1072, 32, 1086, 1087, 1080, 1089, 1072, 1085, 1080, 1103]"

text \<open>The status of a job that is tried again.\<close>

definition caption_status_retry :: string where
  "caption_status_retry =
     utf8_text
      [1055, 1086, 1074, 1090, 1086, 1088, 32, 1086, 1087, 1080, 1089, 1072, 1085, 1080, 1103,
       32, 1087, 1086, 1089, 1090, 1072, 1074, 1083, 1077, 1085, 32, 1074, 32, 1086, 1095,
       1077, 1088, 1077, 1076, 1100]"

text \<open>The report of a job that is done.\<close>

definition caption_msg_done :: string where
  "caption_msg_done =
     utf8_text
      [1054, 1087, 1080, 1089, 1072, 1085, 1080, 1077, 32, 1075, 1086, 1090, 1086, 1074, 1086]"

text \<open>The report of a job that failed.\<close>

definition caption_msg_failed :: string where
  "caption_msg_failed =
     utf8_text
      [1053, 1077, 32, 1091, 1076, 1072, 1083, 1086, 1089, 1100, 32, 1087, 1086, 1076, 1075,
       1086, 1090, 1086, 1074, 1080, 1090, 1100, 32, 1086, 1087, 1080, 1089, 1072, 1085, 1080,
       1077, 46, 32, 1055, 1086, 1074, 1090, 1086, 1088, 1080, 1090, 1077, 32, 1101, 1090,
       1086, 1090, 32, 1082, 1072, 1076, 1088, 46]"

text \<open>The report of a job that goes back to the queue.\<close>

definition caption_msg_again :: string where
  "caption_msg_again =
     utf8_text
      [1057, 1074, 1103, 1079, 1100, 32, 1089, 32, 1072, 1089, 1089, 1080, 1089, 1090, 1077,
       1085, 1090, 1086, 1084, 32, 1087, 1088, 1077, 1088, 1074, 1072, 1085, 1072, 46, 32,
       1047, 1072, 1076, 1072, 1085, 1080, 1077, 32, 1073, 1091, 1076, 1077, 1090, 32, 1087,
       1086, 1074, 1090, 1086, 1088, 1077, 1085, 1086, 46]"

end
