(* ===== verification/LoraTraining.thy ===== *)
theory LoraTraining
  imports Complex_Main Dispatch LoraMessages
begin

text \<open>
  The queue of LoRA trainings: \<open>store/lora_training.go\<close> and \<open>domain/lora_training.go\<close> on the
  table \<open>lora_training_jobs\<close>.  A training is handed to an agent on the machine with the GPU;
  the row keeps what a restart needs to know about the hand-over.  The learning rate, a
  finite float, is a rational number.
\<close>

section \<open>States, rows and errors\<close>

datatype lora_state =
    LoraQueued | LoraUploading | LoraPreparing | LoraCaching | LoraRunning | LoraInstalling
  | LoraCompleted | LoraFailed | LoraCancelled | LoraOther string

fun lora_state_valid :: "lora_state \<Rightarrow> bool" where
  "lora_state_valid (LoraOther s) = False"
| "lora_state_valid st = True"

definition lora_terminal :: "lora_state \<Rightarrow> bool" where
  "lora_terminal st = (st = LoraCompleted \<or> st = LoraFailed \<or> st = LoraCancelled)"

definition lora_cancellable :: "lora_state \<Rightarrow> bool" where
  "lora_cancellable st = (lora_state_valid st \<and> \<not> lora_terminal st)"

text \<open>\<open>state IN ('uploading','preparing','caching','running','installing')\<close>\<close>

definition with_agent :: "lora_state \<Rightarrow> bool" where
  "with_agent st = (st \<in> {LoraUploading, LoraPreparing, LoraCaching, LoraRunning, LoraInstalling})"

datatype lora_error =
  LoraNoRows | LoraConstraint | LoraAlreadyActive | LoraDatasetAsset | LoraInvalidState

record lora_params =
  lp_public_id :: string
  lp_user_id :: int
  lp_username :: string
  lp_request_id :: string
  lp_profile_id :: string
  lp_family :: string
  lp_base_model :: string
  lp_name :: string
  lp_output_name :: string
  lp_trigger_word :: string
  lp_concept_type :: string
  lp_preset :: string
  lp_resolution :: int
  lp_max_train_steps :: int
  lp_network_dim :: int
  lp_network_alpha :: int
  lp_learning_rate :: rat
  lp_seed :: int
  lp_sample_count :: int
  lp_dataset_bytes :: int
  lp_dataset_path :: string
  lp_snapshot_id :: string
  lp_snapshot_hash :: string

text \<open>A row keeps the parameters of its creation in \<open>lt_params\<close>; of these only the path of the
  dataset is changed later, and has a column of its own here, as has the owner, who may be
  deleted.\<close>

record lora_row =
  lt_id :: int
  lt_params :: lora_params
  lt_user_id :: "int option"
  lt_dataset_path :: string
  lt_state :: lora_state
  lt_stage :: string
  lt_progress :: int
  lt_message :: string
  lt_error_message :: string
  lt_agent_job_id :: string
  lt_submission_started_at :: "int option"
  lt_artifact_name :: string
  lt_artifact_bytes :: int
  lt_cancel_requested_at :: "int option"
  lt_started_at :: "int option"
  lt_finished_at :: "int option"
  lt_created_at :: int
  lt_updated_at :: int

abbreviation lt_public_id :: "lora_row \<Rightarrow> string" where
  "lt_public_id r \<equiv> lp_public_id (lt_params r)"

record lora_db =
  lora_jobs :: "lora_row list"
  next_lora_id :: int
  lora_users :: "(int \<times> bool) list"
  lora_snapshots :: "(string \<times> int \<times> string) list"

section \<open>Column checks and indexes\<close>

definition output_name_ok :: "string \<Rightarrow> bool" where
  "output_name_ok s = (3 \<le> length s \<and> length s \<le> 64 \<and> list_all slug_char s \<and>
     hd s \<noteq> CHR ''_'' \<and> hd s \<noteq> CHR ''-'')"

definition lora_params_ok :: "lora_params \<Rightarrow> bool" where
  "lora_params_ok p =
     (slug_text (lp_public_id p) \<and> pg_text 128 (lp_username p) \<and> slug_text (lp_request_id p) \<and>
      text_between 1 96 (lp_profile_id p) \<and> lp_family p \<in> {''krea2'', ''flux2-klein''} \<and>
      text_between 1 256 (lp_base_model p) \<and> text_between 3 80 (lp_name p) \<and>
      output_name_ok (lp_output_name p) \<and> text_between 2 80 (lp_trigger_word p) \<and>
      lp_concept_type p \<in> {''character'', ''style'', ''object'', ''product''} \<and>
      lp_preset p \<in> {''quick'', ''balanced'', ''detailed''} \<and>
      lp_resolution p \<in> {512, 768, 1024} \<and>
      100 \<le> lp_max_train_steps p \<and> lp_max_train_steps p \<le> 5000 \<and>
      lp_network_dim p \<in> {8, 16, 32, 64} \<and>
      1 \<le> lp_network_alpha p \<and> lp_network_alpha p \<le> 64 \<and>
      1 / 1000000 \<le> lp_learning_rate p \<and> lp_learning_rate p \<le> 1 / 1000 \<and>
      0 \<le> lp_seed p \<and> 5 \<le> lp_sample_count p \<and> lp_sample_count p \<le> 100 \<and>
      1 \<le> lp_dataset_bytes p \<and> lp_dataset_bytes p \<le> 536870912 \<and>
      pg_text (length (lp_snapshot_hash p)) (lp_snapshot_hash p))"

definition lora_row_ok :: "lora_row \<Rightarrow> bool" where
  "lora_row_ok r =
     (lora_params_ok (lt_params r) \<and> pg_text 1024 (lt_dataset_path r) \<and>
      lora_state_valid (lt_state r) \<and> pg_text 120 (lt_stage r) \<and>
      0 \<le> lt_progress r \<and> lt_progress r \<le> 100 \<and> pg_text 1000 (lt_message r) \<and>
      pg_text 2000 (lt_error_message r) \<and> pg_text 96 (lt_agent_job_id r) \<and>
      pg_text 255 (lt_artifact_name r) \<and> 0 \<le> lt_artifact_bytes r)"

text \<open>The primary key, the public id, and one unfinished training per user.\<close>

definition user_busy :: "lora_row \<Rightarrow> bool" where
  "user_busy r = (lt_state r = LoraQueued \<or> with_agent (lt_state r))"

definition lora_conflict :: "lora_row \<Rightarrow> lora_row \<Rightarrow> bool" where
  "lora_conflict p q =
     (lt_id p = lt_id q \<or> lt_public_id p = lt_public_id q \<or>
      (lt_user_id p \<noteq> None \<and> lt_user_id p = lt_user_id q \<and> user_busy p \<and> user_busy q))"

text \<open>An UPDATE with RETURNING: the rows it changed.\<close>

definition lora_update ::
  "(lora_row \<Rightarrow> bool) \<Rightarrow> (lora_row \<Rightarrow> lora_row) \<Rightarrow> lora_db \<Rightarrow> lora_error + (lora_row list \<times> lora_db)" where
  "lora_update P f db =
     (let hit = filter P (lora_jobs db);
          rows = sql_update P f (lora_jobs db)
      in if list_all (\<lambda>r. lora_row_ok (f r)) hit \<and> no_conflicts lora_conflict rows
         then Inr (map f hit, db\<lparr>lora_jobs := rows\<rparr>)
         else Inl LoraConstraint)"

definition lora_one :: "lora_error + (lora_row list \<times> lora_db) \<Rightarrow> lora_error + (lora_row \<times> lora_db)" where
  "lora_one r = res_bind r (\<lambda>(rows, db). case rows of [] \<Rightarrow> Inl LoraNoRows | x # xs \<Rightarrow> Inr (x, db))"

section \<open>Creation and queries\<close>

definition new_lora_row :: "clock \<Rightarrow> lora_params \<Rightarrow> lora_db \<Rightarrow> lora_row" where
  "new_lora_row clk p db =
     \<lparr>lt_id = next_lora_id db, lt_params = p, lt_user_id = Some (lp_user_id p),
      lt_dataset_path = lp_dataset_path p, lt_state = LoraQueued, lt_stage = lora_stage_queued,
      lt_progress = 0, lt_message = [], lt_error_message = [], lt_agent_job_id = [],
      lt_submission_started_at = None, lt_artifact_name = [], lt_artifact_bytes = 0,
      lt_cancel_requested_at = None, lt_started_at = None, lt_finished_at = None,
      lt_created_at = tx_now clk, lt_updated_at = tx_now clk\<rparr>"

definition lora_user_exists :: "int \<Rightarrow> lora_db \<Rightarrow> bool" where
  "lora_user_exists uid db = sql_exists (\<lambda>u. fst u = uid) (lora_users db)"

text \<open>A snapshot is named with its hash or not at all.\<close>

definition lora_snapshot_check :: "lora_params \<Rightarrow> lora_db \<Rightarrow> lora_error option" where
  "lora_snapshot_check p db =
     (if lp_snapshot_id p \<noteq> []
      then if \<not> lora_user_exists (lp_user_id p) db then Some LoraNoRows
           else if \<not> sql_exists (\<lambda>s. s = (lp_snapshot_id p, lp_user_id p, lp_snapshot_hash p))
                      (lora_snapshots db)
           then Some LoraDatasetAsset
           else None
      else if lp_snapshot_hash p \<noteq> [] then Some LoraDatasetAsset
      else None)"

definition create_lora_training_job ::
  "clock \<Rightarrow> lora_params \<Rightarrow> lora_db \<Rightarrow> lora_error + (lora_row \<times> lora_db)" where
  "create_lora_training_job clk p db =
     (case lora_snapshot_check p db of
        Some e \<Rightarrow> Inl e
      | None \<Rightarrow>
          (let r = new_lora_row clk p db
           in if \<not> lora_row_ok r \<or>
                 sql_exists (\<lambda>q. lt_public_id q = lp_public_id p) (lora_jobs db)
              then Inl LoraConstraint
              else if sql_exists (\<lambda>q. lt_user_id q = Some (lp_user_id p) \<and> user_busy q) (lora_jobs db)
              then Inl LoraAlreadyActive
              else if \<not> lora_user_exists (lp_user_id p) db then Inl LoraConstraint
              else Inr (r, db\<lparr>lora_jobs := lora_jobs db @ [r],
                              next_lora_id := next_lora_id db + 1\<rparr>)))"

definition lora_find :: "(lora_row \<Rightarrow> bool) \<Rightarrow> lora_db \<Rightarrow> lora_error + lora_row" where
  "lora_find P db = (case sql_find P (lora_jobs db) of None \<Rightarrow> Inl LoraNoRows | Some r \<Rightarrow> Inr r)"

definition lora_job_by_public_id :: "string \<Rightarrow> int \<Rightarrow> bool \<Rightarrow> lora_db \<Rightarrow> lora_error + lora_row" where
  "lora_job_by_public_id public_id uid admin db =
     lora_find (\<lambda>r. lt_public_id r = public_id \<and> (admin \<or> lt_user_id r = Some uid)) db"

definition lora_job_by_id :: "int \<Rightarrow> lora_db \<Rightarrow> lora_error + lora_row" where
  "lora_job_by_id jid db = lora_find (\<lambda>r. lt_id r = jid) db"

definition newest_first :: "lora_row list \<Rightarrow> lora_row list" where
  "newest_first rs = rev (sort_key lt_created_at (sort_key lt_id rs))"

definition list_lora_jobs_by_user :: "int \<Rightarrow> int \<Rightarrow> lora_db \<Rightarrow> lora_row list" where
  "list_lora_jobs_by_user uid limit db =
     take (nat (if limit \<le> 0 \<or> 100 < limit then 30 else limit))
       (newest_first (filter (\<lambda>r. lt_user_id r = Some uid) (lora_jobs db)))"

definition list_lora_jobs :: "int \<Rightarrow> lora_db \<Rightarrow> lora_row list" where
  "list_lora_jobs limit db =
     take (nat (if limit \<le> 0 \<or> 500 < limit then 100 else limit)) (newest_first (lora_jobs db))"

definition active_lora_jobs :: "lora_db \<Rightarrow> lora_row list" where
  "active_lora_jobs db =
     sort_key lt_created_at (sort_key lt_id (filter (\<lambda>r. with_agent (lt_state r)) (lora_jobs db)))"

definition failed_lora_jobs_before :: "int \<Rightarrow> int \<Rightarrow> lora_db \<Rightarrow> lora_row list" where
  "failed_lora_jobs_before before limit db =
     (let ended = (\<lambda>r. case lt_finished_at r of None \<Rightarrow> lt_updated_at r | Some t \<Rightarrow> t)
      in take (nat (if limit \<le> 0 \<or> 500 < limit then 100 else limit))
           (sort_key ended (sort_key lt_id
             (filter (\<lambda>r. lt_state r = LoraFailed \<and> ended r < before) (lora_jobs db)))))"

section \<open>Dispatch and hand-over\<close>

definition lora_owner_priority :: "lora_db \<Rightarrow> lora_row \<Rightarrow> bool" where
  "lora_owner_priority db r =
     (case sql_find (\<lambda>u. lt_user_id r = Some (fst u)) (lora_users db) of None \<Rightarrow> False | Some u \<Rightarrow> snd u)"

definition lora_queue_key :: "lora_db \<Rightarrow> lora_row \<Rightarrow> int" where
  "lora_queue_key db r =
     lt_created_at r - (if lora_owner_priority db r
                        then usec (dur_seconds gpu_priority_head_start) else 0)"

definition lora_before :: "lora_db \<Rightarrow> lora_row \<Rightarrow> lora_row \<Rightarrow> bool" where
  "lora_before db p q =
     (lora_queue_key db p < lora_queue_key db q \<or>
      lora_queue_key db p = lora_queue_key db q \<and> lt_id p \<le> lt_id q)"

definition next_lora_job :: "lora_db \<Rightarrow> lora_row option" where
  "next_lora_job db =
     (if sql_exists (\<lambda>r. with_agent (lt_state r)) (lora_jobs db) then None
      else sql_first (lora_before db)
        (filter (\<lambda>r. lt_state r = LoraQueued \<and> lt_cancel_requested_at r = None) (lora_jobs db)))"

definition claim_next_lora_job :: "clock \<Rightarrow> lora_db \<Rightarrow> lora_error + (lora_row \<times> lora_db)" where
  "claim_next_lora_job clk db =
     (case next_lora_job db of
        None \<Rightarrow> Inl LoraNoRows
      | Some r \<Rightarrow> lora_one (lora_update (\<lambda>q. lt_id q = lt_id r)
          (\<lambda>q. q\<lparr>lt_state := LoraUploading, lt_stage := lora_stage_upload, lt_progress := 2,
                 lt_message := lora_msg_upload, lt_updated_at := tx_now clk\<rparr>) db))"

definition finish_at :: "clock \<Rightarrow> int option \<Rightarrow> int option" where
  "finish_at clk t = (case t of None \<Rightarrow> Some (tx_now clk) | Some u \<Rightarrow> Some u)"

text \<open>Back to the queue, or cancelled if that was asked for meanwhile.\<close>

definition back_to_queue :: "clock \<Rightarrow> string \<Rightarrow> string \<Rightarrow> lora_row \<Rightarrow> lora_row" where
  "back_to_queue clk queued_msg cancelled_msg r =
     (if lt_cancel_requested_at r = None
      then r\<lparr>lt_state := LoraQueued, lt_stage := lora_stage_queued, lt_progress := 0,
             lt_message := queued_msg, lt_updated_at := tx_now clk\<rparr>
      else r\<lparr>lt_state := LoraCancelled, lt_stage := lora_stage_cancelled, lt_progress := 100,
             lt_message := cancelled_msg, lt_finished_at := finish_at clk (lt_finished_at r),
             lt_updated_at := tx_now clk\<rparr>)"

text \<open>Claimed, and the call to the agent not begun.\<close>

definition not_handed_over :: "lora_row \<Rightarrow> bool" where
  "not_handed_over r =
     (lt_state r = LoraUploading \<and> lt_agent_job_id r = [] \<and> lt_submission_started_at r = None)"

definition requeue_lora_job ::
  "clock \<Rightarrow> int \<Rightarrow> string \<Rightarrow> lora_db \<Rightarrow> lora_error + (lora_row \<times> lora_db)" where
  "requeue_lora_job clk jid message db =
     lora_one (lora_update (\<lambda>r. lt_id r = jid \<and> not_handed_over r)
       (back_to_queue clk message lora_msg_requeue_cancelled) db)"

definition recover_lora_jobs :: "clock \<Rightarrow> lora_db \<Rightarrow> lora_error + (int \<times> lora_db)" where
  "recover_lora_jobs clk db =
     res_bind (lora_update not_handed_over
        (back_to_queue clk lora_msg_restart_queued lora_msg_restart_cancelled) db)
       (\<lambda>(rows, db1). Inr (int (length rows), db1))"

definition begin_lora_submission :: "clock \<Rightarrow> int \<Rightarrow> lora_db \<Rightarrow> lora_error + (lora_row \<times> lora_db)" where
  "begin_lora_submission clk jid db =
     lora_one (lora_update
       (\<lambda>r. lt_id r = jid \<and> not_handed_over r \<and> lt_cancel_requested_at r = None)
       (\<lambda>r. r\<lparr>lt_submission_started_at := Some (tx_now clk), lt_updated_at := tx_now clk\<rparr>) db)"

definition attach_agent_job ::
  "clock \<Rightarrow> int \<Rightarrow> string \<Rightarrow> string \<Rightarrow> string \<Rightarrow> int \<Rightarrow> lora_db \<Rightarrow> lora_error + lora_db" where
  "attach_agent_job clk jid agent_job stage message progress db =
     res_bind (lora_one (lora_update
        (\<lambda>r. lt_id r = jid \<and> lt_state r = LoraUploading \<and>
             (lt_agent_job_id r = [] \<or> lt_agent_job_id r = agent_job))
        (\<lambda>r. r\<lparr>lt_agent_job_id := agent_job, lt_state := LoraPreparing, lt_stage := stage,
               lt_message := message, lt_progress := progress,
               lt_started_at := finish_at clk (lt_started_at r), lt_updated_at := tx_now clk\<rparr>) db))
       (\<lambda>(r, db1). Inr db1)"

definition set_handoff_message :: "clock \<Rightarrow> int \<Rightarrow> string \<Rightarrow> lora_db \<Rightarrow> lora_error + lora_db" where
  "set_handoff_message clk jid message db =
     res_bind (lora_update
        (\<lambda>r. lt_id r = jid \<and> lt_state r = LoraUploading \<and> lt_agent_job_id r = [] \<and>
             lt_submission_started_at r \<noteq> None)
        (\<lambda>r. r\<lparr>lt_stage := lora_stage_handoff, lt_message := message, lt_updated_at := tx_now clk\<rparr>) db)
       (\<lambda>(rows, db1). Inr db1)"

section \<open>Progress, cancellation, deletion\<close>

record lora_change =
  lc_state :: lora_state
  lc_stage :: string
  lc_progress :: int
  lc_message :: string
  lc_error_message :: string
  lc_artifact_name :: string
  lc_artifact_bytes :: int

definition lora_changed :: "clock \<Rightarrow> lora_change \<Rightarrow> lora_row \<Rightarrow> lora_row" where
  "lora_changed clk c r =
     r\<lparr>lt_state := lc_state c, lt_stage := lc_stage c, lt_progress := lc_progress c,
       lt_message := lc_message c, lt_error_message := lc_error_message c,
       lt_artifact_name := lc_artifact_name c, lt_artifact_bytes := lc_artifact_bytes c,
       lt_started_at :=
         (if lc_state c \<in> {LoraPreparing, LoraCaching, LoraRunning, LoraInstalling}
          then finish_at clk (lt_started_at r) else lt_started_at r),
       lt_finished_at :=
         (if lora_terminal (lc_state c) then finish_at clk (lt_finished_at r) else lt_finished_at r),
       lt_updated_at := tx_now clk\<rparr>"

definition update_lora_job :: "clock \<Rightarrow> int \<Rightarrow> lora_change \<Rightarrow> lora_db \<Rightarrow> lora_error + lora_db" where
  "update_lora_job clk jid c db =
     (if \<not> lora_state_valid (lc_state c) then Inl LoraInvalidState
      else res_bind (lora_update (\<lambda>r. lt_id r = jid) (lora_changed clk c) db)
             (\<lambda>(rows, db1). Inr db1))"

definition lora_cancelled :: "clock \<Rightarrow> lora_row \<Rightarrow> lora_row" where
  "lora_cancelled clk r =
     (let r1 = r\<lparr>lt_cancel_requested_at := finish_at clk (lt_cancel_requested_at r),
                 lt_updated_at := tx_now clk\<rparr>
      in if lt_state r = LoraQueued
         then r1\<lparr>lt_state := LoraCancelled, lt_stage := lora_stage_cancelled, lt_progress := 100,
                 lt_message := lora_msg_cancelled_early, lt_finished_at := Some (tx_now clk)\<rparr>
         else r1\<lparr>lt_stage := lora_stage_cancelling, lt_message := lora_msg_cancel_sent\<rparr>)"

definition request_lora_cancellation ::
  "clock \<Rightarrow> string \<Rightarrow> int \<Rightarrow> bool \<Rightarrow> lora_db \<Rightarrow> lora_error + (lora_row \<times> lora_db)" where
  "request_lora_cancellation clk public_id uid admin db =
     lora_one (lora_update
       (\<lambda>r. lt_public_id r = public_id \<and> (admin \<or> lt_user_id r = Some uid) \<and> user_busy r)
       (lora_cancelled clk) db)"

definition clear_dataset_path :: "clock \<Rightarrow> int \<Rightarrow> lora_db \<Rightarrow> lora_error + lora_db" where
  "clear_dataset_path clk jid db =
     res_bind (lora_update (\<lambda>r. lt_id r = jid)
        (\<lambda>r. r\<lparr>lt_dataset_path := [], lt_updated_at := tx_now clk\<rparr>) db)
       (\<lambda>(rows, db1). Inr db1)"

definition delete_terminal_lora_job :: "int \<Rightarrow> lora_db \<Rightarrow> bool \<times> lora_db" where
  "delete_terminal_lora_job jid db =
     (let P = (\<lambda>r. lt_id r = jid \<and> lora_terminal (lt_state r))
      in (sql_exists P (lora_jobs db), db\<lparr>lora_jobs := sql_delete P (lora_jobs db)\<rparr>))"

end
