(* ===== verification/LoraRuns.thy ===== *)
theory LoraRuns
  imports LoraTraining
begin

text \<open>
  The training queue as a transition system.  Every writing operation is a step, and so is the
  deletion of a user, which clears the owner of his trainings.  \<open>UpdateLoraTrainingJob\<close> has no
  guard of its own; the gateway calls it only for trainings that are with the agent, which it
  reads under its lock, and never to put one back into the queue.  That is the premise of its
  rule.
\<close>

section \<open>Steps\<close>

definition lora_owner_deleted :: "int \<Rightarrow> lora_db \<Rightarrow> lora_db" where
  "lora_owner_deleted uid s =
     s\<lparr>lora_users := filter (\<lambda>u. fst u \<noteq> uid) (lora_users s),
       lora_jobs := sql_update (\<lambda>r. lt_user_id r = Some uid) (\<lambda>r. r\<lparr>lt_user_id := None\<rparr>) (lora_jobs s)\<rparr>"

definition is_with_agent :: "int \<Rightarrow> lora_db \<Rightarrow> bool" where
  "is_with_agent jid s \<longleftrightarrow> (\<forall>r\<in>set (lora_jobs s). lt_id r = jid \<longrightarrow> with_agent (lt_state r))"

inductive lora_step :: "lora_db \<Rightarrow> lora_db \<Rightarrow> bool" where
  ls_create: "create_lora_training_job clk p s = Inr (r, t) \<Longrightarrow> lora_step s t"
| ls_claim: "claim_next_lora_job clk s = Inr (r, t) \<Longrightarrow> lora_step s t"
| ls_requeue: "requeue_lora_job clk jid msg s = Inr (r, t) \<Longrightarrow> lora_step s t"
| ls_recover: "recover_lora_jobs clk s = Inr (n, t) \<Longrightarrow> lora_step s t"
| ls_begin: "begin_lora_submission clk jid s = Inr (r, t) \<Longrightarrow> lora_step s t"
| ls_attach: "attach_agent_job clk jid agent stage msg progress s = Inr t \<Longrightarrow> lora_step s t"
| ls_handoff: "set_handoff_message clk jid msg s = Inr t \<Longrightarrow> lora_step s t"
| ls_update: "update_lora_job clk jid c s = Inr t \<Longrightarrow> is_with_agent jid s \<Longrightarrow> lc_state c \<noteq> LoraQueued
    \<Longrightarrow> lora_step s t"
| ls_cancel: "request_lora_cancellation clk pid uid admin s = Inr (r, t) \<Longrightarrow> lora_step s t"
| ls_clear: "clear_dataset_path clk jid s = Inr t \<Longrightarrow> lora_step s t"
| ls_delete: "delete_terminal_lora_job jid s = (found, t) \<Longrightarrow> lora_step s t"
| ls_user_deleted: "lora_owner_deleted uid s = t \<Longrightarrow> lora_step s t"

section \<open>The invariant\<close>

definition lora_row_inv :: "lora_row \<Rightarrow> bool" where
  "lora_row_inv r \<longleftrightarrow> lora_state_valid (lt_state r) \<and>
     (lt_state r = LoraQueued \<longrightarrow> lt_submission_started_at r = None \<and>
        lt_cancel_requested_at r = None \<and> lt_agent_job_id r = []) \<and>
     (lora_terminal (lt_state r) \<longleftrightarrow> lt_finished_at r \<noteq> None)"

definition lora_inv :: "lora_db \<Rightarrow> bool" where
  "lora_inv s \<longleftrightarrow> no_conflicts lora_conflict (lora_jobs s) \<and>
     (\<forall>r\<in>set (lora_jobs s). lora_row_inv r \<and> lt_id r < next_lora_id s) \<and>
     sql_count (\<lambda>r. with_agent (lt_state r)) (lora_jobs s) \<le> 1"

text \<open>What a row may become: the parameters stay, marks once set stay, a final state stays.\<close>

definition lora_moves :: "lora_row \<Rightarrow> lora_row \<Rightarrow> bool" where
  "lora_moves r q \<longleftrightarrow> lt_id q = lt_id r \<and> lt_params q = lt_params r \<and> lt_created_at q = lt_created_at r \<and>
     (lt_user_id q = lt_user_id r \<or> lt_user_id q = None) \<and>
     kept (lt_submission_started_at r) (lt_submission_started_at q) \<and>
     kept (lt_cancel_requested_at r) (lt_cancel_requested_at q) \<and>
     (lt_agent_job_id r \<noteq> [] \<longrightarrow> lt_agent_job_id q = lt_agent_job_id r) \<and>
     (lora_terminal (lt_state r) \<longrightarrow> lt_state q = lt_state r \<and> lt_finished_at q = lt_finished_at r)"

text \<open>A row goes on, or ended and was deleted; rows appear with new ids.\<close>

definition lora_evolves :: "lora_db \<Rightarrow> lora_db \<Rightarrow> bool" where
  "lora_evolves s t \<longleftrightarrow> next_lora_id s \<le> next_lora_id t \<and>
     (\<forall>r\<in>set (lora_jobs s). \<exists>q. lora_moves r q \<and> (q \<in> set (lora_jobs t) \<or> lora_terminal (lt_state q))) \<and>
     (\<forall>q\<in>set (lora_jobs t). (\<exists>r\<in>set (lora_jobs s). lora_moves r q) \<or> next_lora_id s \<le> lt_id q)"

lemma lora_moves_refl [simp]: "lora_moves r r"
  by (simp add: lora_moves_def)

lemma lora_moves_trans: "lora_moves r q \<Longrightarrow> lora_moves q p \<Longrightarrow> lora_moves r p"
  unfolding lora_moves_def kept_iff by (elim conjE, intro conjI) (simp_all, metis+)

lemma lora_evolves_fwd:
  "lora_evolves s t \<Longrightarrow> r \<in> set (lora_jobs s) \<Longrightarrow>
     \<exists>q. lora_moves r q \<and> (q \<in> set (lora_jobs t) \<or> lora_terminal (lt_state q))"
  by (simp add: lora_evolves_def)

lemma lora_evolves_back:
  "lora_evolves s t \<Longrightarrow> q \<in> set (lora_jobs t) \<Longrightarrow>
     (\<exists>r\<in>set (lora_jobs s). lora_moves r q) \<or> next_lora_id s \<le> lt_id q"
  by (simp add: lora_evolves_def)

lemma lora_evolves_refl: "lora_evolves s s"
  unfolding lora_evolves_def using lora_moves_refl by blast

lemma lora_evolves_trans:
  assumes st: "lora_evolves s t" and tu: "lora_evolves t u"
  shows "lora_evolves s u"
proof -
  have "\<exists>q. lora_moves r q \<and> (q \<in> set (lora_jobs u) \<or> lora_terminal (lt_state q))"
    if r: "r \<in> set (lora_jobs s)" for r
  proof -
    obtain p where p: "lora_moves r p" "p \<in> set (lora_jobs t) \<or> lora_terminal (lt_state p)"
      using lora_evolves_fwd[OF st r] by blast
    show ?thesis
    proof (cases "p \<in> set (lora_jobs t)")
      case True
      then show ?thesis using lora_evolves_fwd[OF tu] lora_moves_trans[OF p(1)] by blast
    next
      case False
      then show ?thesis using p by blast
    qed
  qed
  moreover have "(\<exists>r\<in>set (lora_jobs s). lora_moves r q) \<or> next_lora_id s \<le> lt_id q"
    if q: "q \<in> set (lora_jobs u)" for q
  proof -
    consider p where "p \<in> set (lora_jobs t)" "lora_moves p q" | "next_lora_id t \<le> lt_id q"
      using lora_evolves_back[OF tu q] by blast
    then show ?thesis
    proof cases
      case 1
      then have "lt_id p = lt_id q" by (simp add: lora_moves_def)
      moreover have "(\<exists>r\<in>set (lora_jobs s). lora_moves r p) \<or> next_lora_id s \<le> lt_id p"
        using lora_evolves_back[OF st 1(1)] .
      ultimately show ?thesis using lora_moves_trans[OF _ 1(2)] by auto
    next
      case 2
      then show ?thesis using st unfolding lora_evolves_def by linarith
    qed
  qed
  moreover have "next_lora_id s \<le> next_lora_id u" using st tu by (simp add: lora_evolves_def)
  ultimately show ?thesis by (simp add: lora_evolves_def)
qed

lemma lora_unique_id: "no_conflicts lora_conflict rs \<Longrightarrow> unique_key lt_id rs"
  by (erule no_conflicts_unique_key) (simp add: lora_conflict_def)

section \<open>Every step keeps the invariant and moves the rows\<close>

definition lora_good :: "lora_db \<Rightarrow> lora_db \<Rightarrow> bool" where
  "lora_good s t \<longleftrightarrow> lora_inv t \<and> lora_evolves s t"

lemma lora_update_Inr:
  "lora_update P f s = Inr (rows, t) \<longleftrightarrow>
     rows = map f (filter P (lora_jobs s)) \<and> t = s\<lparr>lora_jobs := sql_update P f (lora_jobs s)\<rparr> \<and>
     (\<forall>r\<in>set (lora_jobs s). P r \<longrightarrow> lora_row_ok (f r)) \<and>
     no_conflicts lora_conflict (sql_update P f (lora_jobs s))"
  by (auto simp: lora_update_def Let_def list_all_iff)

lemma lora_one_Inr:
  "lora_one r = Inr (x, db) \<longleftrightarrow> (\<exists>xs. r = Inr (x # xs, db))"
proof (cases r)
  case (Inr v)
  obtain rows d where "v = (rows, d)" by force
  with Inr show ?thesis by (cases rows) (auto simp: lora_one_def)
qed (simp add: lora_one_def)

lemma res_bind_snd: "res_bind m (\<lambda>(a, b). Inr b) = Inr t \<longleftrightarrow> (\<exists>a. m = Inr (a, t))"
  by (cases m) auto

lemma res_bind_fst_snd:
  "res_bind m (\<lambda>(a, b). Inr (g a, b)) = Inr (n, t) \<longleftrightarrow> (\<exists>a. m = Inr (a, t) \<and> n = g a)"
  by (cases m) auto

lemma lora_update_evolves:
  assumes "lora_update P f s = Inr (rows, t)"
    and "\<And>r. r \<in> set (lora_jobs s) \<Longrightarrow> P r \<Longrightarrow> lora_moves r (f r)"
  shows "lora_evolves s t"
proof -
  have move: "lora_moves r (if P r then f r else r)" if "r \<in> set (lora_jobs s)" for r
    using assms(2) that by simp
  have t: "set (lora_jobs t) = (\<lambda>r. if P r then f r else r) ` set (lora_jobs s)"
    "next_lora_id t = next_lora_id s"
    using assms(1) by (auto simp: lora_update_Inr set_sql_update)
  show ?thesis unfolding lora_evolves_def t using move by blast
qed

lemma lora_update_good:
  assumes u: "lora_update P f s = Inr (rows, t)" and inv: "lora_inv s"
    and row: "\<And>r. r \<in> set (lora_jobs s) \<Longrightarrow> P r \<Longrightarrow> lora_row_inv r \<Longrightarrow>
      lora_row_inv (f r) \<and> lora_moves r (f r)"
    and agent: "\<And>r. r \<in> set (lora_jobs s) \<Longrightarrow> P r \<Longrightarrow> with_agent (lt_state (f r)) \<Longrightarrow> with_agent (lt_state r)"
  shows "lora_good s t"
proof -
  have rows: "lora_row_inv r" "lt_id r < next_lora_id s" if "r \<in> set (lora_jobs s)" for r
    using inv that by (auto simp: lora_inv_def)
  have ev: "lora_evolves s t" by (rule lora_update_evolves[OF u]) (use row rows in blast)
  have t: "lora_jobs t = sql_update P f (lora_jobs s)" "next_lora_id t = next_lora_id s"
    "no_conflicts lora_conflict (lora_jobs t)"
    using u by (auto simp: lora_update_Inr)
  have "sql_count (\<lambda>r. with_agent (lt_state r)) (lora_jobs t)
      \<le> sql_count (\<lambda>r. with_agent (lt_state r)) (lora_jobs s)"
    unfolding t by (rule sql_count_shrinks) (use agent in blast)
  moreover have "lora_row_inv q \<and> lt_id q < next_lora_id t" if "q \<in> set (lora_jobs t)" for q
  proof -
    from that[unfolded t set_sql_update] obtain r
      where r: "r \<in> set (lora_jobs s)" "q = (if P r then f r else r)" by blast
    then show ?thesis using row[OF r(1)] rows[OF r(1)] t(2)
      by (cases "P r") (auto simp: lora_moves_def)
  qed
  ultimately show ?thesis using ev t(3) inv by (auto simp: lora_good_def lora_inv_def)
qed

lemmas lora_row_defs = lora_row_inv_def lora_moves_def lora_terminal_def with_agent_def
  not_handed_over_def finish_at_def user_busy_def

lemma requeue_good: "requeue_lora_job clk jid msg s = Inr (r, t) \<Longrightarrow> lora_inv s \<Longrightarrow> lora_good s t"
  unfolding requeue_lora_job_def lora_one_Inr
  by (elim exE, erule (1) lora_update_good)
     (auto simp: lora_row_defs back_to_queue_def split: option.splits)

lemma recover_good: "recover_lora_jobs clk s = Inr (n, t) \<Longrightarrow> lora_inv s \<Longrightarrow> lora_good s t"
  unfolding recover_lora_jobs_def res_bind_fst_snd
  by (elim exE conjE, erule (1) lora_update_good)
     (auto simp: lora_row_defs back_to_queue_def split: option.splits)

lemma begin_good: "begin_lora_submission clk jid s = Inr (r, t) \<Longrightarrow> lora_inv s \<Longrightarrow> lora_good s t"
  unfolding begin_lora_submission_def lora_one_Inr
  by (elim exE, erule (1) lora_update_good) (auto simp: lora_row_defs)

lemma attach_good:
  "attach_agent_job clk jid agent stage msg progress s = Inr t \<Longrightarrow> lora_inv s \<Longrightarrow> lora_good s t"
  unfolding attach_agent_job_def res_bind_snd lora_one_Inr
  by (elim exE, erule (1) lora_update_good) (auto simp: lora_row_defs)

lemma handoff_good: "set_handoff_message clk jid msg s = Inr t \<Longrightarrow> lora_inv s \<Longrightarrow> lora_good s t"
  unfolding set_handoff_message_def res_bind_snd
  by (elim exE, erule (1) lora_update_good) (auto simp: lora_row_defs)

lemma clear_good: "clear_dataset_path clk jid s = Inr t \<Longrightarrow> lora_inv s \<Longrightarrow> lora_good s t"
  unfolding clear_dataset_path_def res_bind_snd
  by (elim exE, erule (1) lora_update_good) (auto simp: lora_row_defs)

lemma cancel_good:
  "request_lora_cancellation clk pid uid admin s = Inr (r, t) \<Longrightarrow> lora_inv s \<Longrightarrow> lora_good s t"
  unfolding request_lora_cancellation_def lora_one_Inr
  by (elim exE, erule (1) lora_update_good)
     (auto simp: lora_row_defs lora_cancelled_def Let_def split: option.splits if_splits)

lemma update_good:
  assumes "update_lora_job clk jid c s = Inr t" "is_with_agent jid s" "lc_state c \<noteq> LoraQueued"
    and inv: "lora_inv s"
  shows "lora_good s t"
proof -
  obtain rows where u: "lora_update (\<lambda>r. lt_id r = jid) (lora_changed clk c) s = Inr (rows, t)"
    and valid: "lora_state_valid (lc_state c)"
    using assms(1) by (auto simp: update_lora_job_def res_bind_snd split: if_splits)
  have agent: "with_agent (lt_state r)" if "r \<in> set (lora_jobs s)" "lt_id r = jid" for r
    using that assms(2) by (simp add: is_with_agent_def)
  show ?thesis
  proof (rule lora_update_good[OF u inv])
    fix r
    assume r: "r \<in> set (lora_jobs s)" "lt_id r = jid" "lora_row_inv r"
    from agent[OF r(1,2)] have "\<not> lora_terminal (lt_state r)"
      by (auto simp: with_agent_def lora_terminal_def)
    with r(3) have "lt_finished_at r = None" "\<not> lora_terminal (lt_state r)"
      by (auto simp: lora_row_inv_def)
    with valid assms(3) show "lora_row_inv (lora_changed clk c r) \<and> lora_moves r (lora_changed clk c r)"
      by (auto simp: lora_row_inv_def lora_moves_def lora_changed_def finish_at_def)
  qed (use agent in blast)
qed

lemma claim_good:
  assumes "claim_next_lora_job clk s = Inr (r, t)" and inv: "lora_inv s"
  shows "lora_good s t"
proof -
  let ?f = "\<lambda>q. q\<lparr>lt_state := LoraUploading, lt_stage := lora_stage_upload, lt_progress := 2,
                 lt_message := lora_msg_upload, lt_updated_at := tx_now clk\<rparr>"
  obtain p rows where p: "next_lora_job s = Some p"
    and u: "lora_update (\<lambda>q. lt_id q = lt_id p) ?f s = Inr (rows, t)"
    using assms(1) by (auto simp: claim_next_lora_job_def lora_one_Inr split: option.splits)
  from p have none: "\<not> with_agent (lt_state q)" if "q \<in> set (lora_jobs s)" for q
    using that by (auto simp: next_lora_job_def sql_exists_def list_ex_iff split: if_splits)
  from p have pin: "p \<in> set (lora_jobs s)" "lt_state p = LoraQueued" "lt_cancel_requested_at p = None"
    by (auto simp: next_lora_job_def split: if_splits dest: sql_first_in)
  have uk: "unique_key lt_id (lora_jobs s)"
    using inv by (auto simp: lora_inv_def intro: lora_unique_id)
  have rows: "lora_row_inv q" "lt_id q < next_lora_id s" if "q \<in> set (lora_jobs s)" for q
    using inv that by (auto simp: lora_inv_def)
  have same: "q = p" if "q \<in> set (lora_jobs s)" "lt_id q = lt_id p" for q
    using unique_keyD[OF uk that(1) pin(1) that(2)] .
  have step: "lora_row_inv (?f p) \<and> lora_moves p (?f p)"
    using rows(1)[OF pin(1)] pin(2,3) by (auto simp: lora_row_defs)
  have t: "lora_jobs t = sql_update (\<lambda>q. lt_id q = lt_id p) ?f (lora_jobs s)"
    "next_lora_id t = next_lora_id s" "no_conflicts lora_conflict (lora_jobs t)"
    using u by (auto simp: lora_update_Inr)
  have "lora_evolves s t"
    by (rule lora_update_evolves[OF u]) (use same step in blast)
  moreover have "sql_count (\<lambda>r. with_agent (lt_state r)) (lora_jobs t) \<le> 1"
  proof -
    have "sql_count (\<lambda>r. with_agent (lt_state r)) (lora_jobs s) = 0"
      using none by (simp add: sql_count_0)
    with sql_count_update_key[OF uk pin(1), of "\<lambda>r. with_agent (lt_state r)" ?f]
    show ?thesis unfolding t(1) by (simp split: if_splits)
  qed
  moreover have "lora_row_inv q \<and> lt_id q < next_lora_id t" if "q \<in> set (lora_jobs t)" for q
    using that rows same step pin(1) unfolding t set_sql_update by (auto split: if_splits)
  ultimately show ?thesis using t(3) by (simp add: lora_good_def lora_inv_def)
qed

lemma create_Inr:
  "create_lora_training_job clk p s = Inr (r, t) \<longleftrightarrow>
     lora_snapshot_check p s = None \<and> r = new_lora_row clk p s \<and> lora_row_ok r \<and>
     (\<forall>q\<in>set (lora_jobs s). lt_public_id q \<noteq> lp_public_id p \<and>
        \<not> (lt_user_id q = Some (lp_user_id p) \<and> user_busy q)) \<and>
     lora_user_exists (lp_user_id p) s \<and>
     t = s\<lparr>lora_jobs := lora_jobs s @ [r], next_lora_id := next_lora_id s + 1\<rparr>"
  by (auto simp: create_lora_training_job_def Let_def sql_exists_def list_ex_iff split: option.splits if_splits)

lemma new_lora_row_inv:
  "lora_row_inv (new_lora_row clk p s)" "lt_id (new_lora_row clk p s) = next_lora_id s"
  "\<not> with_agent (lt_state (new_lora_row clk p s))"
  by (simp_all add: new_lora_row_def lora_row_inv_def lora_terminal_def with_agent_def)

lemma create_good:
  assumes "create_lora_training_job clk p s = Inr (r, t)" and inv: "lora_inv s"
  shows "lora_good s t"
proof -
  note c = assms(1)[unfolded create_Inr]
  have r: "lt_id r = next_lora_id s" "lora_row_inv r" "\<not> with_agent (lt_state r)"
    using c new_lora_row_inv[of clk p s] by auto
  have t: "lora_jobs t = lora_jobs s @ [r]" "next_lora_id t = next_lora_id s + 1"
    using c by simp_all
  have "list_all (\<lambda>q. \<not> lora_conflict q r) (lora_jobs s)"
    unfolding list_all_iff
  proof
    fix q
    assume q: "q \<in> set (lora_jobs s)"
    then have "lt_id q < next_lora_id s" using inv by (simp add: lora_inv_def)
    with q c show "\<not> lora_conflict q r"
      by (auto simp: lora_conflict_def new_lora_row_def)
  qed
  then have "no_conflicts lora_conflict (lora_jobs t)"
    using inv unfolding t no_conflicts_append by (simp add: lora_inv_def)
  moreover have "lora_row_inv q \<and> lt_id q < next_lora_id t" if "q \<in> set (lora_jobs t)" for q
    using that inv r unfolding t by (auto simp: lora_inv_def)
  moreover have "sql_count (\<lambda>r. with_agent (lt_state r)) (lora_jobs t) \<le> 1"
    using inv r(3) unfolding t by (simp add: sql_count_append lora_inv_def)
  moreover have "lora_evolves s t"
    unfolding lora_evolves_def t using r(1) lora_moves_refl by fastforce
  ultimately show ?thesis by (simp add: lora_good_def lora_inv_def)
qed

lemma delete_good:
  assumes "delete_terminal_lora_job jid s = (found, t)" and inv: "lora_inv s"
  shows "lora_good s t"
proof -
  let ?P = "\<lambda>r. lt_id r = jid \<and> lora_terminal (lt_state r)"
  have t: "lora_jobs t = sql_delete ?P (lora_jobs s)" "next_lora_id t = next_lora_id s"
    using assms(1) by (auto simp: delete_terminal_lora_job_def Let_def)
  have "sql_count (\<lambda>r. with_agent (lt_state r)) (lora_jobs t) \<le> 1"
    using inv sql_count_delete[of "\<lambda>r. with_agent (lt_state r)" ?P "lora_jobs s"]
    unfolding t lora_inv_def by linarith
  moreover have "no_conflicts lora_conflict (lora_jobs t)"
    using inv unfolding t lora_inv_def by (blast intro: no_conflicts_delete)
  moreover have "lora_evolves s t"
    unfolding lora_evolves_def t set_sql_delete using lora_moves_refl by blast
  ultimately show ?thesis using inv t by (auto simp: lora_good_def lora_inv_def)
qed

lemma user_deleted_good:
  assumes "lora_owner_deleted uid s = t" and inv: "lora_inv s"
  shows "lora_good s t"
proof -
  let ?P = "\<lambda>r. lt_user_id r = Some uid" and ?f = "\<lambda>r :: lora_row. r\<lparr>lt_user_id := None\<rparr>"
  have t: "lora_jobs t = sql_update ?P ?f (lora_jobs s)" "next_lora_id t = next_lora_id s"
    using assms(1) by (auto simp: lora_owner_deleted_def)
  have move: "lora_row_inv r \<Longrightarrow> lora_row_inv (?f r)" "lora_moves r (?f r)" for r
    by (auto simp: lora_row_inv_def lora_moves_def)
  have shrink: "lora_conflict a b"
    if "lora_conflict (if ?P a then ?f a else a) (if ?P b then ?f b else b)" for a b
    using that by (cases "?P a"; cases "?P b") (auto simp: lora_conflict_def user_busy_def)
  have "no_conflicts lora_conflict (lora_jobs t)"
    using inv unfolding t lora_inv_def
    by (elim conjE, intro no_conflicts_update_shrink) (assumption, rule shrink)
  moreover have "sql_count (\<lambda>r. with_agent (lt_state r)) (lora_jobs t) \<le> 1"
    using inv sql_count_update_same[of "lora_jobs s" ?P "\<lambda>r. with_agent (lt_state r)" ?f]
    unfolding t lora_inv_def by simp
  moreover have "lora_row_inv q \<and> lt_id q < next_lora_id t" if "q \<in> set (lora_jobs t)" for q
    using that[unfolded t(1)] inv
    by (cases rule: in_sql_updateE) (auto simp: lora_inv_def t(2) intro: move(1))
  moreover have "lora_evolves s t"
  proof -
    have "lora_moves r (if ?P r then ?f r else r)" for r using move(2) by simp
    then show ?thesis unfolding lora_evolves_def t set_sql_update by blast
  qed
  ultimately show ?thesis by (simp add: lora_good_def lora_inv_def)
qed

lemma lora_step_good: "lora_step s t \<Longrightarrow> lora_inv s \<Longrightarrow> lora_good s t"
  by (induction rule: lora_step.induct)
     (blast intro: create_good claim_good requeue_good recover_good begin_good attach_good
        handoff_good update_good cancel_good clear_good delete_good user_deleted_good)+

lemma lora_one_rowE:
  assumes "lora_one (lora_update P f s) = Inr (x, t)"
  obtains r where "r \<in> set (lora_jobs s)" "P r" "x = f r" "next_lora_id t = next_lora_id s"
    "lora_jobs t = sql_update P f (lora_jobs s)"
proof -
  from assms obtain xs where "lora_update P f s = Inr (x # xs, t)" by (auto simp: lora_one_Inr)
  then have e: "x # xs = map f (filter P (lora_jobs s))" and t: "next_lora_id t = next_lora_id s"
    "lora_jobs t = sql_update P f (lora_jobs s)"
    by (auto simp: lora_update_Inr)
  have "x \<in> set (map f (filter P (lora_jobs s)))" unfolding e[symmetric] by simp
  then show thesis using that t by auto
qed

interpretation lora: evolution "\<lambda>s. lora_jobs s = []" lora_step lora_inv lora_evolves
proof
  fix s t u
  show "lora_jobs s = [] \<Longrightarrow> lora_inv s" by (simp add: lora_inv_def)
  show "lora_step s t \<Longrightarrow> lora_inv s \<Longrightarrow> lora_inv t"
    using lora_step_good by (simp add: lora_good_def)
  show "lora_evolves s s" by (rule lora_evolves_refl)
  show "lora_evolves s t \<Longrightarrow> lora_evolves t u \<Longrightarrow> lora_evolves s u" by (rule lora_evolves_trans)
  show "lora_step s t \<Longrightarrow> lora_inv s \<Longrightarrow> lora_evolves s t"
    using lora_step_good by (simp add: lora_good_def)
qed

section \<open>The hand-over is begun at most once\<close>

definition training_begun :: "lora_db \<Rightarrow> int \<Rightarrow> bool" where
  "training_begun s jid \<longleftrightarrow> jid < next_lora_id s \<and>
     (\<forall>r\<in>set (lora_jobs s). lt_id r = jid \<longrightarrow> lt_submission_started_at r \<noteq> None)"

definition begins_training :: "int \<Rightarrow> lora_db \<Rightarrow> lora_db \<Rightarrow> bool" where
  "begins_training jid s t \<longleftrightarrow> lora_inv s \<and> (\<exists>clk r. begin_lora_submission clk jid s = Inr (r, t))"

definition sound_lora_step :: "lora_db \<Rightarrow> lora_db \<Rightarrow> bool" where
  "sound_lora_step s t \<longleftrightarrow> lora_inv s \<and> lora_step s t"

lemma begin_row:
  assumes "begin_lora_submission clk jid s = Inr (x, t)"
  obtains r where "r \<in> set (lora_jobs s)" "lt_id r = jid" "not_handed_over r"
    "lt_cancel_requested_at r = None" "next_lora_id t = next_lora_id s"
    "lora_jobs t = sql_update
       (\<lambda>r. lt_id r = jid \<and> not_handed_over r \<and> lt_cancel_requested_at r = None)
       (\<lambda>r. r\<lparr>lt_submission_started_at := Some (tx_now clk), lt_updated_at := tx_now clk\<rparr>) (lora_jobs s)"
  using assms unfolding begin_lora_submission_def by (elim lora_one_rowE) auto

interpretation handover: one_shot sound_lora_step begins_training training_begun
proof
  fix k s t
  assume f: "begins_training k s t"
  then obtain clk x where inv: "lora_inv s" and b: "begin_lora_submission clk k s = Inr (x, t)"
    by (auto simp: begins_training_def)
  from b obtain r where r: "r \<in> set (lora_jobs s)" "lt_id r = k" "not_handed_over r"
      "lt_cancel_requested_at r = None" "next_lora_id t = next_lora_id s"
    and t: "lora_jobs t = sql_update
       (\<lambda>r. lt_id r = k \<and> not_handed_over r \<and> lt_cancel_requested_at r = None)
       (\<lambda>r. r\<lparr>lt_submission_started_at := Some (tx_now clk), lt_updated_at := tx_now clk\<rparr>) (lora_jobs s)"
    by (rule begin_row)
  from r show "\<not> training_begun s k" by (auto simp: training_begun_def not_handed_over_def)
  have uk: "unique_key lt_id (lora_jobs s)"
    using inv by (auto simp: lora_inv_def intro: lora_unique_id)
  have only: "q = r" if "q \<in> set (lora_jobs s)" "lt_id q = k" for q
    using unique_keyD[OF uk that(1) r(1)] that(2) r(2) by simp
  have "k < next_lora_id s" using inv r(1,2) by (auto simp: lora_inv_def)
  moreover have "lt_submission_started_at q \<noteq> None" if "q \<in> set (lora_jobs t)" "lt_id q = k" for q
    using that(1)[unfolded t] by (cases rule: in_sql_updateE) (use only that(2) r in auto)
  ultimately show "training_begun t k" using r(5) by (simp add: training_begun_def)
next
  fix k s t
  assume st: "sound_lora_step s t" and m: "training_begun s k"
  then have ev: "lora_evolves s t" using lora.step_evolves by (simp add: sound_lora_step_def)
  have "lt_submission_started_at q \<noteq> None" if "q \<in> set (lora_jobs t)" "lt_id q = k" for q
    using lora_evolves_back[OF ev that(1)] m that(2)
    by (auto simp: training_begun_def lora_moves_def kept_iff)
  moreover have "k < next_lora_id t" using ev m by (simp add: lora_evolves_def training_begun_def)
  ultimately show "training_begun t k" by (simp add: training_begun_def)
qed

section \<open>A small instance\<close>

definition ex_lora_params :: lora_params where
  "ex_lora_params = \<lparr>lp_public_id = ''lora-0123456789abcdef'', lp_user_id = 7, lp_username = ''ann'',
     lp_request_id = ''request-0123456789'', lp_profile_id = ''krea2'', lp_family = ''krea2'',
     lp_base_model = ''base'', lp_name = ''my style'', lp_output_name = ''my-style'',
     lp_trigger_word = ''tok'', lp_concept_type = ''style'', lp_preset = ''quick'',
     lp_resolution = 512, lp_max_train_steps = 500, lp_network_dim = 16, lp_network_alpha = 8,
     lp_learning_rate = 1 / 10000, lp_seed = 1, lp_sample_count = 10, lp_dataset_bytes = 1000,
     lp_dataset_path = ''set.zip'', lp_snapshot_id = [], lp_snapshot_hash = []\<rparr>"

definition ex_lora_queued :: lora_row where
  "ex_lora_queued = \<lparr>lt_id = 1, lt_params = ex_lora_params, lt_user_id = Some 7,
     lt_dataset_path = ''set.zip'', lt_state = LoraQueued, lt_stage = ''queued'', lt_progress = 0,
     lt_message = [], lt_error_message = [], lt_agent_job_id = [], lt_submission_started_at = None,
     lt_artifact_name = [], lt_artifact_bytes = 0, lt_cancel_requested_at = None,
     lt_started_at = None, lt_finished_at = None, lt_created_at = 0, lt_updated_at = 0\<rparr>"

definition ex_lora_db :: lora_db where
  "ex_lora_db = \<lparr>lora_jobs = [], next_lora_id = 1, lora_users = [(7, False)], lora_snapshots = []\<rparr>"

definition ex_lora_waiting :: lora_db where
  "ex_lora_waiting = ex_lora_db\<lparr>lora_jobs := [ex_lora_queued], next_lora_id := 2\<rparr>"

definition ex_lora_claimed :: lora_db where
  "ex_lora_claimed = ex_lora_db\<lparr>lora_jobs := [ex_lora_queued\<lparr>lt_state := LoraUploading\<rparr>], next_lora_id := 2\<rparr>"

definition ex_lora_begun :: lora_db where
  "ex_lora_begun = ex_lora_db\<lparr>lora_jobs := [ex_lora_queued\<lparr>lt_state := LoraUploading,
     lt_submission_started_at := Some 1000000, lt_updated_at := 1000000\<rparr>], next_lora_id := 2\<rparr>"

lemma ex_lora_invs: "lora_inv ex_lora_db" "lora_inv ex_lora_waiting" "lora_inv ex_lora_claimed"
  by code_simp+

lemma ex_begins: "begin_lora_submission ex_now 1 ex_lora_claimed = Inr (hd (lora_jobs ex_lora_begun), ex_lora_begun)"
  by code_simp

lemma lora_one_no_row:
  assumes "no_conflicts lora_conflict (lora_jobs s)" "\<And>r. r \<in> set (lora_jobs s) \<Longrightarrow> \<not> P r"
  shows "lora_one (lora_update P f s) = Inl LoraNoRows"
proof -
  have "filter P (lora_jobs s) = []" "sql_update P f (lora_jobs s) = lora_jobs s"
    using assms(2) by (auto simp: filter_empty_conv intro: sql_update_none)
  then show ?thesis using assms(1) by (simp add: lora_one_def lora_update_def)
qed

lemma lora_before_total: "lora_before db p q \<or> lora_before db q p"
  by (auto simp: lora_before_def)

lemma lora_before_trans: "lora_before db p q \<Longrightarrow> lora_before db q r \<Longrightarrow> lora_before db p r"
  by (auto simp: lora_before_def)

lemma claim_row:
  assumes "claim_next_lora_job clk s = Inr (q, t)"
  obtains p where "p \<in> set (lora_jobs s)" "lt_state p = LoraQueued" "lt_id q = lt_id p"
    "lt_cancel_requested_at p = None" "lt_state q = LoraUploading"
    "\<forall>r\<in>set (lora_jobs s). \<not> with_agent (lt_state r)"
    "\<forall>r\<in>set (lora_jobs s). lt_state r = LoraQueued \<and> lt_cancel_requested_at r = None \<longrightarrow> lora_before s p r"
proof -
  from assms obtain p where p: "next_lora_job s = Some p" and one: "lora_one (lora_update
      (\<lambda>q. lt_id q = lt_id p)
      (\<lambda>q. q\<lparr>lt_state := LoraUploading, lt_stage := lora_stage_upload, lt_progress := 2,
             lt_message := lora_msg_upload, lt_updated_at := tx_now clk\<rparr>) s) = Inr (q, t)"
    by (auto simp: claim_next_lora_job_def split: option.splits)
  from p have none: "\<forall>r\<in>set (lora_jobs s). \<not> with_agent (lt_state r)"
    and first: "sql_first (lora_before s)
        (filter (\<lambda>r. lt_state r = LoraQueued \<and> lt_cancel_requested_at r = None) (lora_jobs s)) = Some p"
    by (auto simp: next_lora_job_def sql_exists_iff split: if_splits)
  note least = sql_first_least[OF lora_before_total lora_before_trans first]
  have "lt_id q = lt_id p \<and> lt_state q = LoraUploading" using one by (rule lora_one_rowE) simp
  then show thesis using that[of p] sql_first_in[OF first] none least by auto
qed



lemma lora_inv_row:
  "lora_inv s \<Longrightarrow> r \<in> set (lora_jobs s) \<Longrightarrow> lora_row_inv r \<and> lt_id r < next_lora_id s"
  by (simp add: lora_inv_def)

lemma lora_inv_id: "lora_inv s \<Longrightarrow> unique_key lt_id (lora_jobs s)"
  by (auto simp: lora_inv_def intro: lora_unique_id)

lemma lora_queued_unmarked:
  "lora_row_inv r \<Longrightarrow> lt_state r = LoraQueued \<Longrightarrow>
     lt_submission_started_at r = None \<and> lt_cancel_requested_at r = None \<and> lt_agent_job_id r = []"
  by (simp add: lora_row_inv_def)

text \<open>An update that makes no training unfinished that was not, and writes what the columns
  accept, succeeds.\<close>

lemma lora_update_succeeds:
  assumes inv: "lora_inv s"
    and ok: "\<And>r. r \<in> set (lora_jobs s) \<Longrightarrow> P r \<Longrightarrow> lora_row_ok (f r)"
    and same: "\<And>r. P r \<Longrightarrow> lt_id (f r) = lt_id r \<and> lt_params (f r) = lt_params r \<and>
      lt_user_id (f r) = lt_user_id r \<and> (user_busy (f r) \<longrightarrow> user_busy r)"
  shows "lora_update P f s =
    Inr (map f (filter P (lora_jobs s)), s\<lparr>lora_jobs := sql_update P f (lora_jobs s)\<rparr>)"
proof -
  have "no_conflicts lora_conflict (lora_jobs s)" using inv by (simp add: lora_inv_def)
  then have "no_conflicts lora_conflict (sql_update P f (lora_jobs s))"
  proof (rule no_conflicts_update_shrink)
    fix a b
    assume "lora_conflict (if P a then f a else a) (if P b then f b else b)"
    then show "lora_conflict a b"
      using same[of a] same[of b] unfolding lora_conflict_def by (cases "P a"; cases "P b") auto
  qed
  then show ?thesis using ok by (simp add: lora_update_def list_all_iff)
qed

lemma claim_texts: "pg_text 120 lora_stage_upload" "pg_text 1000 lora_msg_upload"
  unfolding lora_stage_upload_def lora_msg_upload_def by (rule pg_text_utf8_text; simp)+


lemma claim_succeeds:
  assumes inv: "lora_inv s"
    and q: "q \<in> set (lora_jobs s)" "lt_state q = LoraQueued"
    and all: "\<And>r. r \<in> set (lora_jobs s) \<Longrightarrow> lora_row_ok r \<and> \<not> with_agent (lt_state r)"
  shows "\<exists>r t. claim_next_lora_job clk s = Inr (r, t)"
proof -
  let ?f = "\<lambda>q. q\<lparr>lt_state := LoraUploading, lt_stage := lora_stage_upload, lt_progress := 2,
                 lt_message := lora_msg_upload, lt_updated_at := tx_now clk\<rparr>"
  let ?Q = "\<lambda>r. lt_state r = LoraQueued \<and> lt_cancel_requested_at r = None"
  have "?Q q" using lora_inv_row[OF inv q(1)] lora_queued_unmarked q(2) by blast
  then have "filter ?Q (lora_jobs s) \<noteq> []" using q by (auto simp: filter_empty_conv)
  then obtain p where first: "sql_first (lora_before s) (filter ?Q (lora_jobs s)) = Some p"
    by (metis option.exhaust sql_first_None)
  then have p: "next_lora_job s = Some p" using all by (auto simp: next_lora_job_def sql_exists_iff)
  from sql_first_in[OF first] have pin: "p \<in> set (lora_jobs s)" "lt_state p = LoraQueued" by auto
  have same: "r = p" if "r \<in> set (lora_jobs s)" "lt_id r = lt_id p" for r
    using unique_keyD[OF lora_inv_id[OF inv] that(1) pin(1) that(2)] .
  let ?P = "\<lambda>r. lt_id r = lt_id p"
  have upd: "sql_update ?P ?f (lora_jobs s) = sql_update (\<lambda>r. r = p) ?f (lora_jobs s)"
    "filter ?P (lora_jobs s) = filter (\<lambda>r. r = p) (lora_jobs s)"
    using same by (auto simp: sql_update_def intro: filter_cong)
  have "lora_row_ok (?f p)" using all[OF pin(1)] claim_texts by (simp add: lora_row_ok_def)
  moreover have "user_busy p" using pin(2) by (simp add: user_busy_def)
  ultimately have "lora_update (\<lambda>r. r = p) ?f s =
      Inr (map ?f (filter (\<lambda>r. r = p) (lora_jobs s)), s\<lparr>lora_jobs := sql_update (\<lambda>r. r = p) ?f (lora_jobs s)\<rparr>)"
    by (intro lora_update_succeeds[OF inv]) simp_all
  moreover have "lora_update ?P ?f s = lora_update (\<lambda>r. r = p) ?f s"
    by (simp add: lora_update_def upd)
  moreover obtain y ys where "filter (\<lambda>r. r = p) (lora_jobs s) = y # ys"
    using pin(1) by (cases "filter (\<lambda>r. r = p) (lora_jobs s)") (auto simp: filter_empty_conv)
  ultimately show ?thesis by (simp add: claim_next_lora_job_def p lora_one_def)
qed

section \<open>Properties\<close>



text \<open>C29: Once the hand-over of a training has begun, no later state of any run begins it again,
  puts the training back into the queue or claims it: the agent is asked at most once.\<close>

theorem training_handed_over_once:
  assumes "begin_lora_submission clk jid s = Inr (r, t)" and "lora_inv s" and "steps lora_step t u"
  shows "begin_lora_submission clk1 jid u = Inl LoraNoRows \<and>
    requeue_lora_job clk1 jid msg u = Inl LoraNoRows \<and>
    (claim_next_lora_job clk1 u = Inr (q, v) \<longrightarrow> lt_id q \<noteq> jid)"
proof -
  have st: "lora_step s t" by (rule ls_begin[OF assms(1)])
  have t: "lora_inv t" using lora.step_inv[OF st assms(2)] .
  have u: "lora_inv u" using lora.run_inv assms(3) t .
  have "training_begun t jid"
    using handover.fire_marks[of jid s t] assms(1,2) by (auto simp: begins_training_def)
  moreover have "steps sound_lora_step t u"
    using lora.run_sound[OF assms(3) t] by (simp add: sound_lora_step_def[abs_def])
  ultimately have "training_begun u jid" by (blast intro: handover.marked_for_good)
  then have begun: "lt_submission_started_at p \<noteq> None" if "p \<in> set (lora_jobs u)" "lt_id p = jid" for p
    using that by (simp add: training_begun_def)
  have "begin_lora_submission clk1 jid u = Inl LoraNoRows" "requeue_lora_job clk1 jid msg u = Inl LoraNoRows"
    unfolding begin_lora_submission_def requeue_lora_job_def
    by (rule lora_one_no_row; use u begun in \<open>auto simp: not_handed_over_def lora_inv_def\<close>)+
  moreover have "lt_id q \<noteq> jid" if "claim_next_lora_job clk1 u = Inr (q, v)"
  proof -
    from that obtain p where "p \<in> set (lora_jobs u)" "lt_state p = LoraQueued" "lt_id q = lt_id p"
      by (rule claim_row)
    then show ?thesis using lora_queued_unmarked[of p] lora_inv_row[OF u, of p] begun[of p] by auto
  qed
  ultimately show ?thesis by blast
qed

theorem training_handed_over_once_witness:
  "begin_lora_submission ex_now 1 ex_lora_begun = Inl LoraNoRows"
  using training_handed_over_once[OF ex_begins ex_lora_invs(3) steps_refl] by blast

text \<open>A claim takes the first queued training that is not cancelled, in the order of the
  creation times with the head start of privileged owners, and only when none is with the
  agent; when there is such a training and the agent is free, the claim succeeds.\<close>

theorem training_claim_order:
  assumes "lora_inv s"
  shows "(\<forall>q t. claim_next_lora_job clk s = Inr (q, t) \<longrightarrow>
      (\<forall>r\<in>set (lora_jobs s). \<not> with_agent (lt_state r)) \<and>
      (\<exists>p\<in>set (lora_jobs s). lt_id p = lt_id q \<and> lt_state p = LoraQueued \<and>
         lt_cancel_requested_at p = None \<and> lt_state q = LoraUploading \<and>
         (\<forall>r\<in>set (lora_jobs s). lt_state r = LoraQueued \<and> lt_cancel_requested_at r = None \<longrightarrow>
            lora_before s p r))) \<and>
    (\<forall>r\<in>set (lora_jobs s). lt_state r = LoraQueued \<and> lora_row_ok r \<and>
       (\<forall>q\<in>set (lora_jobs s). lora_row_ok q \<and> \<not> with_agent (lt_state q)) \<longrightarrow>
       (\<exists>q t. claim_next_lora_job clk s = Inr (q, t)))"
  (is "?order \<and> ?succeeds")
proof
  show ?order by (intro allI impI, erule claim_row, intro conjI bexI, assumption+) simp_all
  show ?succeeds
  proof (intro ballI impI, elim conjE)
    fix r
    assume r: "r \<in> set (lora_jobs s)" "lt_state r = LoraQueued"
      and all: "\<forall>q\<in>set (lora_jobs s). lora_row_ok q \<and> \<not> with_agent (lt_state q)"
    show "\<exists>q t. claim_next_lora_job clk s = Inr (q, t)"
      by (rule claim_succeeds[OF assms r]) (use all in auto)
  qed
qed

theorem training_claim_order_witness:
  "\<exists>q t. claim_next_lora_job ex_now ex_lora_waiting = Inr (q, t)"
proof -
  have "\<forall>q\<in>set (lora_jobs ex_lora_waiting). lora_row_ok q \<and> \<not> with_agent (lt_state q)"
    "ex_lora_queued \<in> set (lora_jobs ex_lora_waiting)" "lt_state ex_lora_queued = LoraQueued"
    by code_simp+
  then show ?thesis using training_claim_order[OF ex_lora_invs(2), of ex_now] by blast
qed

text \<open>A training that has ended stays as it ended, whatever follows, until it is deleted;
  its parameters, and its owner while he has an account, never change.\<close>

theorem ended_training_final:
  assumes "lora_inv s" and "steps lora_step s t"
    and "r \<in> set (lora_jobs s)" and "q \<in> set (lora_jobs t)" and "lt_id q = lt_id r"
  shows "lt_params q = lt_params r \<and> (lt_user_id q = lt_user_id r \<or> lt_user_id q = None) \<and>
    (lora_terminal (lt_state r) \<longrightarrow> lt_state q = lt_state r \<and> lt_finished_at q = lt_finished_at r)"
proof -
  have "lora_evolves s t" using lora.run_evolves[OF assms(2,1)] .
  from lora_evolves_back[OF this assms(4)] lora_inv_row[OF assms(1,3)] assms(5)
  obtain p where p: "p \<in> set (lora_jobs s)" "lora_moves p q" by auto
  have "lt_id p = lt_id r" using p(2) assms(5) by (simp add: lora_moves_def)
  then have "p = r" using unique_keyD[OF lora_inv_id[OF assms(1)] p(1) assms(3)] by blast
  then show ?thesis using p(2) by (simp add: lora_moves_def)
qed

theorem ended_training_final_witness:
  "lt_params ex_lora_queued = ex_lora_params"
  using ended_training_final[OF ex_lora_invs(2) steps_refl, of ex_lora_queued ex_lora_queued]
  by (simp add: ex_lora_waiting_def ex_lora_queued_def)



end
