(* ===== verification/LoraWorker.thy ===== *)
theory LoraWorker
  imports LoraRuns
begin

text \<open>
  The loop that drives trainings through the agent on the machine with the GPU
  (\<open>refreshLoraTrainingJobs\<close> of \<open>gateway/lora_training.go\<close>, \<open>gateway/lora_training_handoff.go\<close>
  and the checks of \<open>loratraining/client.go\<close>).  The agent is another process: what it answers
  to each call is an argument, and so are the file system and the miner.  What a pass of the
  loop does besides writing to the store is the list of its effects, in order.
\<close>

section \<open>The agent and its client\<close>

record agent_status =
  as_id :: string
  as_gateway_job_id :: string
  as_state :: string
  as_stage :: string
  as_progress :: int
  as_message :: string
  as_error :: string
  as_artifact_name :: string
  as_artifact_bytes :: int
  as_unconfirmed :: bool

record fence_result =
  fr_gateway_job_id :: string
  fr_fenced :: bool
  fr_settled :: bool
  fr_job :: "agent_status option"

text \<open>\<open>AgentNotFound\<close> is the status 404 with the code \<open>job_not_found\<close>.\<close>

datatype agent_error = AgentNotFound | AgentFailure

record training_agent =
  ta_status :: "string \<Rightarrow> agent_error + agent_status"
  ta_by_gateway :: "string \<Rightarrow> agent_error + agent_status"
  ta_fence :: "string \<Rightarrow> agent_error + fence_result"
  ta_cancel :: "string \<Rightarrow> agent_error + agent_status"
  ta_submit :: "lora_row \<Rightarrow> agent_error + agent_status"
  ta_delete :: "string \<Rightarrow> agent_error + agent_status"

definition agent_terminal :: "agent_status \<Rightarrow> bool" where
  "agent_terminal st = (as_state st \<in> {''completed'', ''failed'', ''cancelled''})"

definition gateway_job_id_valid :: "string \<Rightarrow> bool" where
  "gateway_job_id_valid i = (trim_space i \<noteq> [] \<and> length i \<le> 96)"

definition status_by_gateway_id :: "training_agent \<Rightarrow> string \<Rightarrow> agent_error + agent_status" where
  "status_by_gateway_id ag i =
     (if \<not> gateway_job_id_valid i then Inl AgentFailure
      else res_bind (ta_by_gateway ag i) (\<lambda>st.
        if as_id st = [] \<or> as_gateway_job_id st \<noteq> i then Inl AgentFailure else Inr st))"

definition fence_submission :: "training_agent \<Rightarrow> string \<Rightarrow> agent_error + fence_result" where
  "fence_submission ag i =
     (if \<not> gateway_job_id_valid i then Inl AgentFailure
      else res_bind (ta_fence ag i) (\<lambda>fr.
        if fr_gateway_job_id fr \<noteq> i \<or> \<not> fr_fenced fr \<or>
           (case fr_job fr of None \<Rightarrow> False
            | Some st \<Rightarrow> as_id st = [] \<or> as_gateway_job_id st \<noteq> i) \<or>
           (fr_settled fr \<and> (case fr_job fr of None \<Rightarrow> False
            | Some st \<Rightarrow> \<not> agent_terminal st \<or> as_unconfirmed st))
        then Inl AgentFailure else Inr fr))"

section \<open>Texts and states of the agent\<close>

definition state_from_agent :: "string \<Rightarrow> lora_state" where
  "state_from_agent s =
     (if s \<in> {''queued'', ''preparing''} then LoraPreparing
      else if s = ''caching'' then LoraCaching
      else if s = ''running'' then LoraRunning
      else if s = ''installing'' then LoraInstalling
      else if s = ''completed'' then LoraCompleted
      else if s = ''cancelled'' then LoraCancelled
      else if s = ''failed'' then LoraFailed
      else LoraOther [])"

definition clamp_lora_progress :: "int \<Rightarrow> int" where
  "clamp_lora_progress p = (if p < 0 then 0 else if p > 100 then 100 else p)"

definition truncate_lora_text :: "string \<Rightarrow> int \<Rightarrow> string" where
  "truncate_lora_text value0 limit =
     (let value = trim_space value0; rs = rune_chunks value in
      if int (length rs) \<le> limit then value else concat (take (nat limit) rs))"

section \<open>Effects\<close>

datatype lora_effect =
    DatasetRemoved int
  | PauseReleased int
  | TrainingSent int
  | CancelSent int
  | TrainingEnded int lora_state

text \<open>A statement whose error the code drops: it rolls back.\<close>

fun tried :: "'e + 's \<Rightarrow> 's \<Rightarrow> 's" where
  "tried (Inl e) s = s"
| "tried (Inr t) s = t"

text \<open>The end of a training that never ran or has stopped: its files go, its path is cleared,
  the miner may run again.\<close>

definition let_go :: "clock \<Rightarrow> int \<Rightarrow> lora_db \<Rightarrow> lora_db \<times> lora_effect list" where
  "let_go clk jid db = (tried (clear_dataset_path clk jid db) db, [DatasetRemoved jid, PauseReleased jid])"

definition plain_change :: "lora_state \<Rightarrow> string \<Rightarrow> int \<Rightarrow> string \<Rightarrow> string \<Rightarrow> lora_change" where
  "plain_change st stage progress message err =
     \<lparr>lc_state = st, lc_stage = stage, lc_progress = progress, lc_message = message,
      lc_error_message = err, lc_artifact_name = [], lc_artifact_bytes = 0\<rparr>"

section \<open>A hand-over whose outcome is unknown\<close>

datatype recovery = RecoveryFailed | Settled | Recovered lora_row

definition settled_change :: "lora_row \<Rightarrow> fence_result \<Rightarrow> lora_change" where
  "settled_change job fr =
     (let c = (if lt_cancel_requested_at job = None
               then plain_change LoraFailed lora_label_failed 100 handoff_msg_failed []
               else plain_change LoraCancelled lora_stage_cancelled 100 handoff_msg_cancelled [])
      in case fr_job fr of
           None \<Rightarrow> c
         | Some st \<Rightarrow>
             if as_state st = ''completed''
             then c\<lparr>lc_state := LoraCompleted, lc_stage := lora_label_completed,
                    lc_message := truncate_lora_text (as_message st) 1000,
                    lc_artifact_name := truncate_lora_text (as_artifact_name st) 255,
                    lc_artifact_bytes := as_artifact_bytes st\<rparr>
             else c)"

definition reattach :: "clock \<Rightarrow> lora_row \<Rightarrow> agent_status \<Rightarrow> lora_db \<Rightarrow> recovery \<times> lora_db" where
  "reattach clk job st db =
     (if \<not> lora_state_valid (state_from_agent (as_state st)) \<or> as_unconfirmed st
      then (RecoveryFailed, db)
      else case attach_agent_job clk (lt_id job) (as_id st) (truncate_lora_text (as_stage st) 120)
                  handoff_msg_found (clamp_lora_progress (as_progress st)) db of
             Inl e \<Rightarrow> (RecoveryFailed, db)
           | Inr db1 \<Rightarrow>
               (case lora_job_by_id (lt_id job) db1 of
                  Inl e \<Rightarrow> (RecoveryFailed, db1)
                | Inr r \<Rightarrow> (Recovered r, db1)))"

definition settle ::
  "clock \<Rightarrow> lora_row \<Rightarrow> fence_result \<Rightarrow> lora_db \<Rightarrow> recovery \<times> lora_db \<times> lora_effect list" where
  "settle clk job fr db =
     (case (case fr_job fr of
              None \<Rightarrow> Inr db
            | Some st \<Rightarrow> attach_agent_job clk (lt_id job) (as_id st) handoff_stage_settled
                handoff_msg_settled 100 db) of
        Inl e \<Rightarrow> (RecoveryFailed, db, [])
      | Inr db1 \<Rightarrow>
          (case update_lora_job clk (lt_id job) (settled_change job fr) db1 of
             Inl e \<Rightarrow> (RecoveryFailed, db1, [])
           | Inr db2 \<Rightarrow>
               (case clear_dataset_path clk (lt_id job) db2 of
                  Inl e \<Rightarrow> (RecoveryFailed, db2, [DatasetRemoved (lt_id job)])
                | Inr db3 \<Rightarrow>
                    (Settled, db3, [DatasetRemoved (lt_id job), PauseReleased (lt_id job)]))))"

definition recover_lora_submission ::
  "clock \<Rightarrow> training_agent \<Rightarrow> lora_row \<Rightarrow> lora_db \<Rightarrow> recovery \<times> lora_db \<times> lora_effect list" where
  "recover_lora_submission clk ag job db =
     (case status_by_gateway_id ag (lt_public_id job) of
        Inr st \<Rightarrow> (let (r, db1) = reattach clk job st db in (r, db1, []))
      | Inl AgentFailure \<Rightarrow> (RecoveryFailed, db, [])
      | Inl AgentNotFound \<Rightarrow>
          (case fence_submission ag (lt_public_id job) of
             Inl e \<Rightarrow> (RecoveryFailed, db, [])
           | Inr fr \<Rightarrow> if \<not> fr_settled fr then (RecoveryFailed, db, []) else settle clk job fr db))"

section \<open>One training of a pass\<close>

text \<open>The agent's report on a training it knows.\<close>

definition status_change :: "agent_status \<Rightarrow> lora_change" where
  "status_change st =
     \<lparr>lc_state = state_from_agent (as_state st), lc_stage = truncate_lora_text (as_stage st) 120,
      lc_progress = clamp_lora_progress (as_progress st),
      lc_message = truncate_lora_text (as_message st) 1000,
      lc_error_message = truncate_lora_text (as_error st) 2000,
      lc_artifact_name = truncate_lora_text (as_artifact_name st) 255,
      lc_artifact_bytes = as_artifact_bytes st\<rparr>"

definition apply_status ::
  "clock \<Rightarrow> lora_row \<Rightarrow> agent_status \<Rightarrow> lora_db \<Rightarrow> lora_db \<times> lora_effect list" where
  "apply_status clk job st db =
     (let new = state_from_agent (as_state st); jid = lt_id job in
      if \<not> lora_state_valid new \<or> as_unconfirmed st \<or> as_id st \<noteq> lt_agent_job_id job \<or>
         as_gateway_job_id st \<noteq> lt_public_id job
      then (tried (update_lora_job clk jid
              (plain_change (lt_state job) lora_stage_unconfirmed (lt_progress job)
                 lora_msg_unconfirmed []) db) db, [])
      else case update_lora_job clk jid (status_change st) db of
             Inl e \<Rightarrow> (db, [])
           | Inr db1 \<Rightarrow>
               if lora_terminal new
               then let (db2, evs) = let_go clk jid db1 in (db2, evs @ [TrainingEnded jid new])
               else (db1, []))"

definition ask_agent ::
  "clock \<Rightarrow> training_agent \<Rightarrow> lora_row \<Rightarrow> lora_db \<Rightarrow> lora_db \<times> lora_effect list" where
  "ask_agent clk ag job db =
     (let sent = (if lt_cancel_requested_at job = None then [] else [CancelSent (lt_id job)]) in
      if sent \<noteq> [] \<and> \<not> is_ok (ta_cancel ag (lt_agent_job_id job)) then (db, sent)
      else case ta_status ag (lt_agent_job_id job) of
             Inl e \<Rightarrow> (db, sent)
           | Inr st \<Rightarrow> (let (db1, evs) = apply_status clk job st db in (db1, sent @ evs)))"

definition refresh_one ::
  "clock \<Rightarrow> training_agent \<Rightarrow> lora_row \<Rightarrow> lora_db \<Rightarrow> lora_db \<times> lora_effect list" where
  "refresh_one clk ag job db =
     (if lt_agent_job_id job \<noteq> [] then ask_agent clk ag job db
      else if lt_submission_started_at job \<noteq> None then
        (case recover_lora_submission clk ag job db of
           (RecoveryFailed, db1, evs) \<Rightarrow>
             (tried (set_handoff_message clk (lt_id job) handoff_msg_checking db1) db1, evs)
         | (Settled, db1, evs) \<Rightarrow> (db1, evs)
         | (Recovered r, db1, evs) \<Rightarrow> (let (db2, more) = ask_agent clk ag r db1 in (db2, evs @ more)))
      else if lt_cancel_requested_at job \<noteq> None then
        let_go clk (lt_id job)
          (tried (update_lora_job clk (lt_id job)
             (plain_change LoraCancelled lora_stage_cancelled 100 lora_msg_not_started []) db) db)
      else (db, []))"

fun refresh_all ::
  "clock \<Rightarrow> training_agent \<Rightarrow> lora_row list \<Rightarrow> lora_db \<Rightarrow> lora_db \<times> lora_effect list" where
  "refresh_all clk ag [] db = (db, [])"
| "refresh_all clk ag (job # rest) db =
     (let (db1, evs) = refresh_one clk ag job db;
          (db2, more) = refresh_all clk ag rest db1
      in (db2, evs @ more))"

section \<open>The next training\<close>

text \<open>
  What the surroundings answer when a training is handed over: whether the dataset file opens,
  the text of the error if not; what pausing the miner gives, an error or a warning.
\<close>

record lora_world =
  lw_open :: "string \<Rightarrow> string option"
  lw_no_user :: string
  lw_pause :: "int \<Rightarrow> string + string"

definition give_up ::
  "clock \<Rightarrow> int \<Rightarrow> string \<Rightarrow> string \<Rightarrow> string \<Rightarrow> lora_db \<Rightarrow> lora_db \<times> lora_effect list" where
  "give_up clk jid stage message err db =
     let_go clk jid
       (tried (update_lora_job clk jid (plain_change LoraFailed stage 100 message err) db) db)"

definition put_back :: "clock \<Rightarrow> int \<Rightarrow> string \<Rightarrow> lora_db \<Rightarrow> lora_db \<times> lora_effect list" where
  "put_back clk jid message db =
     (case requeue_lora_job clk jid message db of
        Inl e \<Rightarrow> (db, [])
      | Inr (r, db1) \<Rightarrow> if lora_terminal (lt_state r) then let_go clk (lt_id r) db1 else (db1, []))"

definition receipt_valid :: "lora_row \<Rightarrow> agent_status \<Rightarrow> bool" where
  "receipt_valid job st =
     (as_id st \<noteq> [] \<and> as_gateway_job_id st = lt_public_id job \<and> \<not> as_unconfirmed st \<and>
      lora_state_valid (state_from_agent (as_state st)))"

definition submit_training ::
  "clock \<Rightarrow> training_agent \<Rightarrow> string \<Rightarrow> lora_row \<Rightarrow> lora_db \<Rightarrow> lora_db \<times> lora_effect list" where
  "submit_training clk ag warning job db =
     (let jid = lt_id job; sent = [TrainingSent jid];
          unanswered = (tried (set_handoff_message clk jid handoff_msg_unanswered db) db, sent) in
      case ta_submit ag job of
        Inl e \<Rightarrow> unanswered
      | Inr st \<Rightarrow>
          if \<not> receipt_valid job st then unanswered
          else
            (let message = (if warning \<noteq> [] then trim_space (as_message st @ '' '' @ warning)
                            else as_message st) in
             case attach_agent_job clk jid (as_id st) (truncate_lora_text (as_stage st) 120)
                    (truncate_lora_text message 1000) (clamp_lora_progress (as_progress st)) db of
               Inl e \<Rightarrow> (db, sent)
             | Inr db1 \<Rightarrow>
                 (tried (clear_dataset_path clk jid db1) db1, sent @ [DatasetRemoved jid])))"

definition hand_over ::
  "clock \<Rightarrow> training_agent \<Rightarrow> lora_world \<Rightarrow> lora_row \<Rightarrow> lora_db \<Rightarrow> lora_db \<times> lora_effect list" where
  "hand_over clk ag lw job db =
     (let jid = lt_id job;
          uid = (case lt_user_id job of None \<Rightarrow> 0 | Some u \<Rightarrow> u) in
      case lw_open lw (lt_dataset_path job) of
        Some err \<Rightarrow> give_up clk jid lora_stage_no_dataset lora_msg_no_dataset err db
      | None \<Rightarrow>
          if \<not> lora_user_exists uid db
          then give_up clk jid lora_stage_no_user lora_msg_no_user (lw_no_user lw) db
          else
            (case lw_pause lw jid of
               Inl err \<Rightarrow> put_back clk jid (lora_msg_waiting_gpu @ err) db
             | Inr warning \<Rightarrow>
                 (case begin_lora_submission clk jid db of
                    Inl e \<Rightarrow> put_back clk jid lora_msg_retry db
                  | Inr (submission, db1) \<Rightarrow> submit_training clk ag warning submission db1)))"

definition dispatch_training ::
  "clock \<Rightarrow> training_agent \<Rightarrow> lora_world \<Rightarrow> lora_db \<Rightarrow> lora_db \<times> lora_effect list" where
  "dispatch_training clk ag lw db =
     (case claim_next_lora_job clk db of
        Inl e \<Rightarrow> (db, [])
      | Inr (job, db1) \<Rightarrow> hand_over clk ag lw job db1)"

text \<open>A pass.  Where the context ends after some trainings it stops there.\<close>

definition refresh_lora_trainings ::
  "clock \<Rightarrow> training_agent \<Rightarrow> lora_world \<Rightarrow> nat option \<Rightarrow> lora_db \<Rightarrow> lora_db \<times> lora_effect list" where
  "refresh_lora_trainings clk ag lw ended_after db =
     (let active = active_lora_jobs db in
      case ended_after of
        Some n \<Rightarrow>
          (if n < length active then refresh_all clk ag (take n active) db
           else let (db1, evs) = refresh_all clk ag active db;
                    (db2, more) = dispatch_training clk ag lw db1
                in (db2, evs @ more))
      | None \<Rightarrow>
          (let (db1, evs) = refresh_all clk ag active db;
               (db2, more) = dispatch_training clk ag lw db1
           in (db2, evs @ more)))"

section \<open>Deletion\<close>

datatype deletion = StillActive | AgentRefused | NoAgentReference | RowGone | Deleted

definition delete_lora_training ::
  "clock \<Rightarrow> training_agent option \<Rightarrow> lora_row \<Rightarrow> lora_db \<Rightarrow> deletion \<times> lora_db \<times> lora_effect list" where
  "delete_lora_training clk agent job db =
     (if \<not> lora_terminal (lt_state job) then (StillActive, db, [])
      else
        let asked = (if lt_agent_job_id job = [] then
                       (if lt_state job = LoraCompleted then Some NoAgentReference else None)
                     else case agent of
                            None \<Rightarrow> Some AgentRefused
                          | Some ag \<Rightarrow>
                              (case ta_delete ag (lt_agent_job_id job) of
                                 Inl AgentFailure \<Rightarrow> Some AgentRefused
                               | Inl AgentNotFound \<Rightarrow> None
                               | Inr st \<Rightarrow> None)) in
        case asked of
          Some refusal \<Rightarrow> (refusal, db, [])
        | None \<Rightarrow>
            (let (found, db1) = delete_terminal_lora_job (lt_id job) db in
             (if found then Deleted else RowGone, db1,
              [DatasetRemoved (lt_id job), PauseReleased (lt_id job)])))"

fun delete_all ::
  "clock \<Rightarrow> training_agent option \<Rightarrow> lora_row list \<Rightarrow> lora_db \<Rightarrow> int \<times> lora_db" where
  "delete_all clk agent [] db = (0, db)"
| "delete_all clk agent (job # rest) db =
     (let (r, db1, evs) = delete_lora_training clk agent job db;
          (n, db2) = delete_all clk agent rest db1
      in (if r = Deleted then n + 1 else n, db2))"

definition delete_expired_trainings ::
  "clock \<Rightarrow> training_agent option \<Rightarrow> lora_db \<Rightarrow> int \<times> lora_db" where
  "delete_expired_trainings clk agent db =
     delete_all clk agent (failed_lora_jobs_before (go_now clk - usec (24 * 60 * 60)) 100 db) db"

end
