(* ===== verification/LoraPasses.thy ===== *)
theory LoraPasses
  imports LoraWorker
begin

text \<open>
  What a pass of the training loop does to the store: it is a run of the store's own steps, it
  lets go of the miner's pause only for trainings that have ended or were never handed over,
  and it sends a training to the agent only after writing the mark that prevents a second time.
\<close>

section \<open>Operations on one training\<close>

definition others_same :: "int \<Rightarrow> lora_db \<Rightarrow> lora_db \<Rightarrow> bool" where
  "others_same jid s t \<longleftrightarrow>
     filter (\<lambda>r. lt_id r \<noteq> jid) (lora_jobs t) = filter (\<lambda>r. lt_id r \<noteq> jid) (lora_jobs s)"

lemma others_same_refl [simp]: "others_same jid s s"
  by (simp add: others_same_def)

lemma others_same_trans: "others_same jid s t \<Longrightarrow> others_same jid t u \<Longrightarrow> others_same jid s u"
  by (simp add: others_same_def)

lemma others_same_row:
  assumes "others_same jid s t" "lt_id r \<noteq> jid"
  shows "r \<in> set (lora_jobs t) \<longleftrightarrow> r \<in> set (lora_jobs s)"
proof -
  have "r \<in> set (filter (\<lambda>r. lt_id r \<noteq> jid) (lora_jobs t)) \<longleftrightarrow>
      r \<in> set (filter (\<lambda>r. lt_id r \<noteq> jid) (lora_jobs s))"
    using assms(1) by (simp add: others_same_def)
  then show ?thesis using assms(2) by simp
qed

lemma update_others:
  assumes "lora_update P f s = Inr (rows, t)" and "\<And>r. P r \<Longrightarrow> lt_id r = jid \<and> lt_id (f r) = jid"
  shows "others_same jid s t"
proof -
  have "filter (\<lambda>r. lt_id r \<noteq> jid) (sql_update P f rs) = filter (\<lambda>r. lt_id r \<noteq> jid) rs" for rs
    using assms(2) by (induction rs) auto
  then show ?thesis using assms(1) by (simp add: lora_update_Inr others_same_def)
qed

text \<open>A run of the store that touches one training.\<close>

definition touches :: "int \<Rightarrow> lora_db \<Rightarrow> lora_db \<Rightarrow> bool" where
  "touches jid s t \<longleftrightarrow> steps lora_step s t \<and> others_same jid s t"

lemma touches_refl [simp]: "touches jid s s"
  by (simp add: touches_def)

lemma touches_trans: "touches jid s t \<Longrightarrow> touches jid t u \<Longrightarrow> touches jid s u"
  by (auto simp: touches_def elim: steps_trans others_same_trans)

lemma touches_inv: "touches jid s t \<Longrightarrow> lora_inv s \<Longrightarrow> lora_inv t"
  using lora.run_inv[of s t] by (simp add: touches_def)

lemma tried_touches: "(\<And>t. m = Inr t \<Longrightarrow> touches jid s t) \<Longrightarrow> touches jid s (tried m s)"
  by (cases m) auto

lemma touchesI: "lora_step s t \<Longrightarrow> others_same jid s t \<Longrightarrow> touches jid s t"
  by (simp add: touches_def steps_one)

lemma clear_touches:
  assumes op: "clear_dataset_path clk jid s = Inr t"
  shows "touches jid s t"
proof (rule touchesI[OF ls_clear[OF op]])
  show "others_same jid s t"
    using op by (auto simp: clear_dataset_path_def res_bind_snd elim!: update_others)
qed

lemma handoff_touches:
  assumes op: "set_handoff_message clk jid msg s = Inr t"
  shows "touches jid s t"
proof (rule touchesI[OF ls_handoff[OF op]])
  show "others_same jid s t"
    using op by (auto simp: set_handoff_message_def res_bind_snd elim!: update_others)
qed

lemma attach_touches:
  assumes op: "attach_agent_job clk jid agent stage msg progress s = Inr t"
  shows "touches jid s t"
proof (rule touchesI[OF ls_attach[OF op]])
  show "others_same jid s t"
    using op by (auto simp: attach_agent_job_def res_bind_snd lora_one_Inr elim!: update_others)
qed

lemma requeue_touches:
  assumes op: "requeue_lora_job clk jid msg s = Inr (r, t)"
  shows "touches jid s t"
proof (rule touchesI[OF ls_requeue[OF op]])
  show "others_same jid s t"
    using op by (auto simp: requeue_lora_job_def lora_one_Inr back_to_queue_def elim!: update_others)
qed

lemma begin_touches:
  assumes op: "begin_lora_submission clk jid s = Inr (r, t)"
  shows "touches jid s t"
proof (rule touchesI[OF ls_begin[OF op]])
  show "others_same jid s t"
    using op by (auto simp: begin_lora_submission_def lora_one_Inr elim!: update_others)
qed

lemma lora_changed_id [simp]: "lt_id (lora_changed clk c r) = lt_id r"
  by (simp add: lora_changed_def)

lemma update_touches:
  assumes op: "update_lora_job clk jid c s = Inr t" "is_with_agent jid s" "lc_state c \<noteq> LoraQueued"
  shows "touches jid s t"
proof (rule touchesI[OF ls_update[OF op]])
  show "others_same jid s t"
    using op(1) by (auto simp: update_lora_job_def res_bind_snd split: if_splits elim!: update_others)
qed

section \<open>When the pause is let go\<close>

text \<open>A training that has ended, or was claimed and never handed over.\<close>

definition never_or_ended :: "int \<Rightarrow> lora_db \<Rightarrow> bool" where
  "never_or_ended jid s \<longleftrightarrow> (\<forall>r\<in>set (lora_jobs s). lt_id r = jid \<longrightarrow>
     lora_terminal (lt_state r) \<or> lt_submission_started_at r = None \<and> lt_state r \<noteq> LoraQueued)"

definition pass_ok :: "int \<Rightarrow> lora_db \<Rightarrow> lora_db \<Rightarrow> lora_effect list \<Rightarrow> bool" where
  "pass_ok jid s t evs \<longleftrightarrow> touches jid s t \<and>
     (\<forall>k. PauseReleased k \<in> set evs \<longrightarrow> k = jid \<and> never_or_ended jid t) \<and>
     (\<forall>k. TrainingSent k \<notin> set evs)"

lemma pass_ok_quiet: "touches jid s t \<Longrightarrow> pass_ok jid s t []"
  by (simp add: pass_ok_def)

lemma pass_ok_after: "touches jid s t \<Longrightarrow> pass_ok jid t u evs \<Longrightarrow> pass_ok jid s u evs"
  by (auto simp: pass_ok_def elim: touches_trans)

lemma pass_ok_cons:
  "pass_ok jid s t evs \<Longrightarrow> e \<notin> range PauseReleased \<union> range TrainingSent \<Longrightarrow> pass_ok jid s t (e # evs)"
  by (auto simp: pass_ok_def)

lemma pass_ok_snoc:
  "pass_ok jid s t evs \<Longrightarrow> e \<notin> range PauseReleased \<union> range TrainingSent \<Longrightarrow> pass_ok jid s t (evs @ [e])"
  by (auto simp: pass_ok_def)

lemma lora_update_rowE:
  assumes "lora_update P f s = Inr (rows, t)" "q \<in> set (lora_jobs t)"
  obtains r where "r \<in> set (lora_jobs s)" "q = (if P r then f r else r)"
  using assms by (auto simp: lora_update_Inr set_sql_update)

lemma clear_never_or_ended:
  assumes "clear_dataset_path clk jid s = Inr t" "never_or_ended k s"
  shows "never_or_ended k t"
  unfolding never_or_ended_def
proof (intro ballI impI)
  fix q
  assume q: "q \<in> set (lora_jobs t)" "lt_id q = k"
  obtain rows where "lora_update (\<lambda>r. lt_id r = jid)
      (\<lambda>r. r\<lparr>lt_dataset_path := [], lt_updated_at := tx_now clk\<rparr>) s = Inr (rows, t)"
    using assms(1) by (auto simp: clear_dataset_path_def res_bind_snd)
  from this q(1) obtain r where "r \<in> set (lora_jobs s)"
    "q = (if lt_id r = jid then r\<lparr>lt_dataset_path := [], lt_updated_at := tx_now clk\<rparr> else r)"
    by (rule lora_update_rowE)
  with assms(2) q(2) show "lora_terminal (lt_state q) \<or>
      lt_submission_started_at q = None \<and> lt_state q \<noteq> LoraQueued"
    by (auto simp: never_or_ended_def split: if_splits)
qed

lemma let_go_ok:
  assumes "let_go clk jid s = (t, evs)" "never_or_ended jid s"
  shows "pass_ok jid s t evs"
proof (cases "clear_dataset_path clk jid s")
  case (Inl e)
  with assms show ?thesis by (auto simp: let_go_def pass_ok_def)
next
  case (Inr u)
  with assms clear_touches[OF Inr] clear_never_or_ended[OF Inr] show ?thesis
    by (auto simp: let_go_def pass_ok_def)
qed

lemma update_state:
  assumes "update_lora_job clk jid c s = Inr t" "q \<in> set (lora_jobs t)" "lt_id q = jid"
  shows "lt_state q = lc_state c"
proof -
  obtain rows where "lora_update (\<lambda>r. lt_id r = jid) (lora_changed clk c) s = Inr (rows, t)"
    using assms(1) by (auto simp: update_lora_job_def res_bind_snd split: if_splits)
  from this assms(2) obtain r where "q = (if lt_id r = jid then lora_changed clk c r else r)"
    by (rule lora_update_rowE)
  with assms(3) show ?thesis by (auto simp: lora_changed_def split: if_splits)
qed

lemma update_ends:
  "update_lora_job clk jid c s = Inr t \<Longrightarrow> lora_terminal (lc_state c) \<Longrightarrow> never_or_ended jid t"
  by (auto simp: never_or_ended_def dest: update_state)

lemma with_agent_not_queued: "with_agent st \<Longrightarrow> st \<noteq> LoraQueued"
  by (auto simp: with_agent_def)

lemma state_from_agent_not_queued: "state_from_agent s \<noteq> LoraQueued"
  by (simp add: state_from_agent_def)

lemma apply_status_ok:
  assumes "apply_status clk job st s = (t, evs)" "is_with_agent (lt_id job) s" "with_agent (lt_state job)"
  shows "pass_ok (lt_id job) s t evs"
proof (cases "\<not> lora_state_valid (state_from_agent (as_state st)) \<or> as_unconfirmed st \<or>
    as_id st \<noteq> lt_agent_job_id job \<or> as_gateway_job_id st \<noteq> lt_public_id job")
  case True
  let ?c = "plain_change (lt_state job) lora_stage_unconfirmed (lt_progress job) lora_msg_unconfirmed []"
  have "touches (lt_id job) s (tried (update_lora_job clk (lt_id job) ?c s) s)"
    by (rule tried_touches, erule update_touches)
       (use assms with_agent_not_queued in \<open>auto simp: plain_change_def\<close>)
  with True assms(1) show ?thesis by (auto simp: apply_status_def Let_def intro: pass_ok_quiet)
next
  case valid: False
  show ?thesis
  proof (cases "update_lora_job clk (lt_id job) (status_change st) s")
    case (Inl e)
    with valid assms(1) show ?thesis by (auto simp: apply_status_def Let_def intro: pass_ok_quiet)
  next
    case (Inr u)
    have u: "touches (lt_id job) s u"
      by (rule update_touches[OF Inr assms(2)]) (simp add: status_change_def state_from_agent_not_queued)
    show ?thesis
    proof (cases "lora_terminal (state_from_agent (as_state st))")
      case True
      then have "never_or_ended (lt_id job) u"
        using update_ends[OF Inr] by (simp add: status_change_def)
      moreover obtain v more where go: "let_go clk (lt_id job) u = (v, more)" by force
      ultimately have "pass_ok (lt_id job) s v more" using let_go_ok u pass_ok_after by blast
      with valid Inr True go assms(1) show ?thesis
        by (auto simp: apply_status_def Let_def intro!: pass_ok_snoc)
    next
      case False
      with valid Inr assms(1) u show ?thesis by (auto simp: apply_status_def Let_def intro: pass_ok_quiet)
    qed
  qed
qed

lemma ask_agent_ok:
  assumes "ask_agent clk ag job s = (t, evs)" "is_with_agent (lt_id job) s" "with_agent (lt_state job)"
  shows "pass_ok (lt_id job) s t evs"
proof -
  have quiet: "pass_ok (lt_id job) s s []" "pass_ok (lt_id job) s s [CancelSent k]" for k
    by (simp_all add: pass_ok_def)
  show ?thesis
  proof (cases "ta_status ag (lt_agent_job_id job)")
    case (Inl e)
    with assms(1) quiet show ?thesis by (auto simp: ask_agent_def Let_def split: if_splits)
  next
    case (Inr st)
    obtain u more where u: "apply_status clk job st s = (u, more)" by force
    have "pass_ok (lt_id job) s u more" by (rule apply_status_ok[OF u assms(2,3)])
    with Inr u assms(1) quiet show ?thesis
      by (auto simp: ask_agent_def Let_def split: if_splits intro!: pass_ok_cons)
  qed
qed

section \<open>A hand-over whose outcome is unknown\<close>

lemma attach_with_agent:
  assumes op: "attach_agent_job clk jid agent stage msg progress s = Inr t" and w: "is_with_agent jid s"
  shows "is_with_agent jid t"
  unfolding is_with_agent_def
proof (intro ballI impI)
  fix q
  assume q: "q \<in> set (lora_jobs t)" "lt_id q = jid"
  from op obtain x xs where u: "lora_update
      (\<lambda>r. lt_id r = jid \<and> lt_state r = LoraUploading \<and> (lt_agent_job_id r = [] \<or> lt_agent_job_id r = agent))
      (\<lambda>r. r\<lparr>lt_agent_job_id := agent, lt_state := LoraPreparing, lt_stage := stage,
         lt_message := msg, lt_progress := progress,
         lt_started_at := finish_at clk (lt_started_at r), lt_updated_at := tx_now clk\<rparr>) s = Inr (x # xs, t)"
    by (auto simp: attach_agent_job_def res_bind_snd lora_one_Inr)
  show "with_agent (lt_state q)"
    by (rule lora_update_rowE[OF u q(1)])
       (use q w in \<open>auto simp: is_with_agent_def with_agent_def split: if_splits\<close>)
qed

lemma job_by_id_row: "lora_job_by_id jid s = Inr r \<Longrightarrow> r \<in> set (lora_jobs s) \<and> lt_id r = jid"
  by (auto simp: lora_job_by_id_def lora_find_def dest: sql_find_Some split: option.splits)

lemma reattach_ok:
  assumes "reattach clk job st s = (r, t)" "is_with_agent (lt_id job) s"
  shows "touches (lt_id job) s t \<and> r \<noteq> Settled \<and>
    (\<forall>q. r = Recovered q \<longrightarrow> lt_id q = lt_id job \<and> with_agent (lt_state q) \<and> is_with_agent (lt_id job) t)"
proof (cases "attach_agent_job clk (lt_id job) (as_id st) (truncate_lora_text (as_stage st) 120)
    handoff_msg_found (clamp_lora_progress (as_progress st)) s")
  case (Inl e)
  with assms(1) show ?thesis by (auto simp: reattach_def split: if_splits)
next
  case (Inr u)
  note u = attach_touches[OF Inr] attach_with_agent[OF Inr assms(2)]
  with Inr assms(1) show ?thesis
    by (auto simp: reattach_def is_with_agent_def split: if_splits sum.splits dest!: job_by_id_row)
qed

lemma settled_state: "lora_terminal (lc_state (settled_change job fr))"
  by (auto simp: settled_change_def plain_change_def lora_terminal_def Let_def split: option.splits)

lemma settle_ok:
  assumes "settle clk job fr s = (r, t, evs)" "is_with_agent (lt_id job) s"
  shows "pass_ok (lt_id job) s t evs \<and> (\<forall>q. r \<noteq> Recovered q)"
proof -
  let ?att = "case fr_job fr of None \<Rightarrow> Inr s | Some st \<Rightarrow> attach_agent_job clk (lt_id job) (as_id st)
      handoff_stage_settled handoff_msg_settled 100 s"
  show ?thesis
  proof (cases ?att)
    case (Inl e)
    with assms(1) show ?thesis by (auto simp: settle_def intro: pass_ok_quiet)
  next
    case (Inr u)
    then have u: "touches (lt_id job) s u" "is_with_agent (lt_id job) u"
      using assms(2) attach_touches attach_with_agent by (auto split: option.splits)
    show ?thesis
    proof (cases "update_lora_job clk (lt_id job) (settled_change job fr) u")
      case (Inl e)
      with Inr assms(1) u show ?thesis by (auto simp: settle_def intro: pass_ok_quiet)
    next
      case upd: (Inr v)
      have v: "touches (lt_id job) s v" "never_or_ended (lt_id job) v"
        using update_touches[OF upd u(2)] settled_state[of job fr] update_ends[OF upd]
          touches_trans[OF u(1)] by (auto simp: lora_terminal_def)
      show ?thesis
      proof (cases "clear_dataset_path clk (lt_id job) v")
        case (Inl e)
        with Inr upd assms(1) v show ?thesis by (auto simp: settle_def pass_ok_def)
      next
        case clr: (Inr w)
        have "touches (lt_id job) s w" "never_or_ended (lt_id job) w"
          using touches_trans[OF v(1) clear_touches[OF clr]] clear_never_or_ended[OF clr v(2)] .
        with Inr upd clr assms(1) show ?thesis by (auto simp: settle_def pass_ok_def)
      qed
    qed
  qed
qed

lemma recover_submission_ok:
  assumes "recover_lora_submission clk ag job s = (r, t, evs)" "is_with_agent (lt_id job) s"
  shows "pass_ok (lt_id job) s t evs \<and>
    (\<forall>q. r = Recovered q \<longrightarrow> lt_id q = lt_id job \<and> with_agent (lt_state q) \<and> is_with_agent (lt_id job) t)"
proof (cases "status_by_gateway_id ag (lt_public_id job)")
  case (Inr st)
  obtain r1 u where re: "reattach clk job st s = (r1, u)" by force
  with Inr assms(1) have e: "r1 = r" "u = t" "evs = []" by (simp_all add: recover_lora_submission_def)
  from reattach_ok[OF re assms(2)] pass_ok_quiet show ?thesis unfolding e by blast
next
  case (Inl e)
  have quiet: "pass_ok (lt_id job) s s []" by (simp add: pass_ok_quiet)
  show ?thesis
  proof (cases "\<exists>fr. e = AgentNotFound \<and> fence_submission ag (lt_public_id job) = Inr fr \<and> fr_settled fr")
    case True
    then obtain fr where "e = AgentNotFound" "fence_submission ag (lt_public_id job) = Inr fr" "fr_settled fr"
      by blast
    with Inl assms(1) have "settle clk job fr s = (r, t, evs)" by (simp add: recover_lora_submission_def)
    from settle_ok[OF this assms(2)] show ?thesis by blast
  next
    case False
    with Inl assms(1) quiet show ?thesis
      by (auto simp: recover_lora_submission_def split: agent_error.splits sum.splits if_splits)
  qed
qed

text \<open>Only a settled outcome lets the pause go.\<close>

lemma settle_quiet:
  "recover_lora_submission clk ag job s = (RecoveryFailed, t, evs) \<Longrightarrow> PauseReleased k \<notin> set evs"
  by (auto simp: recover_lora_submission_def settle_def split: sum.splits agent_error.splits if_splits
      prod.splits option.splits)

lemma recovered_quiet:
  "recover_lora_submission clk ag job s = (Recovered q, t, evs) \<Longrightarrow> evs = []"
  by (auto simp: recover_lora_submission_def settle_def split: sum.splits agent_error.splits if_splits
      prod.splits option.splits)

section \<open>A pass over the trainings with the agent\<close>

lemma refresh_one_ok:
  assumes "refresh_one clk ag job s = (t, evs)" "lora_inv s" "job \<in> set (lora_jobs s)" "with_agent (lt_state job)"
  shows "pass_ok (lt_id job) s t evs"
proof -
  have only: "q = job" if "q \<in> set (lora_jobs s)" "lt_id q = lt_id job" for q
    using unique_keyD[OF lora_inv_id[OF assms(2)] that(1) assms(3) that(2)] .
  then have w: "is_with_agent (lt_id job) s" using assms(4) by (auto simp: is_with_agent_def)
  consider (known) "lt_agent_job_id job \<noteq> []"
    | (unknown) "lt_agent_job_id job = []" "lt_submission_started_at job \<noteq> None"
    | (cancelled) "lt_agent_job_id job = []" "lt_submission_started_at job = None"
        "lt_cancel_requested_at job \<noteq> None"
    | (waiting) "lt_agent_job_id job = []" "lt_submission_started_at job = None"
        "lt_cancel_requested_at job = None"
    by blast
  then show ?thesis
  proof cases
    case known
    with assms(1) have "ask_agent clk ag job s = (t, evs)" by (simp add: refresh_one_def)
    from ask_agent_ok[OF this w assms(4)] show ?thesis .
  next
    case unknown
    obtain r u more where rec: "recover_lora_submission clk ag job s = (r, u, more)" by (metis prod_cases3)
    note ok = recover_submission_ok[OF rec w]
    show ?thesis
    proof (cases r)
      case RecoveryFailed
      let ?m = "set_handoff_message clk (lt_id job) handoff_msg_checking u"
      have "touches (lt_id job) u (tried ?m u)" by (rule tried_touches) (rule handoff_touches)
      moreover have "never_or_ended (lt_id job) (tried ?m u)" if "PauseReleased k \<in> set more" for k
        using that settle_quiet rec RecoveryFailed by blast
      ultimately show ?thesis using RecoveryFailed unknown rec ok assms(1)
        by (auto simp: refresh_one_def pass_ok_def elim: touches_trans)
    next
      case Settled
      with unknown rec ok assms(1) show ?thesis by (simp add: refresh_one_def)
    next
      case (Recovered q)
      obtain v rest where v: "ask_agent clk ag q u = (v, rest)" by force
      from ok Recovered have q: "lt_id q = lt_id job" "with_agent (lt_state q)" "is_with_agent (lt_id job) u"
        by blast+
      have "pass_ok (lt_id job) u v rest" using ask_agent_ok[OF v] by (simp add: q)
      then have "pass_ok (lt_id job) s v rest" using ok unfolding pass_ok_def[of _ s u] by (blast intro: pass_ok_after)
      moreover have "more = []" using recovered_quiet rec Recovered by blast
      moreover have "v = t" "more @ rest = evs"
        using Recovered unknown rec v assms(1) by (simp_all add: refresh_one_def)
      ultimately show ?thesis by simp
    qed
  next
    case cancelled
    let ?c = "plain_change LoraCancelled lora_stage_cancelled 100 lora_msg_not_started []"
    let ?u = "tried (update_lora_job clk (lt_id job) ?c s) s"
    have u: "touches (lt_id job) s ?u"
      by (rule tried_touches, erule update_touches) (use w in \<open>auto simp: plain_change_def\<close>)
    have "never_or_ended (lt_id job) ?u"
    proof (cases "update_lora_job clk (lt_id job) ?c s")
      case (Inl e)
      then show ?thesis using only cancelled with_agent_not_queued[OF assms(4)]
        by (auto simp: never_or_ended_def)
    next
      case (Inr x)
      then show ?thesis using update_ends[OF Inr] by (simp add: plain_change_def lora_terminal_def)
    qed
    moreover have "let_go clk (lt_id job) ?u = (t, evs)" using cancelled assms(1) by (simp add: refresh_one_def)
    ultimately show ?thesis using let_go_ok u pass_ok_after by blast
  next
    case waiting
    with assms(1) show ?thesis by (auto simp: refresh_one_def intro: pass_ok_quiet)
  qed
qed

lemma never_or_ended_others:
  assumes "others_same jid s t" "k \<noteq> jid" "never_or_ended k s"
  shows "never_or_ended k t"
  using assms others_same_row[OF assms(1)] by (auto simp: never_or_ended_def)

lemma refresh_all_ok:
  assumes "refresh_all clk ag trs s = (t, evs)" "lora_inv s" "distinct (map lt_id trs)"
    and "\<And>j. j \<in> set trs \<Longrightarrow> j \<in> set (lora_jobs s) \<and> with_agent (lt_state j)"
  shows "steps lora_step s t \<and> (\<forall>k. PauseReleased k \<in> set evs \<longrightarrow> never_or_ended k t) \<and>
    (\<forall>k. TrainingSent k \<notin> set evs) \<and>
    (\<forall>r. lt_id r \<notin> lt_id ` set trs \<longrightarrow> (r \<in> set (lora_jobs t) \<longleftrightarrow> r \<in> set (lora_jobs s)))"
  using assms
proof (induction trs arbitrary: s evs)
  case Nil
  then show ?case by simp
next
  case (Cons j js)
  obtain u e1 where one: "refresh_one clk ag j s = (u, e1)" by force
  obtain e2 where rest: "refresh_all clk ag js u = (t, e2)" "evs = e1 @ e2"
    using Cons.prems(1) one by (auto split: prod.splits)
  have ok: "pass_ok (lt_id j) s u e1"
    using refresh_one_ok[OF one Cons.prems(2)] Cons.prems(4)[of j] by simp
  then have su: "steps lora_step s u" "others_same (lt_id j) s u"
    by (simp_all add: pass_ok_def touches_def)
  have inv: "lora_inv u" using lora.run_inv[OF su(1) Cons.prems(2)] .
  have new: "lt_id k \<noteq> lt_id j" if "k \<in> set js" for k
  proof -
    have "lt_id j \<notin> lt_id ` set js" using Cons.prems(3) by simp
    with imageI[OF that, of lt_id] show ?thesis by metis
  qed
  have rows: "k \<in> set (lora_jobs u) \<and> with_agent (lt_state k)" if "k \<in> set js" for k
    using Cons.prems(4)[of k] others_same_row[OF su(2) new[OF that]] that by simp
  have dist: "distinct (map lt_id js)" using Cons.prems(3) by simp
  note IH = Cons.IH[OF rest(1) inv dist rows]
  have keep: "never_or_ended k t" if "k \<notin> lt_id ` set js" "never_or_ended k u" for k
    using that IH unfolding never_or_ended_def by blast
  have "never_or_ended k t" if "PauseReleased k \<in> set e1" for k
    using ok that keep[of k] new unfolding pass_ok_def by fastforce
  moreover have "r \<in> set (lora_jobs t) \<longleftrightarrow> r \<in> set (lora_jobs s)" if "lt_id r \<notin> lt_id ` set (j # js)" for r
    using IH others_same_row[OF su(2), of r] that by simp
  ultimately show ?case using IH ok steps_trans[OF su(1)] unfolding rest(2) pass_ok_def by auto
qed

section \<open>Handing a training over\<close>

definition handed_over :: "int \<Rightarrow> lora_db \<Rightarrow> lora_db \<Rightarrow> bool" where
  "handed_over jid s t \<longleftrightarrow> (\<exists>u v clk r. steps lora_step s u \<and> lora_inv u \<and>
     begin_lora_submission clk jid u = Inr (r, v) \<and> steps lora_step v t)"

definition hand_ok :: "int \<Rightarrow> lora_db \<Rightarrow> lora_db \<Rightarrow> lora_effect list \<Rightarrow> bool" where
  "hand_ok jid s t evs \<longleftrightarrow> touches jid s t \<and>
     (\<forall>k. PauseReleased k \<in> set evs \<longrightarrow> k = jid \<and> never_or_ended jid t) \<and>
     (\<forall>k. TrainingSent k \<in> set evs \<longrightarrow> k = jid \<and> handed_over jid s t) \<and>
     (\<forall>k. count_list evs (TrainingSent k) \<le> 1)"

lemma count_list_absent: "x \<notin> set xs \<Longrightarrow> count_list xs x \<le> 1"
  by (simp add: count_list_0_iff)

lemma pass_hand_ok: "pass_ok jid s t evs \<Longrightarrow> hand_ok jid s t evs"
  by (auto simp: pass_ok_def hand_ok_def intro: count_list_absent)

definition just_claimed :: "int \<Rightarrow> lora_db \<Rightarrow> bool" where
  "just_claimed jid s \<longleftrightarrow> (\<forall>r\<in>set (lora_jobs s). lt_id r = jid \<longrightarrow>
     lt_state r = LoraUploading \<and> lt_submission_started_at r = None)"

lemma just_claimed_facts:
  "just_claimed jid s \<Longrightarrow> is_with_agent jid s" "just_claimed jid s \<Longrightarrow> never_or_ended jid s"
  by (auto simp: just_claimed_def is_with_agent_def with_agent_def never_or_ended_def)

lemma give_up_ok:
  assumes "give_up clk jid stage message err s = (t, evs)" "just_claimed jid s"
  shows "pass_ok jid s t evs"
proof -
  let ?c = "plain_change LoraFailed stage 100 message err"
  let ?u = "tried (update_lora_job clk jid ?c s) s"
  have "touches jid s ?u"
    by (rule tried_touches, erule update_touches)
       (use just_claimed_facts[OF assms(2)] in \<open>auto simp: plain_change_def\<close>)
  moreover have "never_or_ended jid ?u"
  proof (cases "update_lora_job clk jid ?c s")
    case (Inl e)
    then show ?thesis using just_claimed_facts[OF assms(2)] by simp
  next
    case (Inr v)
    then show ?thesis using update_ends[OF Inr] by (simp add: plain_change_def lora_terminal_def)
  qed
  moreover have "let_go clk jid ?u = (t, evs)" using assms(1) by (simp add: give_up_def)
  ultimately show ?thesis using let_go_ok pass_ok_after by blast
qed

lemma requeued_row:
  assumes "requeue_lora_job clk jid msg s = Inr (r, t)"
  shows "r \<in> set (lora_jobs t) \<and> lt_id r = jid"
proof -
  from assms obtain q where "q \<in> set (lora_jobs s)" "lt_id q = jid \<and> not_handed_over q"
    "r = back_to_queue clk msg lora_msg_requeue_cancelled q"
    "lora_jobs t = sql_update (\<lambda>r. lt_id r = jid \<and> not_handed_over r)
       (back_to_queue clk msg lora_msg_requeue_cancelled) (lora_jobs s)"
    unfolding requeue_lora_job_def by (elim lora_one_rowE)
  then show ?thesis by (auto simp: set_sql_update image_iff back_to_queue_def intro!: bexI[of _ q])
qed

lemma put_back_ok:
  assumes "put_back clk jid msg s = (t, evs)" "lora_inv s"
  shows "pass_ok jid s t evs"
proof (cases "requeue_lora_job clk jid msg s")
  case (Inl e)
  with assms(1) show ?thesis by (auto simp: put_back_def intro: pass_ok_quiet)
next
  case (Inr ru)
  obtain r u where ru: "ru = (r, u)" by force
  note req = Inr[unfolded ru]
  have u: "touches jid s u" by (rule requeue_touches[OF req])
  note inv = touches_inv[OF u assms(2)]
  have r: "r \<in> set (lora_jobs u)" "lt_id r = jid" using requeued_row[OF req] by auto
  show ?thesis
  proof (cases "lora_terminal (lt_state r)")
    case True
    have "q = r" if "q \<in> set (lora_jobs u)" "lt_id q = jid" for q
      using unique_keyD[OF lora_inv_id[OF inv] that(1) r(1)] that(2) r(2) by simp
    then have "never_or_ended jid u" using True by (auto simp: never_or_ended_def)
    moreover have "let_go clk jid u = (t, evs)" using assms(1) req True r(2) by (simp add: put_back_def)
    ultimately show ?thesis using let_go_ok u pass_ok_after by blast
  next
    case False
    with assms(1) req u show ?thesis by (auto simp: put_back_def intro: pass_ok_quiet)
  qed
qed

lemma submit_ok:
  assumes "submit_training clk ag warning job s = (t, evs)"
  shows "touches (lt_id job) s t \<and> (\<forall>k. PauseReleased k \<notin> set evs) \<and>
    (\<forall>k. TrainingSent k \<in> set evs \<longrightarrow> k = lt_id job) \<and> (\<forall>k. count_list evs (TrainingSent k) \<le> 1)"
proof -
  have un: "touches (lt_id job) s (tried (set_handoff_message clk (lt_id job) msg s) s)" for msg
    by (rule tried_touches) (rule handoff_touches)
  have cl: "touches (lt_id job) s (tried (clear_dataset_path clk (lt_id job) u) u)"
    if "attach_agent_job clk (lt_id job) agent stage msg progress s = Inr u" for u agent stage msg progress
    by (rule touches_trans[OF attach_touches[OF that]], rule tried_touches) (rule clear_touches)
  show ?thesis
  proof (cases "ta_submit ag job")
    case (Inl e)
    with assms un show ?thesis by (auto simp: submit_training_def Let_def)
  next
    case (Inr st)
    with assms un cl show ?thesis
      by (auto simp: submit_training_def Let_def split: if_splits sum.splits)
  qed
qed

lemma hand_over_ok:
  assumes "hand_over clk ag lw job s = (t, evs)" "just_claimed (lt_id job) s" "lora_inv s"
  shows "hand_ok (lt_id job) s t evs"
proof -
  let ?jid = "lt_id job"
  let ?uid = "case lt_user_id job of None \<Rightarrow> 0 | Some u \<Rightarrow> u"
  note give = pass_hand_ok[OF give_up_ok[OF _ assms(2)]]
  note undo = pass_hand_ok[OF put_back_ok[OF _ assms(3)]]
  consider (no_file) err where "lw_open lw (lt_dataset_path job) = Some err"
    | (owner) "lw_open lw (lt_dataset_path job) = None" "\<not> lora_user_exists ?uid s"
    | (pause) err where "lw_open lw (lt_dataset_path job) = None" "lora_user_exists ?uid s"
        "lw_pause lw ?jid = Inl err"
    | (mark) e w where "lw_open lw (lt_dataset_path job) = None" "lora_user_exists ?uid s"
        "lw_pause lw ?jid = Inr w" "begin_lora_submission clk ?jid s = Inl e"
    | (sent) w r u where "lw_open lw (lt_dataset_path job) = None" "lora_user_exists ?uid s"
        "lw_pause lw ?jid = Inr w" "begin_lora_submission clk ?jid s = Inr (r, u)"
    by (metis not_None_eq sum.exhaust_sel prod.exhaust_sel)
  then show ?thesis
  proof cases
    case no_file
    show ?thesis by (rule give) (use no_file assms(1) in \<open>simp add: hand_over_def Let_def\<close>)
  next
    case owner
    show ?thesis by (rule give) (use owner assms(1) in \<open>simp add: hand_over_def Let_def\<close>)
  next
    case pause
    show ?thesis by (rule undo) (use pause assms(1) in \<open>simp add: hand_over_def Let_def\<close>)
  next
    case mark
    show ?thesis by (rule undo) (use mark assms(1) in \<open>simp add: hand_over_def Let_def\<close>)
  next
    case sent
    then have sub: "submit_training clk ag w r u = (t, evs)"
      using assms(1) by (simp add: hand_over_def Let_def)
    have r: "lt_id r = ?jid" using sent(4) unfolding begin_lora_submission_def by (elim lora_one_rowE) simp
    note ok = submit_ok[OF sub, unfolded r]
    have "touches ?jid s t" using touches_trans[OF begin_touches[OF sent(4)]] ok by blast
    moreover have "handed_over ?jid s t"
      unfolding handed_over_def touches_def using sent(4) assms(3) ok[unfolded touches_def] by blast
    ultimately show ?thesis using ok unfolding hand_ok_def by blast
  qed
qed

lemma claim_just_claimed:
  assumes "claim_next_lora_job clk s = Inr (q, t)" "lora_inv s"
  shows "steps lora_step s t \<and> lora_inv t \<and> just_claimed (lt_id q) t \<and> others_same (lt_id q) s t \<and>
    (\<forall>k. never_or_ended k s \<longrightarrow> k \<noteq> lt_id q)"
proof -
  from assms(1) obtain p where p: "p \<in> set (lora_jobs s)" "lt_state p = LoraQueued" "lt_id q = lt_id p"
    by (rule claim_row)
  have only: "r = p" if "r \<in> set (lora_jobs s)" "lt_id r = lt_id p" for r
    using unique_keyD[OF lora_inv_id[OF assms(2)] that(1) p(1) that(2)] .
  let ?f = "\<lambda>r. r\<lparr>lt_state := LoraUploading, lt_stage := lora_stage_upload, lt_progress := 2,
      lt_message := lora_msg_upload, lt_updated_at := tx_now clk\<rparr>"
  obtain j where j: "next_lora_job s = Some j"
    using assms(1) by (cases "next_lora_job s") (auto simp: claim_next_lora_job_def)
  then have one: "lora_one (lora_update (\<lambda>r. lt_id r = lt_id j) ?f s) = Inr (q, t)"
    using assms(1) by (simp add: claim_next_lora_job_def)
  from one have u: "\<exists>rows. lora_update (\<lambda>r. lt_id r = lt_id j) ?f s = Inr (rows, t)"
    unfolding lora_one_Inr by blast
  from one obtain r where r: "q = ?f r" "lt_id r = lt_id j"
    "lora_jobs t = sql_update (\<lambda>r. lt_id r = lt_id j) ?f (lora_jobs s)"
    by (rule lora_one_rowE)
  have jp: "lt_id j = lt_id p" using r(1,2) p(3) by simp
  have step: "lora_step s t" by (rule ls_claim[OF assms(1)])
  have "just_claimed (lt_id q) t" unfolding just_claimed_def
  proof (intro ballI impI)
    fix v
    assume v: "v \<in> set (lora_jobs t)" "lt_id v = lt_id q"
    from v(1)[unfolded r(3) jp] show "lt_state v = LoraUploading \<and> lt_submission_started_at v = None"
    proof (cases rule: in_sql_updateE)
      case same
      then show ?thesis using v(2) p(3) by simp
    next
      case (upd w)
      then have "w = p" using only by blast
      then show ?thesis using upd(3) lora_queued_unmarked[OF _ p(2)] lora_inv_row[OF assms(2) p(1)] by simp
    qed
  qed
  moreover have "others_same (lt_id q) s t" using u jp p(3) by (auto elim!: update_others)
  moreover have "k \<noteq> lt_id q" if "never_or_ended k s" for k
    using that p by (auto simp: never_or_ended_def lora_terminal_def)
  ultimately show ?thesis using steps_one[of lora_step, OF step] lora.step_inv[OF step assms(2)] by blast
qed

lemma dispatch_ok:
  assumes "dispatch_training clk ag lw s = (t, evs)" "lora_inv s"
  shows "steps lora_step s t \<and>
    (\<forall>k. PauseReleased k \<in> set evs \<or> never_or_ended k s \<longrightarrow> never_or_ended k t) \<and>
    (\<forall>k. TrainingSent k \<in> set evs \<longrightarrow> handed_over k s t) \<and> (\<forall>k. count_list evs (TrainingSent k) \<le> 1)"
proof (cases "claim_next_lora_job clk s")
  case (Inl e)
  with assms(1) show ?thesis by (simp add: dispatch_training_def)
next
  case (Inr ju)
  obtain job u where ju: "ju = (job, u)" by force
  note c = claim_just_claimed[OF Inr[unfolded ju] assms(2)]
  then have su: "steps lora_step s u" and inv: "lora_inv u" and jc: "just_claimed (lt_id job) u"
    and o1: "others_same (lt_id job) s u" and ne: "\<And>k. never_or_ended k s \<Longrightarrow> k \<noteq> lt_id job"
    by blast+
  have h: "hand_ok (lt_id job) u t evs"
    by (rule hand_over_ok[OF _ jc inv]) (use Inr ju assms(1) in \<open>simp add: dispatch_training_def\<close>)
  then have ut: "steps lora_step u t" "others_same (lt_id job) u t" by (simp_all add: hand_ok_def touches_def)
  have "never_or_ended k t" if "never_or_ended k s" for k
    using never_or_ended_others[OF ut(2) ne[OF that] never_or_ended_others[OF o1 ne[OF that] that]] .
  moreover have "handed_over k s t" if "handed_over k u t" for k
    using that steps_trans[OF su] unfolding handed_over_def by blast
  ultimately show ?thesis using h steps_trans[OF su ut(1)] unfolding hand_ok_def by blast
qed

section \<open>The whole pass\<close>

lemma active_rows:
  assumes "lora_inv s"
  shows "distinct (map lt_id (active_lora_jobs s))"
    "j \<in> set (active_lora_jobs s) \<Longrightarrow> j \<in> set (lora_jobs s) \<and> with_agent (lt_state j)"
proof -
  let ?a = "filter (\<lambda>r. with_agent (lt_state r)) (lora_jobs s)"
  have "distinct (map lt_id (lora_jobs s))" using lora_inv_id[OF assms] by (simp add: unique_key_def)
  then have "inj_on lt_id (set (lora_jobs s))" "distinct (lora_jobs s)" by (simp_all add: distinct_map)
  then have "inj_on lt_id (set ?a)" "distinct (active_lora_jobs s)"
    by (auto simp: active_lora_jobs_def intro: inj_on_subset)
  moreover have "set (active_lora_jobs s) = set ?a" by (simp add: active_lora_jobs_def)
  ultimately show "distinct (map lt_id (active_lora_jobs s))"
    "j \<in> set (active_lora_jobs s) \<Longrightarrow> j \<in> set (lora_jobs s) \<and> with_agent (lt_state j)"
    by (simp_all add: distinct_map)
qed

lemma pass_facts:
  assumes "refresh_lora_trainings clk ag lw n s = (t, evs)" "lora_inv s"
  shows "steps lora_step s t \<and> (\<forall>k. PauseReleased k \<in> set evs \<longrightarrow> never_or_ended k t) \<and>
    (\<forall>k. TrainingSent k \<in> set evs \<longrightarrow> handed_over k s t \<and> count_list evs (TrainingSent k) = 1)"
proof -
  let ?act = "active_lora_jobs s"
  have whole: ?thesis if run: "(let (db1, evs) = refresh_all clk ag ?act s;
      (db2, more) = dispatch_training clk ag lw db1 in (db2, evs @ more)) = (t, evs)"
  proof -
    obtain u e1 where all: "refresh_all clk ag ?act s = (u, e1)" by force
    obtain e2 where d: "dispatch_training clk ag lw u = (t, e2)" "evs = e1 @ e2"
      using run all by (auto split: prod.splits)
    note A = refresh_all_ok[OF all assms(2) active_rows[OF assms(2)]]
    then have su: "steps lora_step s u" by blast
    note D = dispatch_ok[OF d(1) lora.run_inv[OF su assms(2)]]
    have "handed_over k s t" if "handed_over k u t" for k
      using that steps_trans[OF su] unfolding handed_over_def by blast
    moreover have "count_list evs (TrainingSent k) = 1" if "TrainingSent k \<in> set evs" for k
    proof -
      have "count_list e1 (TrainingSent k) = 0" using A by (simp add: count_list_0_iff)
      moreover have "count_list evs (TrainingSent k) \<noteq> 0" using that by (simp add: count_list_0_iff)
      moreover have "count_list e2 (TrainingSent k) \<le> 1" using D by blast
      ultimately show ?thesis unfolding d(2) by simp
    qed
    ultimately show ?thesis using A D steps_trans[OF su] unfolding d(2) by auto
  qed
  show ?thesis
  proof (cases "\<exists>m. n = Some m \<and> m < length ?act")
    case True
    then obtain m where m: "refresh_all clk ag (take m ?act) s = (t, evs)"
      using assms(1) by (auto simp: refresh_lora_trainings_def Let_def)
    have rows: "j \<in> set (lora_jobs s) \<and> with_agent (lt_state j)" if "j \<in> set (take m ?act)" for j
      using active_rows(2)[OF assms(2) in_set_takeD[OF that]] .
    have "distinct (map lt_id (take m ?act))"
      using distinct_take[OF active_rows(1)[OF assms(2)], of m] by (simp add: take_map)
    from refresh_all_ok[OF m assms(2) this rows] show ?thesis by blast
  next
    case False
    then show ?thesis using whole assms(1)
      by (auto simp: refresh_lora_trainings_def Let_def split: option.splits if_splits)
  qed
qed

section \<open>A waiting training is sent\<close>

abbreviation (input) claimed_as :: "clock \<Rightarrow> lora_row \<Rightarrow> lora_row" where
  "claimed_as clk q \<equiv> q\<lparr>lt_state := LoraUploading, lt_stage := lora_stage_upload, lt_progress := 2,
     lt_message := lora_msg_upload, lt_updated_at := tx_now clk\<rparr>"

lemma claim_detail:
  assumes "claim_next_lora_job clk s = Inr (q, t)" and inv: "lora_inv s"
  obtains p where "p \<in> set (lora_jobs s)" "lt_state p = LoraQueued" "q = claimed_as clk p"
    "lora_jobs t = sql_update (\<lambda>r. lt_id r = lt_id q) (claimed_as clk) (lora_jobs s)"
    "lora_users t = lora_users s" "lora_row_ok q" "q \<in> set (lora_jobs t)"
proof -
  obtain j where j: "next_lora_job s = Some j"
    using assms(1) by (cases "next_lora_job s") (auto simp: claim_next_lora_job_def)
  then have one: "lora_one (lora_update (\<lambda>r. lt_id r = lt_id j) (claimed_as clk) s) = Inr (q, t)"
    using assms(1) by (simp add: claim_next_lora_job_def)
  have jq: "j \<in> set (lora_jobs s)" "lt_state j = LoraQueued"
    using j by (auto simp: next_lora_job_def split: if_splits dest: sql_first_in)
  from one obtain r where r: "r \<in> set (lora_jobs s)" "lt_id r = lt_id j" "q = claimed_as clk r"
    "lora_jobs t = sql_update (\<lambda>r. lt_id r = lt_id j) (claimed_as clk) (lora_jobs s)"
    by (rule lora_one_rowE)
  from one obtain rows where u: "lora_update (\<lambda>r. lt_id r = lt_id j) (claimed_as clk) s = Inr (q # rows, t)"
    unfolding lora_one_Inr by blast
  then have more: "lora_users t = lora_users s" "lora_row_ok q" using r(1,2,3) by (auto simp: lora_update_Inr)
  have first: "lora_jobs t = sql_update (\<lambda>r. lt_id r = lt_id q) (claimed_as clk) (lora_jobs s)"
    using r(2,3,4) by simp
  have "q \<in> set (lora_jobs t)" unfolding r(4) set_sql_update using r(1,2,3) by (auto intro!: image_eqI[of _ _ r])
  moreover have "lt_state r = LoraQueued" 
    using unique_keyD[OF lora_inv_id[OF inv] r(1) jq(1) r(2)] jq(2) by simp
  ultimately show thesis using that[of r] r more first by blast
qed

lemma begin_succeeds:
  assumes inv: "lora_inv s" and ok: "\<forall>r\<in>set (lora_jobs s). lora_row_ok r"
    and q: "q \<in> set (lora_jobs s)" "not_handed_over q" "lt_cancel_requested_at q = None"
  shows "\<exists>r t. begin_lora_submission clk (lt_id q) s = Inr (r, t) \<and> r \<in> set (lora_jobs t) \<and>
    lt_id r = lt_id q \<and> lt_submission_started_at r \<noteq> None"
proof -
  let ?P = "\<lambda>r. lt_id r = lt_id q \<and> not_handed_over r \<and> lt_cancel_requested_at r = None"
  let ?f = "\<lambda>r. r\<lparr>lt_submission_started_at := Some (tx_now clk), lt_updated_at := tx_now clk\<rparr>"
  have row: "lora_row_ok (?f r)" if "r \<in> set (lora_jobs s)" for r
    using ok that by (simp add: lora_row_ok_def)
  have u: "lora_update ?P ?f s =
      Inr (map ?f (filter ?P (lora_jobs s)), s\<lparr>lora_jobs := sql_update ?P ?f (lora_jobs s)\<rparr>)"
    by (rule lora_update_succeeds[OF inv row]) (simp_all add: user_busy_def)
  obtain y ys where f: "filter ?P (lora_jobs s) = y # ys"
    using q by (cases "filter ?P (lora_jobs s)") (auto simp: filter_empty_conv)
  then have y: "y \<in> set (lora_jobs s)" "?P y" by (auto simp: filter_eq_Cons_iff)
  have "?f y \<in> set (sql_update ?P ?f (lora_jobs s))"
    unfolding set_sql_update using y by (auto intro!: image_eqI[of _ _ y])
  then show ?thesis using y(2) by (simp add: begin_lora_submission_def u lora_one_def f)
qed

lemma dispatch_sends:
  assumes inv: "lora_inv s" and ok: "\<forall>r\<in>set (lora_jobs s). lora_row_ok r \<and> \<not> with_agent (lt_state r)"
    and q: "q \<in> set (lora_jobs s)" "lt_state q = LoraQueued"
    and owners: "\<forall>r\<in>set (lora_jobs s). lora_user_exists (case lt_user_id r of None \<Rightarrow> 0 | Some u \<Rightarrow> u) s"
    and files: "\<forall>p. lw_open lw p = None" and gpu: "\<forall>i. is_ok (lw_pause lw i)"
  shows "\<exists>t evs k. dispatch_training clk ag lw s = (t, evs) \<and> TrainingSent k \<in> set evs"
proof -
  have ok': "lora_row_ok r \<and> \<not> with_agent (lt_state r)" if "r \<in> set (lora_jobs s)" for r
    using ok that by blast
  obtain job u where c: "claim_next_lora_job clk s = Inr (job, u)"
    using claim_succeeds[OF inv q ok'] by blast
  from c inv obtain p where p: "p \<in> set (lora_jobs s)" "lt_state p = LoraQueued" "job = claimed_as clk p"
    "lora_jobs u = sql_update (\<lambda>r. lt_id r = lt_id job) (claimed_as clk) (lora_jobs s)"
    "lora_users u = lora_users s" "lora_row_ok job" "job \<in> set (lora_jobs u)"
    by (rule claim_detail)
  have invu: "lora_inv u" using claim_good[OF c inv] by (simp add: lora_good_def)
  have un: "lt_submission_started_at p = None" "lt_cancel_requested_at p = None" "lt_agent_job_id p = []"
    using lora_queued_unmarked[OF _ p(2)] lora_inv_row[OF inv p(1)] by auto
  have rows: "\<forall>r\<in>set (lora_jobs u). lora_row_ok r"
  proof
    fix r
    assume "r \<in> set (lora_jobs u)"
    from this[unfolded p(4)] show "lora_row_ok r"
    proof (cases rule: in_sql_updateE)
      case same
      then show ?thesis using ok by blast
    next
      case (upd v)
      then have "v = p" using unique_keyD[OF lora_inv_id[OF inv] upd(1) p(1)] p(3) by simp
      then show ?thesis using upd(3) p(3,6) by simp
    qed
  qed
  have "not_handed_over job" "lt_cancel_requested_at job = None"
    using un p(3) by (simp_all add: not_handed_over_def)
  from begin_succeeds[OF invu rows p(7) this, of clk] obtain r v where
    b: "begin_lora_submission clk (lt_id job) u = Inr (r, v)" "lt_id r = lt_id job" by blast
  have user: "lora_user_exists (case lt_user_id job of None \<Rightarrow> 0 | Some u \<Rightarrow> u) u"
    using owners p(1,3,5) by (simp add: lora_user_exists_def)
  obtain w where w: "lw_pause lw (lt_id job) = Inr w" using gpu by (metis is_ok_iff)
  obtain t evs where sub: "submit_training clk ag w r v = (t, evs)" by force
  have "hand_over clk ag lw job u = (t, evs)"
    using files user w b sub by (simp add: hand_over_def Let_def)
  then have d: "dispatch_training clk ag lw s = (t, evs)" using c by (simp add: dispatch_training_def)
  have "TrainingSent (lt_id r) \<in> set evs"
    using sub by (auto simp: submit_training_def Let_def split: sum.splits if_splits)
  with d show ?thesis by blast
qed

section \<open>A small instance\<close>

definition ex_agent_done :: agent_status where
  "ex_agent_done = \<lparr>as_id = ''a1'', as_gateway_job_id = ''lora-0123456789abcdef'',
     as_state = ''completed'', as_stage = ''done'', as_progress = 100, as_message = [], as_error = [],
     as_artifact_name = ''x.safetensors'', as_artifact_bytes = 7, as_unconfirmed = False\<rparr>"

definition ex_agent :: training_agent where
  "ex_agent = \<lparr>ta_status = (\<lambda>i. Inr ex_agent_done), ta_by_gateway = (\<lambda>i. Inl AgentFailure),
     ta_fence = (\<lambda>i. Inl AgentFailure), ta_cancel = (\<lambda>i. Inl AgentFailure),
     ta_submit = (\<lambda>r. Inl AgentFailure), ta_delete = (\<lambda>i. Inl AgentFailure)\<rparr>"

definition ex_world :: lora_world where
  "ex_world = \<lparr>lw_open = (\<lambda>p. None), lw_no_user = [], lw_pause = (\<lambda>i. Inr [])\<rparr>"

definition ex_lora_running :: lora_db where
  "ex_lora_running = ex_lora_db\<lparr>lora_jobs := [ex_lora_queued\<lparr>lt_state := LoraRunning,
     lt_submission_started_at := Some 1000000, lt_agent_job_id := ''a1''\<rparr>], next_lora_id := 2\<rparr>"

lemma ex_waiting_facts:
  "\<forall>r\<in>set (lora_jobs ex_lora_waiting). lora_row_ok r \<and> \<not> with_agent (lt_state r)"
  "ex_lora_queued \<in> set (lora_jobs ex_lora_waiting)" "lt_state ex_lora_queued = LoraQueued"
  "\<forall>r\<in>set (lora_jobs ex_lora_waiting).
     lora_user_exists (case lt_user_id r of None \<Rightarrow> 0 | Some u \<Rightarrow> u) ex_lora_waiting"
  by code_simp+

lemma ex_world_facts: "\<forall>p. lw_open ex_world p = None" "\<forall>i. is_ok (lw_pause ex_world i)"
  by (simp_all add: ex_world_def is_ok_iff)

lemma begun_once:
  assumes "begin_lora_submission clk k s = Inr (r, t)" "lora_inv s" "steps lora_step t u"
  shows "begin_lora_submission clk1 k u \<noteq> Inr (q, v)"
proof
  assume again: "begin_lora_submission clk1 k u = Inr (q, v)"
  have t: "lora_inv t" using lora.step_inv[OF ls_begin[OF assms(1)] assms(2)] .
  have "steps sound_lora_step t u"
    using lora.run_sound[OF assms(3) t] by (simp add: sound_lora_step_def[abs_def])
  moreover have "begins_training k s t" "begins_training k u v"
    using assms(1,2) again lora.run_inv[OF assms(3) t] by (auto simp: begins_training_def)
  ultimately show False using handover.at_most_once by blast
qed

section \<open>Properties\<close>

text \<open>C32: The miner's pause is never let go while a training may run: when a pass releases the
  pause of a training, its row has ended, or it was claimed and the hand-over to the agent
  never begun.\<close>

theorem pause_kept_while_training:
  assumes "lora_inv s" and "refresh_lora_trainings clk ag lw n s = (t, evs)"
    and "PauseReleased k \<in> set evs" and "r \<in> set (lora_jobs t)" and "lt_id r = k"
  shows "lora_terminal (lt_state r) \<or> lt_submission_started_at r = None \<and> lt_state r \<noteq> LoraQueued"
  using pass_facts[OF assms(2,1)] assms(3,4,5) unfolding never_or_ended_def by blast

theorem pause_kept_while_training_witness:
  "let (t, evs) = refresh_lora_trainings ex_now ex_agent ex_world None ex_lora_running
   in PauseReleased 1 \<in> set evs \<and> lora_terminal (lt_state (hd (lora_jobs t)))"
proof -
  obtain t evs where run: "refresh_lora_trainings ex_now ex_agent ex_world None ex_lora_running = (t, evs)"
    by force
  have "let (t, evs) = refresh_lora_trainings ex_now ex_agent ex_world None ex_lora_running in
     PauseReleased 1 \<in> set evs \<and> lora_jobs t \<noteq> [] \<and> lt_id (hd (lora_jobs t)) = 1 \<and>
       lt_submission_started_at (hd (lora_jobs t)) = Some 1000000" by code_simp
  then have f: "PauseReleased 1 \<in> set evs" "hd (lora_jobs t) \<in> set (lora_jobs t)" "lt_id (hd (lora_jobs t)) = 1"
    "lt_submission_started_at (hd (lora_jobs t)) = Some 1000000" by (auto simp: run)
  have inv: "lora_inv ex_lora_running" by code_simp
  show ?thesis using pause_kept_while_training[OF inv run f(1,2,3)] f(1,4) by (auto simp: run)
qed

text \<open>C33: A training is sent to the agent at most once: a pass that sends it sends it once, and
  whatever the store does in between, no later pass sends it again, also when the agent's
  answer was lost.\<close>

theorem training_sent_once:
  assumes "lora_inv s" and "refresh_lora_trainings clk ag lw n s = (t, evs)"
    and "TrainingSent k \<in> set evs" and "steps lora_step t u"
    and "refresh_lora_trainings clk1 ag1 lw1 n1 u = (v, evs1)"
  shows "count_list evs (TrainingSent k) = 1 \<and> TrainingSent k \<notin> set evs1"
proof -
  note first = pass_facts[OF assms(2,1)]
  then have inv: "lora_inv t" "lora_inv u" using lora.run_inv assms(1,4) by blast+
  from first assms(3) obtain a b clk2 r where b: "lora_inv a" "begin_lora_submission clk2 k a = Inr (r, b)"
    "steps lora_step b t" unfolding handed_over_def by blast
  have "TrainingSent k \<notin> set evs1"
  proof
    assume "TrainingSent k \<in> set evs1"
    then obtain c d clk3 q where c: "steps lora_step u c" "begin_lora_submission clk3 k c = Inr (q, d)"
      using pass_facts[OF assms(5) inv(2)] unfolding handed_over_def by blast
    have "steps lora_step b c" using steps_trans[OF steps_trans[OF b(3) assms(4)] c(1)] .
    then show False using begun_once[OF b(2,1)] c(2) by simp
  qed
  then show ?thesis using first assms(3) by blast
qed

theorem training_sent_once_witness:
  "\<exists>k t evs. refresh_lora_trainings ex_now ex_agent ex_world None ex_lora_waiting = (t, evs) \<and>
     TrainingSent k \<in> set evs \<and>
     TrainingSent k \<notin> set (snd (refresh_lora_trainings ex_now ex_agent ex_world None t))"
proof -
  from dispatch_sends[OF ex_lora_invs(2) ex_waiting_facts ex_world_facts, of ex_now ex_agent]
  obtain t evs k where d: "dispatch_training ex_now ex_agent ex_world ex_lora_waiting = (t, evs)"
    "TrainingSent k \<in> set evs" by blast
  have "active_lora_jobs ex_lora_waiting = []" by code_simp
  with d(1) have run: "refresh_lora_trainings ex_now ex_agent ex_world None ex_lora_waiting = (t, evs)"
    by (simp add: refresh_lora_trainings_def)
  obtain v evs1 where again: "refresh_lora_trainings ex_now ex_agent ex_world None t = (v, evs1)" by force
  from training_sent_once[OF ex_lora_invs(2) run d(2) steps_refl again] d(2) run again
  show ?thesis by auto
qed

text \<open>C34: A pass is a run of the store: whatever the agent, the file system and the miner answer,
  it changes the queue only by the store's own steps, and so keeps its invariant; in particular
  it writes progress only on trainings that are with the agent and never puts one of them back.\<close>

theorem pass_is_store_run:
  assumes "lora_inv s" and "refresh_lora_trainings clk ag lw n s = (t, evs)"
  shows "steps lora_step s t \<and> lora_inv t"
  using pass_facts[OF assms(2,1)] lora.run_inv[OF _ assms(1)] by blast

theorem pass_is_store_run_witness:
  "steps lora_step ex_lora_running (fst (refresh_lora_trainings ex_now ex_agent ex_world None ex_lora_running))"
proof -
  have inv: "lora_inv ex_lora_running" by code_simp
  show ?thesis using pass_is_store_run[OF inv surjective_pairing] by blast
qed

text \<open>C35: A free GPU does not stay idle: when no training is with the agent and one waits, its
  file opens, its owner exists and the miner can be paused, the pass sends a training.\<close>

theorem waiting_training_is_sent:
  assumes "lora_inv s" and "\<forall>r\<in>set (lora_jobs s). lora_row_ok r \<and> \<not> with_agent (lt_state r)"
    and "q \<in> set (lora_jobs s)" and "lt_state q = LoraQueued"
    and "\<forall>r\<in>set (lora_jobs s). lora_user_exists (case lt_user_id r of None \<Rightarrow> 0 | Some u \<Rightarrow> u) s"
    and "\<forall>p. lw_open lw p = None" and "\<forall>i. is_ok (lw_pause lw i)"
  shows "\<exists>t evs k. refresh_lora_trainings clk ag lw None s = (t, evs) \<and> TrainingSent k \<in> set evs"
proof -
  have "active_lora_jobs s = []" using assms(2) by (simp add: active_lora_jobs_def filter_empty_conv)
  then show ?thesis using dispatch_sends[OF assms, of clk ag] by (auto simp: refresh_lora_trainings_def)
qed

theorem waiting_training_is_sent_witness:
  "\<exists>t evs k. refresh_lora_trainings ex_now ex_agent ex_world None ex_lora_waiting = (t, evs) \<and>
     TrainingSent k \<in> set evs"
proof -
  from waiting_training_is_sent[OF ex_lora_invs(2) ex_waiting_facts ex_world_facts, of ex_now ex_agent]
  show ?thesis .
qed

end
