(* ===== verification/WorkerMessages.thy ===== *)
theory WorkerMessages
  imports GoText
begin

text \<open>
  The Russian texts that the generation worker writes (\<open>gateway/generation_jobs.go\<close>,
  \<open>generation.go\<close>, \<open>generation_batches.go\<close>), as the UTF-8 bytes of the source.
\<close>

text \<open>A lost hand-over was found.\<close>

definition wm_recovered :: string where
  "wm_recovered =
     utf8_text
      [1043, 1077, 1085, 1077, 1088, 1072, 1094, 1080, 1103, 32, 1074, 1086, 1089, 1089, 1090,
       1072, 1085, 1086, 1074, 1083, 1077, 1085, 1072, 32, 1074, 32, 1086, 1095, 1077, 1088,
       1077, 1076, 1080, 32, 67, 111, 109, 102, 121, 85, 73]"

text \<open>Appended while the resources are not yet released.\<close>

definition wm_restoring :: string where
  "wm_restoring =
     utf8_text
      [46, 32, 1042, 1086, 1089, 1089, 1090, 1072, 1085, 1072, 1074, 1083, 1080, 1074, 1072,
       1077, 1084, 32, 1088, 1077, 1089, 1091, 1088, 1089, 1099]"

text \<open>A step of the walk.\<close>

definition wm_preparing :: string where
  "wm_preparing =
     utf8_text
      [1055, 1088, 1086, 1074, 1077, 1088, 1103, 1077, 1084, 32, 1087, 1072, 1088, 1072, 1084,
       1077, 1090, 1088, 1099, 32, 1080, 32, 119, 111, 114, 107, 102, 108, 111, 119]"

text \<open>A step of the walk.\<close>

definition wm_waiting :: string where
  "wm_waiting =
     utf8_text
      [1054, 1078, 1080, 1076, 1072, 1077, 1084, 32, 1088, 1077, 1089, 1091, 1088, 1089, 1099]"

text \<open>A step of the walk.\<close>

definition wm_queued :: string where
  "wm_queued =
     utf8_text
      [1043, 1077, 1085, 1077, 1088, 1072, 1094, 1080, 1103, 32, 1087, 1086, 1089, 1090, 1072,
       1074, 1083, 1077, 1085, 1072, 32, 1074, 32, 1086, 1095, 1077, 1088, 1077, 1076, 1100,
       32, 67, 111, 109, 102, 121, 85, 73]"

text \<open>A step of the walk.\<close>

definition wm_running :: string where
  "wm_running =
     utf8_text
      [67, 111, 109, 102, 121, 85, 73, 32, 1074, 1099, 1087, 1086, 1083, 1085, 1103, 1077,
       1090, 32, 119, 111, 114, 107, 102, 108, 111, 119]"

text \<open>A step of the walk.\<close>

definition wm_postprocessing :: string where
  "wm_postprocessing =
     utf8_text
      [1054, 1073, 1088, 1072, 1073, 1072, 1090, 1099, 1074, 1072, 1077, 1084, 32, 1088, 1077,
       1079, 1091, 1083, 1100, 1090, 1072, 1090]"

text \<open>A step of the walk.\<close>

definition wm_archiving :: string where
  "wm_archiving =
     utf8_text
      [1057, 1086, 1093, 1088, 1072, 1085, 1103, 1077, 1084, 32, 1088, 1077, 1079, 1091, 1083,
       1100, 1090, 1072, 1090]"

text \<open>The outcome of the hand-over is unknown.\<close>

definition wm_outcome_unknown :: string where
  "wm_outcome_unknown =
     utf8_text
      [1055, 1088, 1086, 1074, 1077, 1088, 1103, 1077, 1084, 32, 1080, 1089, 1093, 1086, 1076,
       32, 1087, 1077, 1088, 1077, 1076, 1072, 1095, 1080, 32, 1074, 32, 67, 111, 109, 102,
       121, 85, 73, 46, 32, 1055, 1086, 1074, 1090, 1086, 1088, 1085, 1099, 1081, 32, 1079,
       1072, 1087, 1091, 1089, 1082, 32, 1080, 32, 1086, 1089, 1074, 1086, 1073, 1086, 1078,
       1076, 1077, 1085, 1080, 1077, 32, 1088, 1077, 1089, 1091, 1088, 1089, 1086, 1074, 32,
       1086, 1090, 1083, 1086, 1078, 1077, 1085, 1099, 32, 1076, 1086, 32, 1087, 1086, 1076,
       1090, 1074, 1077, 1088, 1078, 1076, 1077, 1085, 1080, 1103, 46]"

text \<open>Cancelled, resources not yet released.\<close>

definition wm_cancel_restoring :: string where
  "wm_cancel_restoring =
     utf8_text
      [1054, 1090, 1084, 1077, 1085, 1072, 32, 1087, 1086, 1076, 1090, 1074, 1077, 1088, 1078,
       1076, 1077, 1085, 1072, 46, 32, 1042, 1086, 1089, 1089, 1090, 1072, 1085, 1072, 1074,
       1083, 1080, 1074, 1072, 1077, 1084, 32, 1088, 1077, 1089, 1091, 1088, 1089, 1099]"

text \<open>The end of a cancelled job.\<close>

definition wm_cancelled :: string where
  "wm_cancelled =
     utf8_text
      [1043, 1077, 1085, 1077, 1088, 1072, 1094, 1080, 1103, 32, 1086, 1090, 1084, 1077, 1085,
       1077, 1085, 1072]"

text \<open>The owner is gone.\<close>

definition wm_owner_deleted :: string where
  "wm_owner_deleted =
     utf8_text
      [1042, 1083, 1072, 1076, 1077, 1083, 1077, 1094, 32, 1079, 1072, 1076, 1072, 1085, 1080,
       1103, 32, 1091, 1076, 1072, 1083, 1105, 1085]"

text \<open>The result could not be stored.\<close>

definition wm_archive_retry :: string where
  "wm_archive_retry =
     utf8_text
      [1053, 1077, 32, 1091, 1076, 1072, 1083, 1086, 1089, 1100, 32, 1089, 1086, 1093, 1088,
       1072, 1085, 1080, 1090, 1100, 32, 1088, 1077, 1079, 1091, 1083, 1100, 1090, 1072, 1090,
       46, 32, 1055, 1086, 1074, 1090, 1086, 1088, 1103, 1077, 1084, 32, 1072, 1088, 1093,
       1080, 1074, 1072, 1094, 1080, 1102]"

text \<open>Completed, resources not yet released.\<close>

definition wm_result_restoring :: string where
  "wm_result_restoring =
     utf8_text
      [1056, 1077, 1079, 1091, 1083, 1100, 1090, 1072, 1090, 32, 1089, 1086, 1093, 1088, 1072,
       1085, 1105, 1085, 46, 32, 1042, 1086, 1089, 1089, 1090, 1072, 1085, 1072, 1074, 1083,
       1080, 1074, 1072, 1077, 1084, 32, 1088, 1077, 1089, 1091, 1088, 1089, 1099]"

text \<open>The end of a completed job.\<close>

definition wm_done :: string where
  "wm_done =
     utf8_text
      [1043, 1086, 1090, 1086, 1074, 1086]"

text \<open>The cancellation came too late.\<close>

definition wm_already_done :: string where
  "wm_already_done =
     utf8_text
      [67, 111, 109, 102, 121, 85, 73, 32, 1091, 1078, 1077, 32, 1079, 1072, 1074, 1077, 1088,
       1096, 1080, 1083, 32, 1075, 1077, 1085, 1077, 1088, 1072, 1094, 1080, 1102]"

text \<open>The executor rejected the workflow.\<close>

definition wm_rejected :: string where
  "wm_rejected =
     utf8_text
      [67, 111, 109, 102, 121, 85, 73, 32, 1086, 1090, 1082, 1083, 1086, 1085, 1080, 1083, 32,
       119, 111, 114, 107, 102, 108, 111, 119]"

text \<open>The executor did not confirm.\<close>

definition wm_unconfirmed :: string where
  "wm_unconfirmed =
     utf8_text
      [67, 111, 109, 102, 121, 85, 73, 32, 1085, 1077, 32, 1087, 1086, 1076, 1090, 1074, 1077,
       1088, 1076, 1080, 1083, 32, 1079, 1072, 1087, 1091, 1089, 1082]"

text \<open>The executor does not know the prompt.\<close>

definition wm_vanished :: string where
  "wm_vanished =
     utf8_text
      [1047, 1072, 1076, 1072, 1085, 1080, 1077, 32, 1080, 1089, 1095, 1077, 1079, 1083, 1086,
       32, 1080, 1079, 32, 1086, 1095, 1077, 1088, 1077, 1076, 1080, 32, 67, 111, 109, 102,
       121, 85, 73]"

text \<open>A status.\<close>

definition ws_waiting :: string where
  "ws_waiting =
     utf8_text
      [1043, 1077, 1085, 1077, 1088, 1072, 1094, 1080, 1103, 32, 1086, 1078, 1080, 1076, 1072,
       1077, 1090, 32, 1079, 1072, 1087, 1091, 1089, 1082, 1072]"

text \<open>A status.\<close>

definition ws_started :: string where
  "ws_started =
     utf8_text
      [67, 111, 109, 102, 121, 85, 73, 32, 1085, 1072, 1095, 1072, 1083, 32, 1074, 1099, 1087,
       1086, 1083, 1085, 1077, 1085, 1080, 1077, 32, 119, 111, 114, 107, 102, 108, 111, 119]"

text \<open>A status.\<close>

definition ws_failed :: string where
  "ws_failed =
     utf8_text
      [67, 111, 109, 102, 121, 85, 73, 32, 1079, 1072, 1074, 1077, 1088, 1096, 1080, 1083, 32,
       1075, 1077, 1085, 1077, 1088, 1072, 1094, 1080, 1102, 32, 1089, 32, 1086, 1096, 1080,
       1073, 1082, 1086, 1081]"

text \<open>The owner may not run jobs.\<close>

definition wm_owner_unavailable :: string where
  "wm_owner_unavailable =
     utf8_text
      [1059, 1095, 1105, 1090, 1085, 1072, 1103, 32, 1079, 1072, 1087, 1080, 1089, 1100, 32,
       1073, 1086, 1083, 1100, 1096, 1077, 32, 1085, 1077, 32, 1084, 1086, 1078, 1077, 1090,
       32, 1079, 1072, 1087, 1091, 1089, 1082, 1072, 1090, 1100, 32, 1075, 1077, 1085, 1077,
       1088, 1072, 1094, 1080, 1080]"

text \<open>The payload cannot be read.\<close>

definition wm_payload_lost :: string where
  "wm_payload_lost =
     utf8_text
      [1053, 1077, 32, 1091, 1076, 1072, 1083, 1086, 1089, 1100, 32, 1074, 1086, 1089, 1089,
       1090, 1072, 1085, 1086, 1074, 1080, 1090, 1100, 32, 1087, 1072, 1088, 1072, 1084, 1077,
       1090, 1088, 1099, 32, 1075, 1077, 1085, 1077, 1088, 1072, 1094, 1080, 1080]"

text \<open>The payload is not accepted any more.\<close>

definition wm_payload_invalid :: string where
  "wm_payload_invalid =
     utf8_text
      [1055, 1072, 1088, 1072, 1084, 1077, 1090, 1088, 1099, 32, 1075, 1077, 1085, 1077, 1088,
       1072, 1094, 1080, 1080, 32, 1073, 1086, 1083, 1100, 1096, 1077, 32, 1085, 1077, 32,
       1087, 1086, 1076, 1076, 1077, 1088, 1078, 1080, 1074, 1072, 1102, 1090, 1089, 1103]"

text \<open>The workflow failed its checks.\<close>

definition wm_preflight :: string where
  "wm_preflight =
     utf8_text
      [87, 111, 114, 107, 102, 108, 111, 119, 32, 1085, 1077, 32, 1087, 1088, 1086, 1096, 1105,
       1083, 32, 1087, 1088, 1086, 1074, 1077, 1088, 1082, 1091]"

text \<open>References are being checked.\<close>

definition wm_uploading :: string where
  "wm_uploading =
     utf8_text
      [1055, 1088, 1086, 1074, 1077, 1088, 1103, 1077, 1084, 32, 1088, 1077, 1092, 1077, 1088,
       1077, 1085, 1089, 1099]"

text \<open>References could not be fixed.\<close>

definition wm_uploading_failed :: string where
  "wm_uploading_failed =
     utf8_text
      [1053, 1077, 32, 1091, 1076, 1072, 1083, 1086, 1089, 1100, 32, 1079, 1072, 1082, 1088,
       1077, 1087, 1080, 1090, 1100, 32, 1088, 1077, 1092, 1077, 1088, 1077, 1085, 1089, 1099]"

text \<open>The preparation failed.\<close>

definition wm_prepare_failed :: string where
  "wm_prepare_failed =
     utf8_text
      [1053, 1077, 32, 1091, 1076, 1072, 1083, 1086, 1089, 1100, 32, 1087, 1086, 1076, 1075,
       1086, 1090, 1086, 1074, 1080, 1090, 1100, 32, 1075, 1077, 1085, 1077, 1088, 1072, 1094,
       1080, 1102]"

text \<open>Waiting for resources.\<close>

definition wm_resources_waiting :: string where
  "wm_resources_waiting =
     utf8_text
      [1054, 1078, 1080, 1076, 1072, 1077, 1084, 32, 1088, 1077, 1089, 1091, 1088, 1089, 1099,
       32, 1076, 1083, 1103, 32, 1075, 1077, 1085, 1077, 1088, 1072, 1094, 1080, 1080]"

text \<open>The resources could not be prepared.\<close>

definition wm_resources_failed :: string where
  "wm_resources_failed =
     utf8_text
      [1053, 1077, 32, 1091, 1076, 1072, 1083, 1086, 1089, 1100, 32, 1087, 1086, 1076, 1075,
       1086, 1090, 1086, 1074, 1080, 1090, 1100, 32, 1088, 1077, 1089, 1091, 1088, 1089, 1099,
       32, 1075, 1077, 1085, 1077, 1088, 1072, 1094, 1080, 1080]"

text \<open>The executor answered with an unusable prompt id.\<close>

definition wm_bad_prompt_id :: string where
  "wm_bad_prompt_id =
     utf8_text
      [67, 111, 109, 102, 121, 85, 73, 32, 1074, 1077, 1088, 1085, 1091, 1083, 32, 1085, 1077,
       1082, 1086, 1088, 1088, 1077, 1082, 1090, 1085, 1099, 1081, 32, 112, 114, 111, 109, 112,
       116, 95, 105, 100]"

end
