(* ===== verification/JobWorker.thy ===== *)
theory JobWorker
  imports StoreRuns WorkerMessages
begin

text \<open>
  The worker that drives generation jobs (\<open>gateway/generation_jobs.go\<close>, the refresh loop of
  \<open>gateway/generation.go\<close> and the dispatcher of \<open>gateway/generation_batches.go\<close>).  ComfyUI and
  the miner are other processes: what they answer to each call is an argument.  An operation of
  the worker is several transactions; when one fails, those before it stay, so a result always
  comes with the database it leaves.  The moments of one operation are read from one clock.
\<close>

section \<open>Operations that keep what they have done\<close>

datatype worker_error =
    StoreFailed store_error | ExecutorFailed | CancelNotSent | CannotAdvance | AlreadyTerminal
  | ArchiveFailed | ProjectionFailed | NotRequested | OwnerGone

type_synonym 'a act = "(worker_error + 'a) \<times> db"

definition on_store :: "store_error + ('a \<times> db) \<Rightarrow> db \<Rightarrow> 'a act" where
  "on_store m db = (case m of Inl e \<Rightarrow> (Inl (StoreFailed e), db) | Inr (a, db1) \<Rightarrow> (Inr a, db1))"

definition andthen :: "'a act \<Rightarrow> ('a \<Rightarrow> db \<Rightarrow> 'b act) \<Rightarrow> 'b act" where
  "andthen m f = (case m of (Inl e, db) \<Rightarrow> (Inl e, db) | (Inr a, db) \<Rightarrow> f a db)"

section \<open>The executor\<close>

text \<open>An item of the queue or of the history: the prompt and the job named in its metadata.\<close>

record executor_item =
  xi_prompt_id :: string
  xi_job_id :: string

record executor_queue =
  xq_running :: "executor_item list"
  xq_pending :: "executor_item list"

record history_entry =
  he_status_text :: string
  he_completed :: bool
  he_outputs :: nat

record gen_status =
  gs_state :: string
  gs_message :: string
  gs_known :: bool

text \<open>
  The answers of ComfyUI and of the miner to the calls of one operation; \<open>None\<close> is a failed
  call.  The queue is read for the search of a lost prompt, for a cancellation and for a status.
\<close>

record executor =
  ex_find_queue :: "executor_queue option"
  ex_find_history :: "executor_item list option"
  ex_cancel_queue :: "executor_queue option"
  ex_cancel_queued :: "string \<Rightarrow> bool"
  ex_interrupt :: "string \<Rightarrow> bool"
  ex_entry :: "string \<Rightarrow> history_entry option option"
  ex_status_queue :: "executor_queue option"
  ex_archived :: "string \<Rightarrow> bool"
  ex_projected :: "int \<Rightarrow> bool"
  ex_overview :: "int \<Rightarrow> mining_overview"
  ex_start :: "int \<Rightarrow> agent_reply"

definition prompt_char :: "char \<Rightarrow> bool" where
  "prompt_char c =
     (let n = of_char c :: nat in
      (97 \<le> n \<and> n \<le> 102) \<or> (65 \<le> n \<and> n \<le> 70) \<or> (48 \<le> n \<and> n \<le> 57) \<or> n = 45 \<or> n = 95)"

definition valid_prompt_id :: "string \<Rightarrow> bool" where
  "valid_prompt_id s = (s \<noteq> [] \<and> length s \<le> 128 \<and> list_all prompt_char s)"

text \<open>\<open>findComfyPromptByGenerationJob\<close>: an error only when no source names the job.\<close>

definition find_prompt :: "executor \<Rightarrow> string \<Rightarrow> worker_error + string option" where
  "find_prompt ex public_id =
     (let pid = trim_space public_id;
          in_queue = (case ex_find_queue ex of None \<Rightarrow> None
                      | Some q \<Rightarrow> find (\<lambda>i. trim_space (xi_job_id i) = pid) (xq_running q @ xq_pending q)) in
      case in_queue of
        Some i \<Rightarrow> Inr (if valid_prompt_id (xi_prompt_id i) then Some (xi_prompt_id i) else None)
      | None \<Rightarrow>
          (case (case ex_find_history ex of None \<Rightarrow> None
                 | Some h \<Rightarrow> find (\<lambda>i. trim_space (xi_job_id i) = pid \<and>
                                       valid_prompt_id (xi_prompt_id i)) h) of
             Some i \<Rightarrow> Inr (Some (xi_prompt_id i))
           | None \<Rightarrow>
               if ex_find_queue ex = None \<or> ex_find_history ex = None then Inl ExecutorFailed
               else Inr None))"

definition in_items :: "string \<Rightarrow> executor_item list \<Rightarrow> bool" where
  "in_items pid items = list_ex (\<lambda>i. xi_prompt_id i = pid) items"

text \<open>\<open>generationQueueState\<close>: queued, running.\<close>

definition queue_state :: "executor_queue \<Rightarrow> string \<Rightarrow> bool \<times> bool" where
  "queue_state q pid =
     (if in_items pid (xq_running q) then (False, True)
      else if in_items pid (xq_pending q) then (True, False) else (False, False))"

text \<open>\<open>strings.ToLower\<close> on the Latin letters of a status.\<close>

definition ascii_lower :: "string \<Rightarrow> string" where
  "ascii_lower s = map (\<lambda>c. let n = of_char c :: nat in if 65 \<le> n \<and> n \<le> 90 then char_of (n + 32) else c) s"

text \<open>
  \<open>fetchGenerationStatus\<close>.  A prompt that is not in the history and not seen in the queue is
  reported as queued and not known, also when the queue could not be read.  The message of a
  waiting prompt names its place, which is left out here.
\<close>

definition fetch_status :: "executor \<Rightarrow> string \<Rightarrow> worker_error + gen_status" where
  "fetch_status ex pid =
     (case ex_entry ex pid of
        None \<Rightarrow> Inl ExecutorFailed
      | Some None \<Rightarrow>
          (case ex_status_queue ex of
             None \<Rightarrow> Inr \<lparr>gs_state = ''queued'', gs_message = ws_waiting, gs_known = False\<rparr>
           | Some q \<Rightarrow>
               (case queue_state q pid of
                  (queued, running) \<Rightarrow>
                    Inr (if running
                         then \<lparr>gs_state = ''running'', gs_message = ws_started, gs_known = True\<rparr>
                         else \<lparr>gs_state = ''queued'', gs_message = ws_waiting, gs_known = queued\<rparr>)))
      | Some (Some e) \<Rightarrow>
          (let s = ascii_lower (trim_space (he_status_text e)) in
           Inr (if s = ''error'' \<or> s = ''failed''
                then \<lparr>gs_state = ''error'', gs_message = ws_failed, gs_known = True\<rparr>
                else if he_completed e \<or> s = ''success'' \<or> he_outputs e > 0
                then \<lparr>gs_state = ''completed'', gs_message = wm_done, gs_known = True\<rparr>
                else \<lparr>gs_state = ''running'', gs_message = wm_running, gs_known = True\<rparr>)))"

section \<open>Walking through the states\<close>

definition moving :: "job_state \<Rightarrow> string \<Rightarrow> transition_params" where
  "moving st message =
     \<lparr>tp_state = st, tp_message = message, tp_error_code = [], tp_error_message = [], tp_attempt = 0\<rparr>"

definition job_state_message :: "job_state \<Rightarrow> string" where
  "job_state_message st =
     (case st of
        Preparing \<Rightarrow> wm_preparing | WaitingForResources \<Rightarrow> wm_waiting | Queued \<Rightarrow> wm_queued
      | Running \<Rightarrow> wm_running | Postprocessing \<Rightarrow> wm_postprocessing | Archiving \<Rightarrow> wm_archiving
      | _ \<Rightarrow> state_name st)"

definition next_state :: "job_state \<Rightarrow> job_state \<Rightarrow> job_state option" where
  "next_state target st =
     (case st of
        Draft \<Rightarrow> Some Preparing
      | Preparing \<Rightarrow> Some WaitingForResources
      | Uploading \<Rightarrow> Some WaitingForResources
      | WaitingForResources \<Rightarrow> Some Queued
      | Queued \<Rightarrow> Some (if target = Running then Running else Postprocessing)
      | Running \<Rightarrow> Some Postprocessing
      | Postprocessing \<Rightarrow> Some Archiving
      | _ \<Rightarrow> None)"

definition step_message :: "job_state \<Rightarrow> string \<Rightarrow> job_state \<Rightarrow> string" where
  "step_message target final st =
     (if st = target \<and> trim_space final \<noteq> [] then trim_space final else job_state_message st)"

text \<open>A transition returns the job in the state it was asked for, so the walk climbs and ends.\<close>

lemma transition_state:
  assumes "transition_generation_job clk jid p s = Inr ((j, b), t)"
  shows "j_state j = tp_state p \<and> j_id j = jid"
proof -
  from assms obtain cur q a where l: "load_job (\<lambda>j. j_id j = jid) s = Inr cur"
    and q: "trim_transition_params p = Inr q" and ap: "apply_transition clk jid cur q a s = Inr ((j, b), t)"
    unfolding transition_generation_job_Inr by blast
  have "tp_state q = tp_state p" using q by (auto simp: trim_transition_params_def Let_def split: if_splits)
  moreover from l have "sql_find (\<lambda>j. j_id j = jid) (jobs s) = Some cur" "j_id cur = jid"
    by (auto simp: load_job_Inr dest: sql_find_Some)
  ultimately show ?thesis using ap unfolding apply_transition_Inr
    by (auto simp: update_job_Inr set_status_def set_transition_def split: if_splits)
qed

lemma next_state_rank: "next_state target st = Some nxt \<Longrightarrow> job_rank st < job_rank nxt"
  by (cases st) (auto simp: next_state_def)

lemma walk_climbs:
  assumes "next_state target (j_state job) = Some nxt"
    and "transition_generation_job clk jid (moving nxt message) db = Inr ((j, changed), t)"
  shows "9 - job_rank (j_state j) < 9 - job_rank (j_state job)"
proof -
  have "j_state j = nxt" using transition_state[OF assms(2)] by (simp add: moving_def)
  with next_state_rank[OF assms(1)] job_rank_le[of nxt] show ?thesis by simp
qed

function advance_job :: "clock \<Rightarrow> job_row \<Rightarrow> job_state \<Rightarrow> string \<Rightarrow> db \<Rightarrow> job_row act" where
  "advance_job clk job target final db =
     (if j_state job = target then (Inr job, db)
      else if terminal (j_state job) then (Inl AlreadyTerminal, db)
      else case next_state target (j_state job) of
             None \<Rightarrow> (Inl CannotAdvance, db)
           | Some nxt \<Rightarrow>
               (case transition_generation_job clk (j_id job)
                       (moving nxt (step_message target final nxt)) db of
                  Inl e \<Rightarrow> (Inl (StoreFailed e), db)
                | Inr ((j, changed), db1) \<Rightarrow> advance_job clk j target final db1))"
  by pat_completeness auto
termination
  by (relation "measure (\<lambda>(clk, job, target, final, db). 9 - job_rank (j_state job))")
    (auto dest: walk_climbs)

section \<open>Releasing what a job holds\<close>

text \<open>Close the dispatch, give back an uncommitted reservation, end the miner's pause, and only
  then record the release.  The flag tells whether it came that far.\<close>

definition release_job_resources :: "clock \<Rightarrow> executor \<Rightarrow> job_row \<Rightarrow> db \<Rightarrow> (job_row \<times> bool) act" where
  "release_job_resources clk ex job db =
     andthen (on_store (fence_resource_release clk (j_id job) (j_dispatch_token job) db) db)
       (\<lambda>fenced db1.
     if \<not> fenced then (Inr (job, False), db1)
     else andthen (on_store (release_for_job clk (j_id job) db1) db1) (\<lambda>refunded db2.
     case release_mining_pause_for_job (ex_overview ex (j_id job)) (ex_start ex (j_id job)) (j_id job) db2 of
       (ended, calls, db3) \<Rightarrow>
         if \<not> ended then (Inr (job, False), db3)
         else andthen (on_store (mark_resources_released clk (j_id job) db3) db3) (\<lambda>released db4.
              (Inr (released, True), db4))))"

text \<open>A message on a job that stays where it is; its error is dropped.\<close>

definition note_on_job :: "clock \<Rightarrow> transition_params \<Rightarrow> job_row \<Rightarrow> db \<Rightarrow> job_row \<times> db" where
  "note_on_job clk p job db =
     (case transition_generation_job clk (j_id job) p db of
        Inl e \<Rightarrow> (job, db) | Inr ((j, changed), db1) \<Rightarrow> (j, db1))"

definition failing :: "job_state \<Rightarrow> string \<Rightarrow> string \<Rightarrow> string \<Rightarrow> transition_params" where
  "failing st message code technical =
     \<lparr>tp_state = st, tp_message = message, tp_error_code = code, tp_error_message = technical,
      tp_attempt = 0\<rparr>"

definition fail_job ::
  "clock \<Rightarrow> executor \<Rightarrow> job_row \<Rightarrow> string \<Rightarrow> string \<Rightarrow> string \<Rightarrow> db \<Rightarrow> job_row \<times> db" where
  "fail_job clk ex job code message technical db =
     (case release_job_resources clk ex job db of
        (Inl e, db1) \<Rightarrow> (job, db1)
      | (Inr (released, complete), db1) \<Rightarrow>
          if \<not> complete then
            (let current = (case generation_job_by_id (j_id released) db1 of
                              Inl e \<Rightarrow> None | Inr j \<Rightarrow> Some j);
                 job1 = (case current of None \<Rightarrow> released | Some j \<Rightarrow> j);
                 waiting = (case current of
                     None \<Rightarrow> message @ wm_restoring
                   | Some j \<Rightarrow> if j_submission_started_at j \<noteq> None \<and> j_submission_rejected_at j = None \<and>
                                  go_string (j_prompt_id j) = []
                               then wm_outcome_unknown else message @ wm_restoring)
             in note_on_job clk (failing (j_state job1) waiting code technical) job1 db1)
          else note_on_job clk (failing Failed message code technical) released db1)"

definition expire_job :: "clock \<Rightarrow> executor \<Rightarrow> job_row \<Rightarrow> string \<Rightarrow> db \<Rightarrow> job_row act" where
  "expire_job clk ex job message db =
     andthen (release_job_resources clk ex job db) (\<lambda>(released, complete) db1.
     if \<not> complete
     then (let (j, db2) = note_on_job clk (moving (j_state released) (message @ wm_restoring)) released db1
           in (Inr j, db2))
     else andthen (on_store (transition_generation_job clk (j_id released) (moving Expired message) db1) db1)
            (\<lambda>(j, changed) db2. (Inr j, db2)))"

section \<open>Following the executor\<close>

definition archive_result :: "clock \<Rightarrow> executor \<Rightarrow> job_row \<Rightarrow> db \<Rightarrow> job_row act" where
  "archive_result clk ex job db =
     (if j_state job \<noteq> Archiving then (Inl CannotAdvance, db)
      else if \<not> ex_archived ex (go_string (j_prompt_id job))
      then (Inl ArchiveFailed, snd (note_on_job clk (moving (j_state job) wm_archive_retry) job db))
      else andthen (release_job_resources clk ex job db) (\<lambda>(released, complete) db1.
        if \<not> complete
        then (Inr released, snd (note_on_job clk (moving (j_state released) wm_result_restoring) released db1))
        else andthen (on_store (transition_generation_job clk (j_id released) (moving Completed wm_done) db1) db1)
               (\<lambda>(j, changed) db2. (Inr j, db2))))"

definition finish_completed :: "clock \<Rightarrow> executor \<Rightarrow> job_row \<Rightarrow> db \<Rightarrow> job_row act" where
  "finish_completed clk ex job db =
     andthen (if j_state job \<noteq> Postprocessing \<and> j_state job \<noteq> Archiving
              then advance_job clk job Postprocessing wm_postprocessing db else (Inr job, db)) (\<lambda>job1 db1.
     andthen (if j_state job1 = Postprocessing
              then advance_job clk job1 Archiving wm_archiving db1 else (Inr job1, db1)) (\<lambda>job2 db2.
     archive_result clk ex job2 db2))"

definition finish_cancelled :: "clock \<Rightarrow> executor \<Rightarrow> job_row \<Rightarrow> db \<Rightarrow> job_row act" where
  "finish_cancelled clk ex job db =
     andthen (release_job_resources clk ex job db) (\<lambda>(released, complete) db1.
     if \<not> complete
     then (let (j, db2) = note_on_job clk (moving (j_state released) wm_cancel_restoring) released db1
           in (Inr j, db2))
     else andthen (on_store (transition_generation_job clk (j_id released) (moving Cancelled wm_cancelled) db1) db1)
            (\<lambda>(j, changed) db2. (Inr j, db2)))"

definition reconcile_job :: "clock \<Rightarrow> executor \<Rightarrow> job_row \<Rightarrow> gen_status \<Rightarrow> db \<Rightarrow> job_row act" where
  "reconcile_job clk ex job st db =
     (if terminal (j_state job) then (Inr job, db)
      else if j_cancel_requested_at job \<noteq> None \<and> j_cancel_confirmed_at job = None then (Inr job, db)
      else if j_cancel_confirmed_at job \<noteq> None then finish_cancelled clk ex job db
      else if j_user_id job = None
      then (let (j, db1) = fail_job clk ex job ''generation_owner_deleted'' wm_owner_deleted
                             ''generation owner was deleted'' db in (Inr j, db1))
      else if gs_state st = ''queued'' then advance_job clk job Queued (gs_message st) db
      else if gs_state st = ''running'' then advance_job clk job Running (gs_message st) db
      else if gs_state st = ''error''
      then (let (j, db1) = fail_job clk ex job ''comfy_execution_failed'' (gs_message st) (gs_message st) db
            in (Inr j, db1))
      else if gs_state st = ''completed'' then finish_completed clk ex job db
      else (Inr job, db))"

section \<open>A hand-over whose answer was lost\<close>

definition recover_prompt :: "clock \<Rightarrow> executor \<Rightarrow> job_row \<Rightarrow> db \<Rightarrow> job_row option act" where
  "recover_prompt clk ex job db =
     (if go_string (j_prompt_id job) \<noteq> [] then (Inr None, db)
      else case find_prompt ex (j_public_id job) of
             Inl e \<Rightarrow> (Inl e, db)
           | Inr None \<Rightarrow> (Inr None, db)
           | Inr (Some pid) \<Rightarrow>
               andthen (on_store (bind_generation_job_prompt clk (j_id job) pid db) db) (\<lambda>job1 db1.
               andthen (on_store (commit_for_job clk (j_id job1) db1) db1) (\<lambda>committed db2.
               andthen (advance_job clk job1 Queued wm_recovered db2) (\<lambda>job2 db3.
               (if ex_projected ex (j_id job2) then Inr (Some job2) else Inl ProjectionFailed, db3)))))"

section \<open>Cancellation\<close>

definition no_status :: gen_status where
  "no_status = \<lparr>gs_state = [], gs_message = [], gs_known = False\<rparr>"

definition confirm_and_finish ::
  "clock \<Rightarrow> executor \<Rightarrow> job_row \<Rightarrow> gen_status \<Rightarrow> db \<Rightarrow> (job_row \<times> bool) act" where
  "confirm_and_finish clk ex job st db =
     andthen (on_store (confirm_job_cancellation clk (j_id job) db) db) (\<lambda>(confirmed, changed) db1.
     andthen (reconcile_job clk ex confirmed st db1) (\<lambda>j db2. (Inr (j, j_state j = Cancelled), db2)))"

text \<open>The executor was faster: the cancellation is withdrawn.\<close>

definition withdraw_cancellation ::
  "clock \<Rightarrow> executor \<Rightarrow> job_row \<Rightarrow> int \<Rightarrow> string \<Rightarrow> gen_status \<Rightarrow> db \<Rightarrow> (job_row \<times> bool) act" where
  "withdraw_cancellation clk ex job uid message st db =
     andthen (on_store (clear_job_cancellation clk (j_id job) uid message db) db) (\<lambda>(cleared, changed) db1.
     andthen (reconcile_job clk ex cleared st db1) (\<lambda>j db2. (Inr (j, False), db2)))"

definition cancel_prompt ::
  "clock \<Rightarrow> executor \<Rightarrow> job_row \<Rightarrow> int \<Rightarrow> db \<Rightarrow> (job_row \<times> bool) act" where
  "cancel_prompt clk ex job uid db =
     (let pid = go_string (j_prompt_id job) in
      case ex_cancel_queue ex of
        None \<Rightarrow> (Inl CancelNotSent, db)
      | Some q \<Rightarrow>
          (case queue_state q pid of
             (queued, running) \<Rightarrow>
               let ok = (if queued then ex_cancel_queued ex pid else if running then ex_interrupt ex pid else True);
                   sent = ((queued \<or> running) \<and> ok)
               in if \<not> ok then (Inl CancelNotSent, db)
                  else case fetch_status ex pid of
                         Inl e \<Rightarrow> (Inl (if sent then e else CancelNotSent), db)
                       | Inr st \<Rightarrow>
                           if gs_known st \<and> gs_state st = ''completed''
                           then withdraw_cancellation clk ex job uid wm_already_done st db
                           else if gs_known st \<and> gs_state st = ''error'' \<and> \<not> sent
                           then withdraw_cancellation clk ex job uid (gs_message st) st db
                           else if gs_known st \<and> (gs_state st = ''queued'' \<or> gs_state st = ''running'')
                           then (Inr (job, False), db)
                           else confirm_and_finish clk ex job st db))"

text \<open>The checks come first, also when the recovered job is taken up again; it has a prompt then.\<close>

definition cancellation_checked ::
  "job_row \<Rightarrow> (int \<Rightarrow> (job_row \<times> bool) act) \<Rightarrow> db \<Rightarrow> (job_row \<times> bool) act" where
  "cancellation_checked job continue db =
     (if terminal (j_state job) then (Inr (job, j_state job = Cancelled), db)
      else if j_cancel_requested_at job = None then (Inl NotRequested, db)
      else case j_user_id job of None \<Rightarrow> (Inl OwnerGone, db) | Some uid \<Rightarrow> continue uid)"

definition continue_cancellation ::
  "clock \<Rightarrow> executor \<Rightarrow> job_row \<Rightarrow> db \<Rightarrow> (job_row \<times> bool) act" where
  "continue_cancellation clk ex job db =
     cancellation_checked job (\<lambda>uid.
       if go_string (j_prompt_id job) \<noteq> [] then cancel_prompt clk ex job uid db
       else if j_submission_started_at job \<noteq> None \<and> j_submission_rejected_at job = None
       then andthen (recover_prompt clk ex job db) (\<lambda>found db1.
            case found of
              None \<Rightarrow> (Inr (job, False), db1)
            | Some job1 \<Rightarrow>
                cancellation_checked job1 (\<lambda>uid1. cancel_prompt clk ex job1 uid1 db1) db1)
       else confirm_and_finish clk ex job no_status db) db"

section \<open>The refresh of all jobs\<close>

definition overdue :: "clock \<Rightarrow> int \<Rightarrow> job_row \<Rightarrow> bool" where
  "overdue clk seconds job = (go_now clk - j_state_changed_at job > usec seconds)"

definition refresh_bound :: "clock \<Rightarrow> executor \<Rightarrow> job_row \<Rightarrow> db \<Rightarrow> db" where
  "refresh_bound clk ex job db =
     (if j_cancel_requested_at job \<noteq> None then snd (continue_cancellation clk ex job db)
      else case fetch_status ex (go_string (j_prompt_id job)) of
             Inl e \<Rightarrow> db
           | Inr st \<Rightarrow>
               if \<not> gs_known st \<and> overdue clk 300 job then snd (expire_job clk ex job wm_vanished db)
               else snd (reconcile_job clk ex job st db))"

definition refresh_unbound :: "clock \<Rightarrow> executor \<Rightarrow> job_row \<Rightarrow> db \<Rightarrow> db" where
  "refresh_unbound clk ex job db =
     (if j_submission_rejected_at job \<noteq> None \<and> j_cancel_requested_at job = None
      then snd (fail_job clk ex job ''comfy_submission_failed'' wm_rejected (j_error_message job) db)
      else if j_cancel_requested_at job \<noteq> None then snd (continue_cancellation clk ex job db)
      else if j_dispatch_queued_at job \<noteq> None \<and> j_submission_started_at job = None then db
      else case recover_prompt clk ex job db of
             (Inl e, db1) \<Rightarrow> db1
           | (Inr None, db1) \<Rightarrow>
               (if j_submission_started_at job = None \<and> overdue clk 120 job
                then snd (expire_job clk ex job wm_unconfirmed db1) else db1)
           | (Inr (Some job1), db1) \<Rightarrow> refresh_bound clk ex job1 db1)"

definition refresh_job :: "clock \<Rightarrow> executor \<Rightarrow> job_row \<Rightarrow> db \<Rightarrow> db" where
  "refresh_job clk ex job db =
     (if j_batch_id job \<noteq> None \<and> j_state job = Draft \<and> j_cancel_requested_at job = None then db
      else if j_user_id job = None
      then snd (fail_job clk ex job ''generation_owner_deleted'' wm_owner_deleted
                  ''generation owner was deleted'' db)
      else if go_string (j_prompt_id job) = [] then refresh_unbound clk ex job db
      else refresh_bound clk ex job db)"

text \<open>A pass over the jobs as they were read at its beginning; ComfyUI is asked anew for each.\<close>

definition refresh_tracked_jobs :: "clock \<Rightarrow> (int \<Rightarrow> executor) \<Rightarrow> db \<Rightarrow> db" where
  "refresh_tracked_jobs clk ex db =
     (case list_active_generation_jobs 500 db of
        Inl e \<Rightarrow> db
      | Inr active \<Rightarrow> fold (\<lambda>j. refresh_job clk (ex (j_id j)) j) active db)"

end
