(* ===== verification/JobDispatch.thy ===== *)
theory JobDispatch
  imports JobWorker
begin

text \<open>
  The dispatcher of queued jobs (\<open>dispatchGenerationJobs\<close> of \<open>gateway/generation_batches.go\<close> and
  \<open>submitComfyPrompt\<close> of \<open>gateway/generation.go\<close>): it claims the next job, prepares it, pauses
  the miner, writes the marker and hands the workflow to ComfyUI.
\<close>

section \<open>The dispatcher\<close>

text \<open>
  The answers to one dispatch: the token, the rows other transactions hold, what decoding,
  parsing and checking the stored payload gives (an error text, or the prepared job), the
  admission to ComfyUI's queue, the miner and the new lease, the policy of the owner to pause
  the miner, and ComfyUI's answer to the prompt.
\<close>

datatype preparation =
    PayloadLost string | PayloadInvalid string | PreflightFailed string | PreparedInput prepared_job

datatype send_reply = SendRejected string | SendUnanswered string | SendAccepted string

datatype admission_reply = AdmissionFull | AdmissionFailed string | Admitted

record dispatch_world =
  dw_token :: string
  dw_locked :: "int \<Rightarrow> bool"
  dw_prepare :: "job_row \<Rightarrow> preparation"
  dw_error :: "store_error \<Rightarrow> string"
  dw_admission :: admission_reply
  dw_pause_policy :: bool
  dw_pause_overview :: mining_overview
  dw_stop :: agent_reply
  dw_pause_error :: string
  dw_lease_id :: string
  dw_send :: send_reply

datatype dispatch_effect = PromptSent int

definition owner_unavailable :: "clock \<Rightarrow> int \<Rightarrow> db \<Rightarrow> bool" where
  "owner_unavailable clk uid db =
     (case find_user uid db of
        None \<Rightarrow> True
      | Some u \<Rightarrow> u_disabled u \<or>
          (case u_expires_at u of None \<Rightarrow> False | Some e \<Rightarrow> e < go_now clk))"

definition unavailable_text :: "dispatch_world \<Rightarrow> int \<Rightarrow> db \<Rightarrow> string" where
  "unavailable_text dw uid db =
     (if find_user uid db = None then dw_error dw ErrNoRows else ''generation owner is unavailable'')"

definition max_active_batch_jobs :: int where
  "max_active_batch_jobs = 2"

text \<open>
  The zero value of \<open>domain.GenerationJob\<close>.  The store returns it with an error, and the
  dispatcher assigns it to the variable it then fails.
\<close>

definition zero_time :: int where
  "zero_time = usec (- 62135596800)"

definition zero_job :: job_row where
  "zero_job =
     \<lparr>j_id = 0, j_public_id = [], j_correlation_id = [], j_user_id = None, j_username = [],
      j_request_id = [], j_parent_job_id = None, j_batch_id = None, j_batch_position = 0,
      j_experiment_value = [], j_prompt_id = None, j_template_id = [], j_workflow_id = [],
      j_model_name = [], j_seed = 0, j_payload_cipher = None, j_state = UnknownState [],
      j_status_message = [], j_error_code = [], j_error_message = [], j_attempt = 0,
      j_dependencies = [], j_input_count = 0, j_state_changed_at = zero_time,
      j_started_at = None, j_finished_at = None, j_resources_released_at = None,
      j_quota_reserved_on = None, j_quota_committed_at = None, j_cancel_requested_at = None,
      j_cancel_confirmed_at = None, j_created_at = zero_time, j_updated_at = zero_time,
      j_dispatch_queued_at = None, j_dispatch_token = [], j_dispatch_until = None,
      j_dispatch_closed_at = None, j_submission_started_at = None, j_submission_rejected_at = None\<rparr>"

text \<open>Uploading, preparing, waiting for resources.  A failing step gives the code, the message
  and the error of the job's failure.\<close>

definition to_uploading ::
  "clock \<Rightarrow> job_row \<Rightarrow> prepared_job \<Rightarrow> db \<Rightarrow> (string \<times> string \<times> store_error + job_row) \<times> db" where
  "to_uploading clk job pr db =
     (if j_state job = Preparing \<and> pr_input_count pr > 0
      then case transition_generation_job clk (j_id job) (moving Uploading wm_uploading) db of
             Inl e \<Rightarrow> (Inl (''generation_batch_input_state_failed'', wm_uploading_failed, e), db)
           | Inr ((j, changed), db1) \<Rightarrow> (Inr j, db1)
      else (Inr job, db))"

definition to_waiting ::
  "clock \<Rightarrow> job_row \<Rightarrow> prepared_job \<Rightarrow> db \<Rightarrow> (string \<times> string \<times> store_error + job_row) \<times> db" where
  "to_waiting clk job pr db =
     (if j_state job = WaitingForResources then (Inr job, db)
      else case prepare_generation_job clk (j_id job) (pr\<lparr>pr_payload_cipher := j_payload_cipher job\<rparr>) db of
             Inl e \<Rightarrow> (Inl (''generation_batch_prepare_failed'', wm_prepare_failed, e), db)
           | Inr (j, db1) \<Rightarrow>
               (case transition_generation_job clk (j_id j) (moving WaitingForResources wm_resources_waiting) db1 of
                  Inl e \<Rightarrow> (Inl (''generation_batch_resource_state_failed'', wm_resources_failed, e), db1)
                | Inr ((k, changed), db2) \<Rightarrow> (Inr k, db2)))"

definition ready_job ::
  "clock \<Rightarrow> job_row \<Rightarrow> prepared_job \<Rightarrow> db \<Rightarrow> (string \<times> string \<times> store_error + job_row) \<times> db" where
  "ready_job clk job pr db =
     (case to_uploading clk job pr db of
        (Inl e, db1) \<Rightarrow> (Inl e, db1)
      | (Inr j, db1) \<Rightarrow> to_waiting clk j pr db1)"

text \<open>After the answer of ComfyUI: the lease, the prompt, the quota and the state follow.\<close>

definition accept_prompt ::
  "clock \<Rightarrow> job_row \<Rightarrow> lease_row option \<Rightarrow> string \<Rightarrow> db \<Rightarrow> db" where
  "accept_prompt clk job lease pid db =
     (let db1 = (case lease of
                   None \<Rightarrow> db
                 | Some l \<Rightarrow> (case attach_mining_lease (l_id l) pid db of Inl e \<Rightarrow> db | Inr (b, t) \<Rightarrow> t))
      in case bind_generation_job_prompt clk (j_id job) pid db1 of
           Inl e \<Rightarrow> db1
         | Inr (bound, db2) \<Rightarrow>
             (let db3 = (case commit_for_job clk (j_id bound) db2 of Inl e \<Rightarrow> db2 | Inr (b, t) \<Rightarrow> t)
              in snd (note_on_job clk (moving Queued wm_queued) bound db3)))"

definition refuse_prompt ::
  "clock \<Rightarrow> executor \<Rightarrow> job_row \<Rightarrow> string \<Rightarrow> db \<Rightarrow> db" where
  "refuse_prompt clk ex job technical db =
     snd (fail_job clk ex job ''comfy_submission_failed'' wm_unconfirmed technical db)"

text \<open>\<open>submitComfyPrompt\<close> with the callback that pauses the miner and writes the marker right
  before the prompt is sent.\<close>

definition send_prompt ::
  "clock \<Rightarrow> executor \<Rightarrow> dispatch_world \<Rightarrow> job_row \<Rightarrow> int \<Rightarrow> db \<Rightarrow> db \<times> dispatch_effect list" where
  "send_prompt clk ex dw job uid db =
     (case dw_admission dw of
        AdmissionFull \<Rightarrow>
          ((case postpone_dispatch clk (j_id job) (j_dispatch_token job) db of Inl e \<Rightarrow> db | Inr t \<Rightarrow> t), [])
      | AdmissionFailed text \<Rightarrow> (refuse_prompt clk ex job text db, [])
      | Admitted \<Rightarrow>
          (case pause_for_generation clk (dw_pause_overview dw) (dw_stop dw) (dw_pause_policy dw)
                  (dw_lease_id dw) (j_correlation_id job) uid (j_id job) db of
             (pause, calls, db1) \<Rightarrow>
               if pause = PauseFailed then (refuse_prompt clk ex job (dw_pause_error dw) db1, [])
               else
                 (case begin_job_submission clk (j_id job) (j_dispatch_token job) db1 of
                    Inl e \<Rightarrow> (refuse_prompt clk ex job (dw_error dw e) db1, [])
                  | Inr db2 \<Rightarrow>
                      (case dw_send dw of
                         SendAccepted pid \<Rightarrow>
                           if valid_prompt_id pid
                           then (accept_prompt clk job (case pause of Leased l \<Rightarrow> Some l | _ \<Rightarrow> None) pid db2,
                                 [PromptSent (j_id job)])
                           else (refuse_prompt clk ex job wm_bad_prompt_id db2, [PromptSent (j_id job)])
                       | SendUnanswered text \<Rightarrow>
                           (refuse_prompt clk ex job text db2, [PromptSent (j_id job)])
                       | SendRejected text \<Rightarrow>
                           (case reject_job_submission clk (j_id job) (j_dispatch_token job) db2 of
                              Inl e \<Rightarrow> (db2, [PromptSent (j_id job)])
                            | Inr db3 \<Rightarrow>
                                (refuse_prompt clk ex job text db3, [PromptSent (j_id job)]))))))"

text \<open>The job as it is now decides: another worker may own it, its owner may have cancelled it.\<close>

definition dispatch_claimed ::
  "clock \<Rightarrow> executor \<Rightarrow> dispatch_world \<Rightarrow> job_row \<Rightarrow> int \<Rightarrow> prepared_job \<Rightarrow> db \<Rightarrow>
     db \<times> dispatch_effect list" where
  "dispatch_claimed clk ex dw job uid pr db =
     (case ready_job clk job pr db of
        (Inl (code, message, e), db1) \<Rightarrow>
          (snd (fail_job clk ex zero_job code message (dw_error dw e) db1), [])
      | (Inr job1, db1) \<Rightarrow>
          (case generation_job_by_public_id uid (j_public_id job1) db1 of
             Inl e \<Rightarrow> (db1, [])
           | Inr current \<Rightarrow>
               if j_dispatch_token current \<noteq> j_dispatch_token job1 \<or> terminal (j_state current)
               then (db1, [])
               else if j_cancel_requested_at current \<noteq> None
               then (snd (continue_cancellation clk ex current db1), [])
               else send_prompt clk ex dw current uid db1))"

definition dispatch_generation_jobs ::
  "clock \<Rightarrow> executor \<Rightarrow> dispatch_world \<Rightarrow> db \<Rightarrow> db \<times> dispatch_effect list" where
  "dispatch_generation_jobs clk ex dw db =
     (case claim_next_dispatch clk (dw_locked dw) (dw_token dw) max_active_batch_jobs db of
        Inl e \<Rightarrow> (db, [])
      | Inr (job, db1) \<Rightarrow>
          (case j_user_id job of
             None \<Rightarrow>
               (snd (fail_job clk ex job ''generation_owner_deleted'' wm_owner_deleted
                       ''generation owner was deleted'' db1), [])
           | Some uid \<Rightarrow>
               if owner_unavailable clk uid db1
               then (snd (fail_job clk ex job ''generation_owner_unavailable'' wm_owner_unavailable
                            (unavailable_text dw uid db1) db1), [])
               else
                 (case dw_prepare dw job of
                    PayloadLost text \<Rightarrow>
                      (snd (fail_job clk ex job ''generation_batch_payload_failed'' wm_payload_lost text db1), [])
                  | PayloadInvalid text \<Rightarrow>
                      (snd (fail_job clk ex job ''generation_batch_payload_invalid'' wm_payload_invalid text db1), [])
                  | PreflightFailed text \<Rightarrow>
                      (snd (fail_job clk ex job ''generation_batch_preflight_failed'' wm_preflight text db1), [])
                  | PreparedInput pr \<Rightarrow> dispatch_claimed clk ex dw job uid pr db1)))"

end
