(* ===== verification/JobPasses.thy ===== *)
theory JobPasses
  imports JobDispatch
begin

text \<open>
  What the worker of generation jobs does to the store: a pass of the refresh and a pass of
  the dispatcher are runs of the store, whatever ComfyUI and the miner answer; a workflow is
  sent at most once; resources are given back in order, and not while the outcome of a
  hand-over is in doubt.
\<close>

section \<open>Every operation is a run of the store\<close>

abbreviation store_run :: "db \<Rightarrow> db \<Rightarrow> bool" where
  "store_run \<equiv> steps store_step"

named_theorems runs

lemma run_on_store:
  "(\<And>a t. m = Inr (a, t) \<Longrightarrow> store_step db t) \<Longrightarrow> store_run db (snd (on_store m db))"
  by (auto simp: on_store_def split: sum.splits intro: steps_one)

lemma run_andthen:
  "store_run db (snd m) \<Longrightarrow> (\<And>a d. m = (Inr a, d) \<Longrightarrow> store_run d (snd (f a d))) \<Longrightarrow>
     store_run db (snd (andthen m f))"
  by (auto simp: andthen_def split: prod.splits sum.splits intro: steps_trans)

lemma store_ops [simp]:
  "store_run db (snd (on_store (transition_generation_job clk i p db) db))"
  "store_run db (snd (on_store (bind_generation_job_prompt clk i pid db) db))"
  "store_run db (snd (on_store (commit_for_job clk i db) db))"
  "store_run db (snd (on_store (fence_resource_release clk i token db) db))"
  "store_run db (snd (on_store (release_for_job clk i db) db))"
  "store_run db (snd (on_store (mark_resources_released clk i db) db))"
  "store_run db (snd (on_store (confirm_job_cancellation clk i db) db))"
  "store_run db (snd (on_store (clear_job_cancellation clk i uid m db) db))"
  by (rule run_on_store, rule st_transition st_bind st_commit st_fence st_release st_released
      st_confirm st_clear, assumption)+

lemma note_run [simp]: "store_run db (snd (note_on_job clk p job db))"
  by (auto simp: note_on_job_def split: sum.splits prod.splits intro: steps_one st_transition)

lemma pause_release_run: "store_run db (snd (snd (release_mining_pause_for_job ov start jid db)))"
proof (cases "release_mining_pause_for_job ov start jid db")
  case (fields ok calls t)
  then show ?thesis
    by (auto simp: release_mining_pause_for_job_def split: option.splits intro: steps_one st_resume)
qed

lemma release_resources_run [simp]: "store_run db (snd (release_job_resources clk ex job db))"
proof -
  have miner: "store_run d (snd (case release_mining_pause_for_job ov start jid d of
       (ended, calls, db3) \<Rightarrow>
         if \<not> ended then (Inr (job, False), db3)
         else andthen (on_store (mark_resources_released clk (j_id job) db3) db3) (\<lambda>released db4.
              (Inr (released, True), db4))))" for d ov start jid
  proof -
    obtain ended calls t where r: "release_mining_pause_for_job ov start jid d = (ended, calls, t)"
      by (cases "release_mining_pause_for_job ov start jid d")
    have "store_run t (snd (andthen (on_store (mark_resources_released clk (j_id job) t) t)
            (\<lambda>released db4. (Inr (released, True), db4))))"
      by (rule run_andthen) simp_all
    with pause_release_run[of d ov start jid] show ?thesis
      by (auto simp: r intro: steps_trans)
  qed
  show ?thesis unfolding release_job_resources_def
    by (rule run_andthen, simp, split if_split, intro conjI impI, simp,
        rule run_andthen, simp, rule miner)
qed

lemma fail_job_run [simp]: "store_run db (snd (fail_job clk ex job code message technical db))"
proof -
  obtain x t where r: "release_job_resources clk ex job db = (x, t)" by fastforce
  with release_resources_run[of db clk ex job] have "store_run db t" by simp
  moreover have "store_run t (snd (fail_job clk ex job code message technical db))"
    by (auto simp: fail_job_def r Let_def split: sum.splits prod.splits)
  ultimately show ?thesis by (rule steps_trans)
qed

text \<open>A step of the worker that ends with the release of the resources and a last message or a
  transition.\<close>

lemma after_release_run:
  "store_run db (snd (andthen (release_job_resources clk ex job db) f))"
  if "\<And>j b d. store_run d (snd (f (j, b) d))"
  using that by (auto intro!: run_andthen)

lemma finish_run:
  "store_run d (snd (andthen (on_store (transition_generation_job clk i p d) d) (\<lambda>(j, changed) u. (Inr j, u))))"
  by (rule run_andthen) auto

lemma case_note_run [simp]:
  "store_run d (snd (case note_on_job clk p job d of (j, u) \<Rightarrow> (Inr j, u)))"
  using note_run[of d clk p job] by (simp add: case_prod_beta)

lemma case_fail_run [simp]:
  "store_run d (snd (case fail_job clk ex job code message technical d of (j, u) \<Rightarrow> (Inr j, u)))"
  using fail_job_run[of d clk ex job code message technical] by (simp add: case_prod_beta)

lemma expire_job_run [simp]: "store_run db (snd (expire_job clk ex job message db))"
  unfolding expire_job_def
  by (rule after_release_run) (simp add: finish_run Let_def)

lemma finish_cancelled_run [simp]: "store_run db (snd (finish_cancelled clk ex job db))"
  unfolding finish_cancelled_def
  by (rule after_release_run) (simp add: finish_run Let_def)

lemma archive_result_run [simp]: "store_run db (snd (archive_result clk ex job db))"
proof -
  have "store_run d (snd (andthen (release_job_resources clk ex job d) (\<lambda>(released, complete) db1.
        if \<not> complete
        then (Inr released, snd (note_on_job clk (moving (j_state released) wm_result_restoring) released db1))
        else andthen (on_store (transition_generation_job clk (j_id released) (moving Completed wm_done) db1) db1)
               (\<lambda>(j, changed) db2. (Inr j, db2)))))" for d
    by (rule after_release_run) (simp add: finish_run)
  then show ?thesis by (simp add: archive_result_def)
qed

lemma advance_job_run [simp]: "store_run db (snd (advance_job clk job target final db))"
proof (induction clk job target final db rule: advance_job.induct)
  case (1 clk job target final db)
  show ?case
  proof (cases "j_state job = target \<or> terminal (j_state job) \<or> next_state target (j_state job) = None")
    case True
    then show ?thesis by (auto simp: advance_job.simps[of clk job])
  next
    case False
    then obtain nxt where n: "next_state target (j_state job) = Some nxt" by auto
    show ?thesis
    proof (cases "transition_generation_job clk (j_id job) (moving nxt (step_message target final nxt)) db")
      case (Inl e)
      with False n show ?thesis by (simp add: advance_job.simps[of clk job])
    next
      case (Inr r)
      then obtain j b t where tr: "transition_generation_job clk (j_id job)
          (moving nxt (step_message target final nxt)) db = Inr ((j, b), t)" by (cases r) auto
      from False n tr have "store_run t (snd (advance_job clk j target final t))"
        by (intro "1.IH"[OF _ _ n]) auto
      with False n tr st_transition[OF tr] show ?thesis
        by (auto simp: advance_job.simps[of clk job] intro: steps_trans[OF steps_one])
    qed
  qed
qed

declare advance_job.simps [simp del]

lemma finish_completed_run [simp]: "store_run db (snd (finish_completed clk ex job db))"
  unfolding finish_completed_def by (auto intro!: run_andthen)

lemma reconcile_job_run [simp]: "store_run db (snd (reconcile_job clk ex job st db))"
  by (simp add: reconcile_job_def)

lemma recover_prompt_run [simp]: "store_run db (snd (recover_prompt clk ex job db))"
  by (auto simp: recover_prompt_def split: sum.split option.split intro!: run_andthen)

lemma confirm_and_finish_run [simp]: "store_run db (snd (confirm_and_finish clk ex job st db))"
  unfolding confirm_and_finish_def by (auto intro!: run_andthen)

lemma withdraw_run [simp]: "store_run db (snd (withdraw_cancellation clk ex job uid message st db))"
  unfolding withdraw_cancellation_def by (auto intro!: run_andthen)

lemma cancel_prompt_run [simp]: "store_run db (snd (cancel_prompt clk ex job uid db))"
  by (simp add: cancel_prompt_def Let_def split: option.split sum.split prod.split)

lemma checked_run:
  "(\<And>uid. store_run db (snd (continue uid))) \<Longrightarrow> store_run db (snd (cancellation_checked job continue db))"
  by (auto simp: cancellation_checked_def split: option.split)

lemma continue_cancellation_run [simp]: "store_run db (snd (continue_cancellation clk ex job db))"
  unfolding continue_cancellation_def
  by (rule checked_run) (auto intro!: run_andthen checked_run split: option.split)

lemma refresh_bound_run [simp]: "store_run db (refresh_bound clk ex job db)"
  by (simp add: refresh_bound_def split: sum.split)

lemma refresh_unbound_run [simp]: "store_run db (refresh_unbound clk ex job db)"
proof -
  obtain x t where r: "recover_prompt clk ex job db = (x, t)" by fastforce
  with recover_prompt_run[of db clk ex job] have "store_run db t" by simp
  then show ?thesis
    by (auto simp: refresh_unbound_def r intro: steps_trans split: sum.split option.split)
qed

lemma refresh_job_run [simp]: "store_run db (refresh_job clk ex job db)"
  by (simp add: refresh_job_def)

lemma fold_run: "(\<And>j d. store_run d (f j d)) \<Longrightarrow> store_run db (fold f js db)"
  by (induction js arbitrary: db) (auto intro: steps_trans)

lemma refresh_run: "store_run db (refresh_tracked_jobs clk exs db)"
  by (auto simp: refresh_tracked_jobs_def split: sum.split intro: fold_run)

section \<open>The dispatcher\<close>

lemma refuse_run [simp]: "store_run db (refuse_prompt clk ex job technical db)"
  by (simp add: refuse_prompt_def)

lemma pause_step_run: "store_run db (snd (snd (pause_for_generation clk ov stop policy lid cid uid jid db)))"
proof (cases "reserve_mining clk ov stop lid cid uid jid 0 db")
  case (fields r calls t)
  then have "store_step db t" by (rule st_pause)
  then show ?thesis by (simp add: pause_for_generation_def fields steps_one)
qed

definition lease_attached :: "lease_row option \<Rightarrow> string \<Rightarrow> db \<Rightarrow> db" where
  "lease_attached lease pid db =
     (case lease of
        None \<Rightarrow> db
      | Some l \<Rightarrow> (case attach_mining_lease (l_id l) pid db of Inl e \<Rightarrow> db | Inr (b, t) \<Rightarrow> t))"

lemma attach_run [simp]: "store_run db (lease_attached lease pid db)"
  by (auto simp: lease_attached_def split: option.split sum.split intro: steps_one st_attach)

lemma commit_case_run [simp]:
  "store_run db (case commit_for_job clk jid db of Inl e \<Rightarrow> db | Inr (b, t) \<Rightarrow> t)"
  by (auto split: sum.split intro: steps_one st_commit)

lemma accept_run [simp]: "store_run db (accept_prompt clk job lease pid db)"
proof -
  let ?a = "lease_attached lease pid db"
  have a: "store_run db ?a" by simp
  have "store_run ?a (accept_prompt clk job lease pid db)"
  proof (cases "bind_generation_job_prompt clk (j_id job) pid ?a")
    case (Inl e)
    then show ?thesis by (simp add: accept_prompt_def lease_attached_def[symmetric])
  next
    case (Inr r)
    then obtain bound d where r: "r = (bound, d)" by (cases r)
    with Inr have "store_run ?a d" by (auto intro: steps_one st_bind)
    moreover have "store_run d (accept_prompt clk job lease pid db)"
      using Inr r
      by (auto simp: accept_prompt_def lease_attached_def[symmetric] Let_def
          intro: steps_trans[OF commit_case_run note_run])
    ultimately show ?thesis by (rule steps_trans)
  qed
  with a show ?thesis by (rule steps_trans)
qed

text \<open>What the sending of a prompt leaves: nothing was sent, or the marker was written before.\<close>

definition marked_then :: "int \<Rightarrow> db \<Rightarrow> db \<Rightarrow> bool" where
  "marked_then jid s t \<longleftrightarrow>
     (\<exists>clk token s1 s2. store_run s s1 \<and> begin_job_submission clk jid token s1 = Inr s2 \<and> store_run s2 t)"

definition send_result :: "int \<Rightarrow> db \<Rightarrow> db \<times> dispatch_effect list \<Rightarrow> bool" where
  "send_result jid s r \<longleftrightarrow>
     store_run s (fst r) \<and> (snd r = [] \<or> snd r = [PromptSent jid] \<and> marked_then jid s (fst r))"

lemma marked_then_run: "marked_then jid s t \<Longrightarrow> store_run s t"
  unfolding marked_then_def by (meson steps_trans steps_one[of store_step] st_begin)

lemma send_result_none: "store_run s t \<Longrightarrow> send_result jid s (t, [])"
  by (simp add: send_result_def)

lemma send_result_sent: "marked_then jid s t \<Longrightarrow> send_result jid s (t, [PromptSent jid])"
  by (simp add: send_result_def marked_then_run)

lemma marked_then_before: "store_run r s \<Longrightarrow> marked_then jid s t \<Longrightarrow> marked_then jid r t"
  by (auto simp: marked_then_def intro: steps_trans)

lemma send_result_before: "store_run r s \<Longrightarrow> send_result jid s x \<Longrightarrow> send_result jid r x"
  by (auto simp: send_result_def intro: steps_trans marked_then_before)

definition after_marker ::
  "clock \<Rightarrow> executor \<Rightarrow> dispatch_world \<Rightarrow> job_row \<Rightarrow> lease_row option \<Rightarrow> db \<Rightarrow> db" where
  "after_marker clk ex dw job lease db =
     (case dw_send dw of
        SendAccepted pid \<Rightarrow>
          if valid_prompt_id pid then accept_prompt clk job lease pid db
          else refuse_prompt clk ex job wm_bad_prompt_id db
      | SendUnanswered text \<Rightarrow> refuse_prompt clk ex job text db
      | SendRejected text \<Rightarrow>
          (case reject_job_submission clk (j_id job) (j_dispatch_token job) db of
             Inl e \<Rightarrow> db | Inr db3 \<Rightarrow> refuse_prompt clk ex job text db3))"

lemma after_marker_run: "store_run db (after_marker clk ex dw job lease db)"
  by (auto simp: after_marker_def split: send_reply.split sum.split
      intro: steps_trans[OF steps_one[of store_step, OF st_reject] refuse_run])

lemma send_prompt_result: "send_result (j_id job) db (send_prompt clk ex dw job uid db)"
proof (cases "dw_admission dw")
  case AdmissionFull
  then show ?thesis
    by (auto simp: send_prompt_def split: sum.split intro!: send_result_none intro: steps_one st_postpone)
next
  case (AdmissionFailed why)
  then show ?thesis by (simp add: send_prompt_def send_result_none)
next
  case Admitted
  obtain pause calls d where p: "pause_for_generation clk (dw_pause_overview dw) (dw_stop dw)
      (dw_pause_policy dw) (dw_lease_id dw) (j_correlation_id job) uid (j_id job) db = (pause, calls, d)"
    by (rule prod_cases3)
  have d: "store_run db d" using pause_step_run[of db] p by (metis snd_conv)
  have "send_result (j_id job) d (send_prompt clk ex dw job uid db)"
  proof (cases "pause = PauseFailed")
    case True
    then show ?thesis by (simp add: send_prompt_def Admitted p send_result_none)
  next
    case False
    show ?thesis
    proof (cases "begin_job_submission clk (j_id job) (j_dispatch_token job) d")
      case (Inl e)
      with False show ?thesis by (simp add: send_prompt_def Admitted p send_result_none)
    next
      case (Inr d2)
      let ?l = "case pause of Leased l \<Rightarrow> Some l | _ \<Rightarrow> None"
      have "send_prompt clk ex dw job uid db = (after_marker clk ex dw job ?l d2, [PromptSent (j_id job)])"
        using False Inr
        by (simp add: send_prompt_def Admitted p after_marker_def split: send_reply.split sum.split)
      moreover have "marked_then (j_id job) d (after_marker clk ex dw job ?l d2)"
        unfolding marked_then_def using Inr after_marker_run by blast
      ultimately show ?thesis by (simp add: send_result_sent)
    qed
  qed
  with d show ?thesis by (rule send_result_before)
qed

lemma ready_run: "store_run db (snd (ready_job clk job pr db))"
proof -
  have up: "store_run db (snd (to_uploading clk job pr db))"
    by (auto simp: to_uploading_def split: sum.split prod.split intro: steps_one st_transition)
  have wait: "store_run d (snd (to_waiting clk j pr d))" for j d
  proof (cases "prepare_generation_job clk (j_id j) (pr\<lparr>pr_payload_cipher := j_payload_cipher j\<rparr>) d")
    case (Inl e)
    then show ?thesis by (simp add: to_waiting_def)
  next
    case (Inr r)
    then obtain k u where r: "r = (k, u)" by (cases r)
    with Inr have p: "store_step d u" by (auto intro: st_prepare)
    have tr: "store_step u v"
      if "transition_generation_job clk (j_id k) (moving WaitingForResources wm_resources_waiting) u = Inr (q, v)"
      for q v using that by (rule st_transition)
    show ?thesis
      using Inr r p tr
      by (auto simp: to_waiting_def split: sum.split intro: steps_one steps_snoc[OF steps_one])
  qed
  obtain x d where u: "to_uploading clk job pr db = (x, d)" by fastforce
  with up have "store_run db d" by simp
  then show ?thesis using wait
    by (auto simp: ready_job_def u split: sum.split intro: steps_trans)
qed

lemma send_result_ex [simp]: "store_run s t \<Longrightarrow> \<exists>jid. send_result jid s (t, [])"
  by (simp add: send_result_def)

lemma claimed_result: "\<exists>jid. send_result jid db (dispatch_claimed clk ex dw job uid pr db)"
proof -
  obtain x d where r: "ready_job clk job pr db = (x, d)" by fastforce
  have d: "store_run db d" using ready_run[of db clk job pr] by (simp add: r)
  have "\<exists>jid. send_result jid d (dispatch_claimed clk ex dw job uid pr db)"
  proof (cases x)
    case (Inl p)
    then show ?thesis by (auto simp: dispatch_claimed_def r split: prod.split)
  next
    case (Inr k)
    show ?thesis
    proof (cases "generation_job_by_public_id uid (j_public_id k) d")
      case (Inl e)
      then show ?thesis by (simp add: dispatch_claimed_def r Inr)
    next
      case c: (Inr current)
      show ?thesis
        using send_prompt_result[of current d clk ex dw uid]
        by (auto simp: dispatch_claimed_def r Inr c)
    qed
  qed
  with d show ?thesis using send_result_before by blast
qed

lemma dispatch_result: "\<exists>jid. send_result jid db (dispatch_generation_jobs clk ex dw db)"
proof (cases "claim_next_dispatch clk (dw_locked dw) (dw_token dw) max_active_batch_jobs db")
  case (Inl e)
  then show ?thesis by (simp add: dispatch_generation_jobs_def)
next
  case (Inr r)
  then obtain job d where c: "claim_next_dispatch clk (dw_locked dw) (dw_token dw) max_active_batch_jobs db = Inr (job, d)"
    by (cases r) simp
  have run: "store_run db d" using st_next[OF c] by (rule steps_one)
  have "\<exists>jid. send_result jid d (dispatch_generation_jobs clk ex dw db)"
    using claimed_result[of d]
    by (auto simp: dispatch_generation_jobs_def c
        split: option.split preparation.split)
  with run show ?thesis using send_result_before by blast
qed

section \<open>Passes of the worker\<close>


lemma worker_keeps_inv:
  assumes "jobs_inv db"
  shows "jobs_inv (refresh_tracked_jobs clk exs db)"
    and "jobs_inv (fst (dispatch_generation_jobs clk ex dw db))"
  using store.run_inv[OF _ assms] refresh_run[of db clk exs] dispatch_result[of db clk ex dw]
  unfolding send_result_def by blast+

lemma marked_stays:
  assumes "jobs_inv s" "marked_then jid s t" "store_run t u"
  shows "\<not> marked_then jid u v"
proof
  assume "marked_then jid u v"
  then obtain clk' token' u1 u2 where u: "store_run u u1"
    "begin_job_submission clk' jid token' u1 = Inr u2" by (auto simp: marked_then_def)
  from assms(2) obtain clk token s1 s2 where s: "store_run s s1"
    "begin_job_submission clk jid token s1 = Inr s2" "store_run s2 t" by (auto simp: marked_then_def)
  have inv: "jobs_inv s1" by (rule store.run_inv[OF s(1) assms(1)])
  have inv2: "jobs_inv s2" by (rule store.step_inv[OF st_begin[OF s(2)] inv])
  have run: "store_run s2 u1" by (rule steps_trans[OF s(3) steps_trans[OF assms(3) u(1)]])
  have r: "steps sound_step s2 u1" and inv3: "jobs_inv u1" using sound_run[OF run inv2] by simp_all
  have "submits jid s1 s2" using inv s(2) by (auto simp: submits_def)
  moreover have "submits jid u1 u2" using inv3 u(2) by (auto simp: submits_def)
  ultimately show False using submission.at_most_once r by blast
qed

text \<open>C3: A workflow is sent to ComfyUI at most once.  A dispatch sends at most one; when it sent
  the one of a job, no later dispatch sends it again, whatever the store and other passes do
  in between: not after a lost answer, a restart, or an expired lease.\<close>

theorem prompt_sent_once:
  assumes "jobs_inv s" and "dispatch_generation_jobs clk ex dw s = (t, sent)"
    and "PromptSent jid \<in> set sent" and "steps store_step t u"
  shows "sent = [PromptSent jid] \<and>
    PromptSent jid \<notin> set (snd (dispatch_generation_jobs clk' ex' dw' u))"
proof -
  obtain i where i: "send_result i s (t, sent)" using dispatch_result[of s clk ex dw] assms(2) by auto
  with assms(3) have m: "sent = [PromptSent jid]" "marked_then jid s t"
    by (auto simp: send_result_def)
  obtain k where k: "send_result k u (dispatch_generation_jobs clk' ex' dw' u)"
    using dispatch_result by blast
  have "\<not> marked_then jid u v" for v using marked_stays[OF assms(1) m(2) assms(4)] .
  with k m(1) show ?thesis by (auto simp: send_result_def)
qed

section \<open>The release of the resources\<close>











definition ex_executor :: executor where
  "ex_executor =
     \<lparr>ex_find_queue = None, ex_find_history = None, ex_cancel_queue = None,
      ex_cancel_queued = (\<lambda>pid. False), ex_interrupt = (\<lambda>pid. False),
      ex_entry = (\<lambda>pid. Some None), ex_status_queue = None, ex_archived = (\<lambda>pid. True),
      ex_projected = (\<lambda>jid. True),
      ex_overview = (\<lambda>jid. \<lparr>ov_available = False, ov_running = False, ov_active = None, ov_default = None\<rparr>),
      ex_start = (\<lambda>jid. AgentError)\<rparr>"


section \<open>A hand-over whose outcome is unknown\<close>

definition in_doubt :: "job_row \<Rightarrow> bool" where
  "in_doubt j = (j_submission_started_at j \<noteq> None \<and> j_submission_rejected_at j = None \<and> j_prompt_id j = None)"

lemma in_doubt_iff: "in_doubt j \<longleftrightarrow> \<not> submission_settled j"
  by (auto simp: in_doubt_def submission_settled_def)

lemma doubt_not_released:
  assumes "jobs_inv db" "k \<in> set (jobs db)" "in_doubt k"
  shows "release_job_resources clk ex k db = (Inr (k, False), db)"
proof -
  have "\<not> (j_id j = j_id k \<and> submission_settled j)" if "j \<in> set (jobs db)" for j
    using that assms unique_keyD[OF jobs_inv_unique[OF assms(1)]] by (auto simp: in_doubt_iff)
  then have "fence_resource_release clk (j_id k) (j_dispatch_token k) db = Inr (False, db)"
    by (auto simp: fence_resource_release_def update_job_def sql_find_None split: option.split
        dest!: sql_find_Some)
  then show ?thesis by (simp add: release_job_resources_def andthen_def on_store_def)
qed

text \<open>Only the message columns of rows differ.\<close>

definition no_message :: "job_row \<Rightarrow> job_row" where
  "no_message j =
     j\<lparr>j_status_message := [], j_error_code := [], j_error_message := [], j_attempt := 0, j_updated_at := 0\<rparr>"

definition only_messages :: "db \<Rightarrow> db \<Rightarrow> bool" where
  "only_messages s t =
     (map no_message (jobs t) = map no_message (jobs s) \<and> leases t = leases s \<and>
      users t = users s \<and> usage t = usage s)"

lemma only_messages_refl [simp]: "only_messages s s"
  by (simp add: only_messages_def)

lemma note_only_messages:
  assumes "load_job (\<lambda>j. j_id j = j_id job) db = Inr cur" "j_state cur = tp_state p"
  shows "only_messages db (snd (note_on_job clk p job db))"
proof (cases "transition_generation_job clk (j_id job) p db")
  case (Inl e)
  then show ?thesis by (simp add: note_on_job_def)
next
  case (Inr x)
  then obtain j b t where tr: "transition_generation_job clk (j_id job) p db = Inr ((j, b), t)"
    by (cases x) auto
  then obtain q a where q: "trim_transition_params p = Inr q"
    and ap: "apply_transition clk (j_id job) cur q a db = Inr ((j, b), t)"
    using assms(1) unfolding transition_generation_job_Inr by auto
  have "j_state cur = tp_state q" using trim_transition_paramsD[OF q] assms(2) by simp
  with ap have "t = db \<or> (\<exists>d. update_job (\<lambda>i. j_id i = j_id job) (set_status clk q a) db = Inr (j, d) \<and>
      t = bump_job_revision d)"
    unfolding apply_transition_Inr by (auto split: if_splits)
  then have "only_messages db t"
    by (auto simp: only_messages_def update_job_Inr bump_job_revision_def sql_update_def
        no_message_def set_status_def)
  with tr show ?thesis by (simp add: note_on_job_def)
qed

lemma doubt_failure_only_messages:
  assumes "jobs_inv db" "k \<in> set (jobs db)" "in_doubt k"
  shows "only_messages db (snd (fail_job clk ex k code message technical db))"
proof -
  note r = doubt_not_released[OF assms, of clk ex]
  have valid: "job_state_valid (j_state k)" using jobs_invD[OF assms(1,2)] by (simp add: job_row_ok_def)
  have l: "load_job (\<lambda>j. j_id j = j_id k) db = Inr k"
    using sql_find_by_key[OF jobs_inv_unique[OF assms(1)] assms(2)] valid by (simp add: load_job_Inr)
  have "fail_job clk ex k code message technical db
      = note_on_job clk (failing (j_state k) wm_outcome_unknown code technical) k db"
    using assms(3) by (simp add: fail_job_def r generation_job_by_id_def l in_doubt_def Let_def)
  moreover have "only_messages db (snd (note_on_job clk (failing (j_state k) wm_outcome_unknown code technical) k db))"
    by (rule note_only_messages[OF l]) (simp add: failing_def)
  ultimately show ?thesis by simp
qed

lemma doubt_cancellation_waits:
  assumes "in_doubt k" "find_prompt ex (j_public_id k) = Inr None \<or> find_prompt ex (j_public_id k) = Inl e"
  shows "snd (continue_cancellation clk ex k db) = db"
  using assms
  by (auto simp: continue_cancellation_def cancellation_checked_def in_doubt_def recover_prompt_def
      andthen_def split: option.split)

text \<open>C37: While it is unknown whether ComfyUI took a workflow, the worker gives nothing back.  The
  hand-over of a job was begun, was not refused and no prompt is known: when ComfyUI does not
  name the job, or cannot be asked, the refresh of that job changes at most messages.  Quota,
  leases of the miner, and every other column of every job stay, however long it takes and
  even when the job is to be cancelled or its owner is gone.\<close>

theorem uncertain_handover_holds:
  assumes "jobs_inv db" and "k \<in> set (jobs db)" and "in_doubt k"
    and "find_prompt ex (j_public_id k) = Inr None \<or> find_prompt ex (j_public_id k) = Inl e"
  shows "only_messages db (refresh_job clk ex k db)"
proof -
  have recovered: "snd (recover_prompt clk ex k db) = db" "fst (recover_prompt clk ex k db) \<noteq> Inr (Some j)" for j
    using assms(3,4) by (auto simp: recover_prompt_def in_doubt_def)
  have "refresh_unbound clk ex k db = db"
    using assms(3) recovered doubt_cancellation_waits[OF assms(3,4), of clk db]
    by (cases "recover_prompt clk ex k db")
      (auto simp: refresh_unbound_def in_doubt_def split: sum.split option.split)
  then show ?thesis
    using doubt_failure_only_messages[OF assms(1-3)] assms(3)
    by (auto simp: refresh_job_def in_doubt_def)
qed

definition ex_doubtful_job :: job_row where
  "ex_doubtful_job = ex_leased_job\<lparr>j_submission_started_at := Some 1000000\<rparr>"

definition ex_doubtful :: db where
  "ex_doubtful = ex_leased\<lparr>jobs := [ex_doubtful_job]\<rparr>"

lemma uncertain_handover_holds_witness:
  "only_messages ex_doubtful (refresh_job ex_now ex_executor ex_doubtful_job ex_doubtful)"
proof (rule uncertain_handover_holds)
  show "jobs_inv ex_doubtful" by code_simp
  show "ex_doubtful_job \<in> set (jobs ex_doubtful)" by (simp add: ex_doubtful_def)
  show "in_doubt ex_doubtful_job"
    by (simp add: in_doubt_def ex_doubtful_job_def ex_leased_job_def params_job_row_def default_job_row_def)
  show "find_prompt ex_executor (j_public_id ex_doubtful_job) = Inr None \<or>
      find_prompt ex_executor (j_public_id ex_doubtful_job) = Inl ExecutorFailed"
    by (simp add: find_prompt_def ex_executor_def Let_def)
qed

definition ex_queued_job :: job_row where
  "ex_queued_job = ex_leased_job\<lparr>j_dispatch_token := [], j_dispatch_until := None\<rparr>"

definition ex_queued :: db where
  "ex_queued = ex_leased\<lparr>jobs := [ex_queued_job]\<rparr>"

definition ex_prepared :: prepared_job where
  "ex_prepared = \<lparr>pr_template_id = ''image'', pr_workflow_id = ''flux'', pr_model_name = [], pr_seed = 7,
     pr_payload_cipher = None, pr_dependencies = [], pr_input_count = 0\<rparr>"

definition ex_world :: dispatch_world where
  "ex_world =
     \<lparr>dw_token = ''w2'', dw_locked = (\<lambda>jid. False), dw_prepare = (\<lambda>j. PreparedInput ex_prepared),
      dw_error = (\<lambda>e. ''error''), dw_admission = Admitted, dw_pause_policy = False,
      dw_pause_overview = \<lparr>ov_available = False, ov_running = False, ov_active = None, ov_default = None\<rparr>,
      dw_stop = AgentError, dw_pause_error = [], dw_lease_id = [], dw_send = SendUnanswered ''timeout''\<rparr>"

lemma dispatching_ok: "pg_text 500 msg_dispatching"
  unfolding msg_dispatching_def by (rule pg_text_utf8_text) simp_all

lemma set_claim_row_ok:
  "job_row_ok j \<Longrightarrow> j_state j = WaitingForResources \<Longrightarrow> job_row_ok (set_claim clk token j)"
  using dispatching_ok by (simp add: job_row_ok_def set_claim_def)

lemma ex_queued_inv: "jobs_inv ex_queued"
  by code_simp

lemma ex_queued_state: "j_state ex_queued_job = WaitingForResources" "j_id ex_queued_job = 1"
   "j_user_id ex_queued_job = Some 7" "j_batch_id ex_queued_job = None"
   "j_public_id ex_queued_job = ''job-0123456789abcdef''"
  by (simp_all add: ex_queued_job_def ex_leased_job_def params_job_row_def default_job_row_def ex_params_def)

lemma ex_next: "next_dispatch ex_now (\<lambda>jid. False) 2 ex_queued = Some ex_queued_job"
  by code_simp

abbreviation ex_claimed_job :: job_row where
  "ex_claimed_job \<equiv> set_claim ex_now ''w2'' ex_queued_job"

lemma ex_claimed_state: "j_state ex_claimed_job = WaitingForResources" "j_id ex_claimed_job = 1"
   "j_user_id ex_claimed_job = Some 7" "j_batch_id ex_claimed_job = None"
   "j_public_id ex_claimed_job = ''job-0123456789abcdef''" "j_dispatch_token ex_claimed_job = ''w2''"
  by (simp_all add: set_claim_def ex_queued_state)

lemma ex_claim:
  "\<exists>d. claim_next_dispatch ex_now (\<lambda>jid. False) ''w2'' max_active_batch_jobs ex_queued = Inr (ex_claimed_job, d) \<and>
     jobs d = [ex_claimed_job] \<and> users d = [ex_owner]"
proof -
  have "job_row_ok ex_queued_job" using ex_queued_inv by (simp add: jobs_inv_def ex_queued_def)
  then have ok: "job_row_ok ex_claimed_job" by (rule set_claim_row_ok) (simp add: ex_queued_state)
  have "gpu_text_valid ''w2'' 96" by code_simp
  moreover have "clamp_batches max_active_batch_jobs = 2" by code_simp
  moreover have "load_job (\<lambda>j. j_id j = 1) ex_queued = Inr ex_queued_job"
    by (simp add: load_job_def sql_find_def ex_queued_def scan_job_def ex_queued_state)
  moreover have "update_job (\<lambda>j. j_id j = 1) (set_claim ex_now ''w2'') ex_queued
      = Inr (ex_claimed_job, ex_queued\<lparr>jobs := [ex_claimed_job]\<rparr>)"
    using ok by (simp add: update_job_def sql_find_def ex_queued_def ex_queued_state sql_update_def
        scan_job_def ex_claimed_state)
  moreover have "user_exists 7 (ex_queued\<lparr>jobs := [ex_claimed_job]\<rparr>)"
    by (simp add: user_exists_def sql_exists_def ex_queued_def ex_leased_def ex_db_def ex_owner_def)
  moreover have "users ex_queued = [ex_owner]" by (simp add: ex_queued_def ex_leased_def ex_db_def)
  ultimately show ?thesis
    by (simp add: claim_next_dispatch_def ex_next ex_queued_state ex_claimed_state log_claim_def
        touch_batch_def bump_user_revision_def bump_job_revision_def)
qed

lemma ex_sent:
  "\<exists>t. dispatch_generation_jobs ex_now ex_executor ex_world ex_queued = (t, [PromptSent 1])"
proof -
  obtain d where c: "claim_next_dispatch ex_now (\<lambda>jid. False) ''w2'' max_active_batch_jobs ex_queued
      = Inr (ex_claimed_job, d)" and d: "jobs d = [ex_claimed_job]" "users d = [ex_owner]"
    using ex_claim by blast
  have "job_row_ok ex_queued_job" using ex_queued_inv by (simp add: jobs_inv_def ex_queued_def)
  then have ok: "job_row_ok ex_claimed_job" by (rule set_claim_row_ok) (simp add: ex_queued_state)
  have owner: "\<not> owner_unavailable ex_now 7 d"
    by (simp add: owner_unavailable_def find_user_def sql_find_def d ex_owner_def)
  have current: "generation_job_by_public_id 7 ''job-0123456789abcdef'' d = Inr ex_claimed_job"
  proof -
    have "trim_space ''job-0123456789abcdef'' = ''job-0123456789abcdef''" by code_simp
    then show ?thesis
      by (simp add: generation_job_by_public_id_def load_job_def sql_find_def d ex_claimed_state scan_job_def)
  qed
  let ?marked = "ex_claimed_job\<lparr>j_submission_started_at := Some (tx_clock ex_now), j_updated_at := tx_now ex_now\<rparr>"
  have "job_row_ok ?marked" using ok by (simp add: job_row_ok_def)
  moreover have "j_dispatch_until ex_claimed_job = Some (tx_clock ex_now + usec (dur_seconds generation_dispatch_lease))"
    "0 < usec (dur_seconds generation_dispatch_lease)"
    by (simp add: set_claim_def, code_simp)
  moreover have fields: "j_prompt_id ex_claimed_job = None" "j_submission_started_at ex_claimed_job = None"
    "j_cancel_requested_at ex_claimed_job = None" "j_dispatch_closed_at ex_claimed_job = None"
    "j_resources_released_at ex_claimed_job = None"
    by (simp_all add: set_claim_def ex_queued_job_def ex_leased_job_def params_job_row_def default_job_row_def)
  ultimately have "is_ok (begin_job_submission ex_now 1 ''w2'' d)"
    by (simp add: begin_job_submission_def exec_one_def update_job_def sql_find_def d ex_claimed_state
        scan_job_def sql_update_def)
  then obtain m where "begin_job_submission ex_now 1 ''w2'' d = Inr m" by (auto simp: is_ok_iff)
  moreover have "\<not> terminal WaitingForResources" by code_simp
  ultimately show ?thesis
    by (simp add: dispatch_generation_jobs_def ex_world_def c owner ex_claimed_state dispatch_claimed_def
        ready_job_def to_uploading_def to_waiting_def current fields send_prompt_def pause_for_generation_def)
qed

lemma prompt_sent_once_witness:
  "\<exists>t. dispatch_generation_jobs ex_now ex_executor ex_world ex_queued = (t, [PromptSent 1]) \<and>
     PromptSent 1 \<notin> set (snd (dispatch_generation_jobs ex_now ex_executor ex_world t))"
proof -
  obtain t where t: "dispatch_generation_jobs ex_now ex_executor ex_world ex_queued = (t, [PromptSent 1])"
    using ex_sent by blast
  from prompt_sent_once[OF ex_queued_inv t _ steps_refl] t show ?thesis by simp
qed

end
