(* ===== verification/JobAdvance.thy ===== *)
theory JobAdvance
  imports JobPasses
begin

text \<open>
  The walk of the worker through the states of a job (\<open>advanceGenerationJob\<close>): when a single
  transition succeeds, and where the walk ends.
\<close>

section \<open>A step that succeeds\<close>

lemma ink_text_ok:
  assumes "cs \<noteq> []" "ink (hd cs)" "ink (last cs)" "list_all (\<lambda>c. 0 < c \<and> c < 2048) cs" "length cs \<le> n"
  shows "pg_text n (trim_space (utf8_text cs))"
  using assms by (simp add: trim_space_utf8_text pg_text_utf8_text)

lemma worker_texts:
  "pg_text 500 (trim_space wm_preparing)" "pg_text 500 (trim_space wm_waiting)"
  "pg_text 500 (trim_space wm_queued)" "pg_text 500 (trim_space wm_running)"
  "pg_text 500 (trim_space wm_postprocessing)" "pg_text 500 (trim_space wm_archiving)"
  unfolding wm_preparing_def wm_waiting_def wm_queued_def wm_running_def wm_postprocessing_def wm_archiving_def
  by (rule ink_text_ok; simp add: ink_def)+

lemma step_text_ok:
  assumes "next_state target st = Some nxt" "pg_text 500 (trim_space (trim_space final))"
  shows "pg_text 500 (trim_space (step_message target final nxt))"
  using assms worker_texts
  by (cases st) (auto simp: next_state_def step_message_def job_state_message_def split: if_splits)

lemma bound_prompt_text: "job_row_ok j \<Longrightarrow> j_prompt_id j \<noteq> None \<Longrightarrow> go_string (j_prompt_id j) \<noteq> []"
  by (auto simp: job_row_ok_def text_between_def rune_count_def bytes_of_def)

lemma no_notification: "\<not> terminal (j_state j) \<Longrightarrow> create_job_notification j db = Inr db"
  by (auto simp: create_job_notification_def terminal_def split: option.split)

lemma transition_moves:
  assumes inv: "jobs_inv db" and cur: "load_job (\<lambda>j. j_id j = i) db = Inr cur"
    and user: "opt_check (\<lambda>u. user_exists u db) (j_user_id cur)"
    and edge: "can_transition (j_state cur) st" "j_state cur \<noteq> st" "\<not> terminal st"
    and prompt: "st = Queued \<longrightarrow> j_prompt_id cur \<noteq> None"
    and message: "pg_text 500 (trim_space m)"
  obtains k t where "transition_generation_job clk i (moving st m) db = Inr ((k, True), t)"
    "j_state k = st" "j_id k = i" "j_prompt_id k = j_prompt_id cur" "j_user_id k = j_user_id cur"
    "j_cancel_requested_at k = j_cancel_requested_at cur"
    "load_job (\<lambda>j. j_id j = i) t = Inr k" "users t = users db"
proof -
  let ?p = "moving st (trim_space m)"
  let ?k = "set_transition clk ?p (j_attempt cur) cur"
  have in_db: "cur \<in> set (jobs db)" "j_id cur = i" using load_job_in[OF cur] by simp_all
  have ok: "job_row_ok cur" using jobs_invD[OF inv in_db(1)] by simp
  have valid: "job_state_valid st" using edge can_transition_valid by blast
  have trim: "trim_transition_params (moving st m) = Inr ?p"
    using edge(3) by (simp add: trim_transition_params_def moving_def terminal_def)
  have okk: "job_row_ok ?k"
    using ok valid message by (simp add: job_row_ok_def set_transition_def moving_def)
  have others: "j = cur" if "j \<in> set (jobs db)" "j_id j = i" for j
    using unique_keyD[OF jobs_inv_unique[OF inv] that(1) in_db(1)] that(2) in_db(2) by simp
  have keys: "no_conflicts job_conflict (sql_update (\<lambda>j. j_id j = i) (set_transition clk ?p (j_attempt cur)) (jobs db))"
    using inv by (subst no_conflicts_update_same_keys)
      (auto simp: jobs_inv_def same_keys_def set_transition_def)
  have find: "sql_find (\<lambda>j. j_id j = i) (jobs db) = Some cur" using cur by (simp add: load_job_Inr)
  let ?d = "db\<lparr>jobs := sql_update (\<lambda>j. j_id j = i) (set_transition clk ?p (j_attempt cur)) (jobs db)\<rparr>"
  have "list_all (\<lambda>j. j_id j = i \<longrightarrow> job_row_ok (set_transition clk ?p (j_attempt cur) j)) (jobs db)"
    using others okk by (auto simp: list_all_iff)
  then have upd: "update_job (\<lambda>j. j_id j = i) (set_transition clk ?p (j_attempt cur)) db = Inr (?k, ?d)"
    using find keys valid by (simp add: update_job_Inr set_transition_def moving_def)
  have log: "transition_row_ok (logged_transition clk cur ?k)"
    using okk ok valid since_ms_nonneg
    by (simp add: transition_row_ok_def logged_transition_def job_row_ok_def set_transition_def moving_def)
  let ?e = "?d\<lparr>transitions := transitions db @ [logged_transition clk cur ?k]\<rparr>"
  have told: "create_job_notification ?k ?e = Inr ?e"
    using edge(3) by (intro no_notification) (simp add: set_transition_def moving_def)
  have "\<exists>u. bump_owner_revision (j_user_id ?k) ?e = Inr u \<and> jobs u = jobs ?d \<and> users u = users db"
    using user by (cases "j_user_id cur")
      (simp_all add: set_transition_def bump_user_revision_def user_exists_def)
  then obtain u where u: "bump_owner_revision (j_user_id ?k) ?e = Inr u" "jobs u = jobs ?d" "users u = users db"
    by blast
  then have rec: "record_transition clk cur ?k ?d = Inr (bump_job_revision u)"
    using log told by (simp add: record_transition_def append_transition_def)
  have "apply_transition clk i cur ?p (j_attempt cur) db = Inr ((?k, True), bump_job_revision u)"
    using edge prompt upd rec bound_prompt_text[OF ok]
    by (simp add: apply_transition_def moving_def)
  moreover have "1 \<le> j_attempt cur" "j_attempt cur \<le> 100" using ok by (simp_all add: job_row_ok_def)
  ultimately have "transition_generation_job clk i (moving st m) db = Inr ((?k, True), bump_job_revision u)"
    using cur valid trim by (simp add: transition_generation_job_def chosen_attempt_def moving_def)
  moreover have "load_job (\<lambda>j. j_id j = i) (bump_job_revision u) = Inr ?k"
    using sql_find_after_update[of j_id "set_transition clk ?p (j_attempt cur)" i "jobs db"] find valid u(2)
    by (simp add: load_job_Inr bump_job_revision_def set_transition_def moving_def)
  ultimately show ?thesis
    using that[of ?k "bump_job_revision u"] in_db(2) u(3)
    by (simp add: set_transition_def moving_def bump_job_revision_def)
qed

section \<open>Where the walk ends\<close>

definition ahead :: "job_state \<Rightarrow> job_state \<Rightarrow> bool" where
  "ahead target st =
     (target = st \<or>
      target \<in> {Preparing, WaitingForResources, Queued, Running, Postprocessing, Archiving} \<and>
      job_rank st < job_rank target)"

lemma next_edge: "next_state target st = Some nxt \<Longrightarrow> can_transition st nxt \<and> st \<noteq> nxt \<and> \<not> terminal nxt"
  by (cases st) (auto simp: next_state_def can_transition_def terminal_def split: if_splits)

lemma next_ahead:
  "next_state target st = Some nxt \<Longrightarrow> st \<noteq> target \<Longrightarrow> ahead target nxt = ahead target st"
  by (cases st; cases target) (auto simp: next_state_def ahead_def split: if_splits)

lemma next_stays_open: "next_state target st = Some nxt \<Longrightarrow> job_transitions nxt \<noteq> None"
  by (cases st) (auto simp: next_state_def)

lemma no_next: "job_transitions st \<noteq> None \<Longrightarrow> next_state target st = None \<Longrightarrow> st = Archiving"
  by (cases st) (auto simp: next_state_def)

lemma archiving_ahead: "ahead target Archiving \<longleftrightarrow> target = Archiving"
  by (cases target) (auto simp: ahead_def)

lemma open_not_terminal: "job_transitions st \<noteq> None \<Longrightarrow> \<not> terminal st"
  by (cases st) (auto simp: terminal_def)

text \<open>C13: The walk that follows what ComfyUI reports.  For a job in flight with its prompt, whose
  owner exists, it ends in the state asked for exactly when that state lies ahead, and the
  row is there.  When it does not lie ahead, the walk does not stop where it is: it goes on
  to the archiving state, leaves the job there and reports an error.\<close>

theorem advance_job_outcome:
  assumes "jobs_inv db" and "load_job (\<lambda>j. j_id j = j_id job) db = Inr job"
    and "job_transitions (j_state job) \<noteq> None" and "j_prompt_id job \<noteq> None"
    and "opt_check (\<lambda>u. user_exists u db) (j_user_id job)"
    and "pg_text 500 (trim_space (trim_space final))"
  shows "\<exists>k t. load_job (\<lambda>j. j_id j = j_id job) t = Inr k \<and> steps store_step db t \<and>
     (if ahead target (j_state job)
      then advance_job clk job target final db = (Inr k, t) \<and> j_state k = target
      else advance_job clk job target final db = (Inl CannotAdvance, t) \<and> j_state k = Archiving)"
  using assms
proof (induction clk job target final db rule: advance_job.induct)
  case (1 clk job target final db)
  note prems = "1.prems"
  consider (there) "j_state job = target" | (stuck) "j_state job \<noteq> target" "next_state target (j_state job) = None"
    | (on) nxt where "j_state job \<noteq> target" "next_state target (j_state job) = Some nxt"
    by (cases "next_state target (j_state job)") auto
  then show ?case
  proof cases
    case there
    then show ?thesis using prems(2)
      by (intro exI[of _ job] exI[of _ db]) (simp add: advance_job.simps[of clk job] ahead_def)
  next
    case stuck
    have "j_state job = Archiving" by (rule no_next[OF prems(3) stuck(2)])
    then show ?thesis using prems(2) stuck archiving_ahead[of target] open_not_terminal[OF prems(3)]
      by (intro exI[of _ job] exI[of _ db]) (simp add: advance_job.simps[of clk job])
  next
    case (on nxt)
    have edge: "can_transition (j_state job) nxt" "j_state job \<noteq> nxt" "\<not> terminal nxt"
      using next_edge[OF on(2)] by simp_all
    have text_ok: "pg_text 500 (trim_space (step_message target final nxt))"
      by (rule step_text_ok[OF on(2) prems(6)])
    obtain k t where tr: "transition_generation_job clk (j_id job) (moving nxt (step_message target final nxt)) db = Inr ((k, True), t)"
      and k: "j_state k = nxt" "j_id k = j_id job" "j_prompt_id k = j_prompt_id job" "j_user_id k = j_user_id job"
      and t: "load_job (\<lambda>j. j_id j = j_id job) t = Inr k" "users t = users db"
      by (rule transition_moves[OF prems(1,2,5) edge _ text_ok]) (use prems(4) in auto)
    have run: "store_run db t" by (rule steps_one[of store_step, OF st_transition[OF tr]])
    have inv: "jobs_inv t" by (rule store.run_inv[OF run prems(1)])
    have nt: "\<not> terminal (j_state job)" by (rule open_not_terminal[OF prems(3)])
    have adv: "advance_job clk job target final db = advance_job clk k target final t"
      using on nt tr by (simp add: advance_job.simps[of clk job])
    have "\<exists>m u. load_job (\<lambda>j. j_id j = j_id k) u = Inr m \<and> store_run t u \<and>
       (if ahead target (j_state k) then advance_job clk k target final t = (Inr m, u) \<and> j_state m = target
        else advance_job clk k target final t = (Inl CannotAdvance, u) \<and> j_state m = Archiving)"
    proof (rule "1.IH"[OF on(1) nt on(2) tr refl refl inv])
      show "load_job (\<lambda>j. j_id j = j_id k) t = Inr k" using t(1) k(2) by simp
      show "job_transitions (j_state k) \<noteq> None" using next_stays_open[OF on(2)] k(1) by simp
      show "j_prompt_id k \<noteq> None" using k(3) prems(4) by simp
      show "opt_check (\<lambda>u. user_exists u t) (j_user_id k)"
        using prems(5) k(4) t(2) by (simp add: user_exists_def)
      show "pg_text 500 (trim_space (trim_space final))" by (rule prems(6))
    qed
    then show ?thesis
      using adv next_ahead[OF on(2,1)] k(1,2) run steps_trans[of store_step] by metis
  qed
qed

text \<open>A running job that is reported as queued: the queue was read before the prompt moved, or
  could not be read at all, which \<open>fetchGenerationStatus\<close> reports in the same way.\<close>

lemma queued_report_archives_running_job:
  assumes "jobs_inv db" and "load_job (\<lambda>j. j_id j = j_id job) db = Inr job"
    and "j_state job = Running" and "j_user_id job = Some uid" and "user_exists uid db"
    and "j_cancel_requested_at job = None" and "j_cancel_confirmed_at job = None"
    and "gs_state st = ''queued''" and "pg_text 500 (trim_space (trim_space (gs_message st)))"
  shows "\<exists>k t. reconcile_job clk ex job st db = (Inl CannotAdvance, t) \<and>
     load_job (\<lambda>j. j_id j = j_id job) t = Inr k \<and> j_state k = Archiving"
proof -
  have "job \<in> set (jobs db)" using load_job_in[OF assms(2)] by simp
  then have "j_prompt_id job \<noteq> None"
    using job_inv_bound[of job] jobs_invD[OF assms(1)] assms(3) by simp
  from advance_job_outcome[OF assms(1,2) _ this _ assms(9), of Queued clk] assms(3-5)
  obtain k t where "advance_job clk job Queued (gs_message st) db = (Inl CannotAdvance, t)"
    "load_job (\<lambda>j. j_id j = j_id job) t = Inr k" "j_state k = Archiving"
    by (auto simp: ahead_def)
  moreover have "\<not> terminal (j_state job)" using assms(3) by (simp add: terminal_def)
  ultimately show ?thesis using assms(4,6,7,8) by (auto simp: reconcile_job_def)
qed

lemma unreadable_queue_gives_up:
  assumes "ex_entry ex (go_string (j_prompt_id job)) = Some None" and "ex_status_queue ex = None"
    and "j_cancel_requested_at job = None" and "overdue clk 300 job"
  shows "refresh_bound clk ex job db = snd (expire_job clk ex job wm_vanished db)"
  using assms by (simp add: refresh_bound_def fetch_status_def)

definition ex_running_job :: job_row where
  "ex_running_job =
     ex_leased_job\<lparr>j_state := Running, j_prompt_id := Some ''0a1b'', j_started_at := Some 1000000,
       j_dispatch_token := [], j_dispatch_until := None, j_dispatch_queued_at := None,
       j_submission_started_at := Some 1000000, j_quota_committed_at := Some 1000000\<rparr>"

definition ex_running :: db where
  "ex_running = ex_leased\<lparr>jobs := [ex_running_job]\<rparr>"

lemma ex_running_fields: "j_state ex_running_job = Running" "j_id ex_running_job = 1"
  "j_user_id ex_running_job = Some 7" "j_prompt_id ex_running_job = Some ''0a1b''"
  by (simp_all add: ex_running_job_def ex_leased_job_def params_job_row_def default_job_row_def ex_params_def)

lemma ws_waiting_ok: "pg_text 500 (trim_space (trim_space ws_waiting))"
proof -
  have "trim_space ws_waiting = ws_waiting"
    unfolding ws_waiting_def by (rule trim_space_utf8_text) (simp_all add: ink_def)
  moreover have "pg_text 500 ws_waiting"
    unfolding ws_waiting_def by (rule pg_text_utf8_text) simp_all
  ultimately show ?thesis by simp
qed

lemma advance_job_outcome_witness:
  "\<exists>k t. advance_job ex_now ex_running_job Queued ws_waiting ex_running = (Inl CannotAdvance, t) \<and>
     load_job (\<lambda>j. j_id j = 1) t = Inr k \<and> j_state k = Archiving"
proof -
  have inv: "jobs_inv ex_running" by code_simp
  have cur: "load_job (\<lambda>j. j_id j = j_id ex_running_job) ex_running = Inr ex_running_job"
    by (simp add: load_job_def sql_find_def ex_running_def scan_job_def ex_running_fields)
  have state: "job_transitions (j_state ex_running_job) \<noteq> None" "j_prompt_id ex_running_job \<noteq> None"
    by (simp_all add: ex_running_fields)
  have user: "opt_check (\<lambda>u. user_exists u ex_running) (j_user_id ex_running_job)"
    by (simp add: ex_running_fields user_exists_def sql_exists_def ex_running_def ex_leased_def ex_db_def ex_owner_def)
  from advance_job_outcome[OF inv cur state user ws_waiting_ok, of Queued ex_now]
  show ?thesis by (auto simp: ahead_def ex_running_fields)
qed

end
