(* ===== verification/GoValue.thy ===== *)
theory GoValue
  imports GoText Complex_Main "HOL-Library.Multiset" "HOL-Library.List_Lexorder" "HOL-Library.Product_Lexorder"
begin

text \<open>
  Values of Go's type \<open>any\<close>, as the code meets them in decoded JSON and in prompts it built:
  \<open>nil\<close>, booleans, numbers, strings, slices and string maps.  A number carries what it is as
  a \<open>float64\<close> (nothing for a \<open>json.Number\<close> that is out of range) and its text under
  \<open>fmt.Sprint\<close>, which depends on the Go type it has.  A map is the list of its entries.
\<close>

datatype go_float = Finite rat | PlusInf | MinusInf | NotANumber

datatype go_value =
    VNil
  | VBool bool
  | VNum "go_float option" string
  | VStr string
  | VList "go_value list"
  | VMap "(string \<times> go_value) list"

fun numeric_value :: "go_value \<Rightarrow> go_float option" where
  "numeric_value (VNum n text) = n"
| "numeric_value _ = None"

text \<open>\<open>number < bound\<close> and \<open>number > bound\<close>, false for a NaN.\<close>

fun below :: "go_float \<Rightarrow> rat \<Rightarrow> bool" where
  "below (Finite q) b = (q < b)"
| "below MinusInf b = True"
| "below _ b = False"

fun above :: "go_float \<Rightarrow> rat \<Rightarrow> bool" where
  "above (Finite q) b = (b < q)"
| "above PlusInf b = True"
| "above _ b = False"

text \<open>The conversion to \<open>int\<close> of an integral \<open>float64\<close>; \<open>2 ^ 63\<close> passes the test of the code
  and overflows to the least integer.\<close>

definition int_of_float :: "rat \<Rightarrow> int option" where
  "int_of_float q =
     (if of_int \<lfloor>q\<rfloor> \<noteq> q \<or> \<lfloor>q\<rfloor> < - (2 ^ 63) \<or> 2 ^ 63 < \<lfloor>q\<rfloor> then None
      else Some (if \<lfloor>q\<rfloor> = 2 ^ 63 then - (2 ^ 63) else \<lfloor>q\<rfloor>))"

definition integer_value :: "go_value \<Rightarrow> int option" where
  "integer_value v = (case numeric_value v of Some (Finite q) \<Rightarrow> int_of_float q | _ \<Rightarrow> None)"

text \<open>\<open>fmt.Sprint\<close>: maps are printed in the order of their keys.\<close>

fun join_with :: "string \<Rightarrow> string list \<Rightarrow> string" where
  "join_with sep [] = []"
| "join_with sep [s] = s"
| "join_with sep (s # t # ts) = s @ sep @ join_with sep (t # ts)"

fun sprint :: "go_value \<Rightarrow> string" where
  "sprint VNil = ''<nil>''"
| "sprint (VBool b) = (if b then ''true'' else ''false'')"
| "sprint (VNum n text) = text"
| "sprint (VStr s) = s"
| "sprint (VList vs) = ''['' @ join_with '' '' (map sprint vs) @ '']''"
| "sprint (VMap kvs) =
     ''map['' @ join_with '' '' (map snd (sort_key fst (map (\<lambda>(k, v). (k, k @ '':'' @ sprint v)) kvs))) @ '']''"

fun as_string :: "go_value \<Rightarrow> string option" where
  "as_string (VStr s) = Some s"
| "as_string _ = None"

fun as_map :: "go_value \<Rightarrow> (string \<times> go_value) list option" where
  "as_map (VMap kvs) = Some kvs"
| "as_map _ = None"

text \<open>A failed type assertion to a string with the comma-ok form leaves the empty string.\<close>

definition string_or_empty :: "go_value option \<Rightarrow> string" where
  "string_or_empty v = (case v of None \<Rightarrow> [] | Some w \<Rightarrow> (case as_string w of None \<Rightarrow> [] | Some s \<Rightarrow> s))"

section \<open>Text\<close>

definition ascii_upper :: "string \<Rightarrow> string" where
  "ascii_upper s = map (\<lambda>c. let n = of_char c :: nat in if 97 \<le> n \<and> n \<le> 122 then char_of (n - 32) else c) s"

fun split_at :: "char \<Rightarrow> string \<Rightarrow> string list" where
  "split_at d [] = [[]]"
| "split_at d (c # s) =
     (if c = d then [] # split_at d s
      else (case split_at d s of [] \<Rightarrow> [[c]] | w # ws \<Rightarrow> (c # w) # ws))"

definition contains_text :: "string \<Rightarrow> string \<Rightarrow> bool" where
  "contains_text needle s = list_ex (prefix needle) (suffixes s)"

section \<open>Sorting\<close>

text \<open>A stable sort of two orders of the same elements gives the same list when elements with
  the same key are the same.\<close>

lemma sort_key_perm:
  assumes "mset xs = mset ys" "inj_on f (set xs)"
  shows "sort_key f xs = sort_key f ys"
proof -
  have "mset (map f (sort_key f xs)) = mset (map f (sort_key f ys))" using assms(1) by simp
  moreover have "sorted (map f (sort_key f xs))" "sorted (map f (sort_key f ys))" by (rule sorted_sort_key)+
  ultimately have "map f (sort_key f xs) = map f (sort_key f ys)"
    by (metis properties_for_sort)
  moreover have "set (sort_key f ys) = set xs" using assms(1) by (metis mset_eq_setD set_sort)
  ultimately show ?thesis
    using assms(2) map_inj_on[of f "sort_key f xs" "sort_key f ys"] by simp
qed

end
