(* ===== verification/WorkflowCheck.thy ===== *)
theory WorkflowCheck
  imports GoValue
begin

text \<open>
  The check of a workflow against the nodes ComfyUI has installed
  (\<open>gateway/workflow_compatibility.go\<close>).  A workflow is a graph of nodes; each has a class, and
  its inputs are values or references to an output of another node.  The catalogue gives the
  inputs and outputs of every class.  An issue is recorded without its label and message, which
  are texts for the user made from the same data.
\<close>

section \<open>The catalogue\<close>

datatype input_schema = InputSchema
  (is_type: string)
  (is_choices: "go_value list")
  (is_min: "rat option")
  (is_max: "rat option")
  (is_dynamic: "(string \<times> (string \<times> input_schema) list \<times> (string \<times> input_schema) list) list")

record node_schema =
  ns_class :: string
  ns_required :: "(string \<times> input_schema) list"
  ns_optional :: "(string \<times> input_schema) list"
  ns_outputs :: "string list"

type_synonym schema_catalog = "(string \<times> node_schema) list"
type_synonym prompt = "(string \<times> go_value) list"

definition any_input :: input_schema where
  "any_input = InputSchema [] [] None None []"

record issue =
  i_code :: string
  i_node :: string
  i_class :: string
  i_input :: string
  i_field :: string

definition sorted_names :: "(string \<times> 'a) list \<Rightarrow> string list" where
  "sorted_names kvs = sort (map fst kvs)"

section \<open>Fields of the form\<close>

definition has_suffix :: "string \<Rightarrow> string \<Rightarrow> bool" where
  "has_suffix s t = suffix t s"

definition loader_classes :: "string list" where
  "loader_classes =
     [''UNETLoader'', ''CheckpointLoaderSimple'', ''CLIPLoader'', ''ClipLoaderGGUF'', ''VAELoader'']"

definition compatibility_field :: "string \<Rightarrow> string \<Rightarrow> string" where
  "compatibility_field cls inp =
     (if cls = ''RTXVideoSuperResolution'' then
        (if contains_text ''quality'' inp then ''video_rtx_quality''
         else if contains_text ''scale'' inp \<or> inp = ''resize_type'' then ''video_rtx_scale''
         else ''video_rtx_enabled'')
      else if cls = ''RIFE VFI'' then
        (if inp = ''ckpt_name'' then ''video_rife_checkpoint''
         else if inp = ''multiplier'' then ''video_rife_multiplier''
         else if inp = ''batch_size'' then ''video_rife_batch_size''
         else if inp = ''dtype'' then ''video_rife_dtype''
         else ''video_rife_enabled'')
      else if cls = ''LCColorMatch'' then
        (if inp = ''method'' then ''video_color_method''
         else if inp = ''strength'' then ''video_color_strength''
         else ''video_color_match'')
      else if cls = ''ImageSharpenKJ'' then
        (if inp = ''method'' then ''video_sharpen_method''
         else if has_suffix inp ''.strength'' then ''video_sharpen_strength''
         else if has_suffix inp ''.radius'' then ''video_sharpen_radius''
         else if has_suffix inp ''.threshold'' then ''video_sharpen_threshold''
         else if has_suffix inp ''.iterations'' then ''video_sharpen_iterations''
         else ''video_sharpen_enabled'')
      else if cls \<in> set loader_classes then ''model''
      else [])"

definition workflow_issue :: "string \<Rightarrow> string \<Rightarrow> string \<Rightarrow> string \<Rightarrow> issue" where
  "workflow_issue code node cls inp =
     \<lparr>i_code = code, i_node = node, i_class = cls, i_input = inp, i_field = compatibility_field cls inp\<rparr>"

text \<open>Two issues are about a node as such: no input, no field.\<close>

definition node_issue :: "string \<Rightarrow> string \<Rightarrow> issue" where
  "node_issue code node = \<lparr>i_code = code, i_node = node, i_class = [], i_input = [], i_field = []\<rparr>"

section \<open>Values and connections\<close>

definition choice_equal :: "go_value \<Rightarrow> go_value \<Rightarrow> bool" where
  "choice_equal l r =
     (case numeric_value l of
        Some a \<Rightarrow>
          (case (a, numeric_value r) of
             (Finite p, Some (Finite q)) \<Rightarrow> \<bar>p - q\<bar> < 1 / 10 ^ 9
           | _ \<Rightarrow> False)
      | None \<Rightarrow> sprint l = sprint r)"

definition choice_contains :: "go_value list \<Rightarrow> go_value \<Rightarrow> bool" where
  "choice_contains choices v = list_ex (\<lambda>c. choice_equal c v) choices"

definition scalar_type_matches :: "string \<Rightarrow> go_value \<Rightarrow> bool" where
  "scalar_type_matches expected v =
     (let t = ascii_upper expected in
      if t = ''INT'' then integer_value v \<noteq> None
      else if t = ''FLOAT'' \<or> t = ''NUMBER'' then numeric_value v \<noteq> None
      else if t = ''BOOLEAN'' then (case v of VBool b \<Rightarrow> True | _ \<Rightarrow> False)
      else if t = ''STRING'' \<or> t = ''COMBO'' \<or> t = ''COMFY_DYNAMICCOMBO_V3'' then as_string v \<noteq> None
      else True)"

definition wildcard_types :: "string list" where
  "wildcard_types = [''ANY'', ''IO.ANY'', ''COMFY_MATCHTYPE_V3'', ''COMFY_MATCHTYPE'']"

definition connection_types_match :: "string \<Rightarrow> string \<Rightarrow> bool" where
  "connection_types_match expected0 actual0 =
     (let expected = ascii_upper (trim_space expected0); actual = ascii_upper (trim_space actual0) in
      expected = [] \<or> actual = [] \<or> expected = actual \<or> expected = ''*'' \<or> actual = ''*'' \<or>
      list_ex (\<lambda>w. expected = w \<or> actual = w) wildcard_types \<or>
      (expected = ''FLOAT'' \<and> actual = ''INT'') \<or>
      (expected = ''NUMBER'' \<and> (actual = ''INT'' \<or> actual = ''FLOAT'')) \<or>
      list_ex (\<lambda>e. list_ex (\<lambda>a. trim_space e = trim_space a) (split_at (CHR '','') actual))
        (split_at (CHR '','') expected))"

definition runtime_asset_choice :: "string \<Rightarrow> string \<Rightarrow> bool" where
  "runtime_asset_choice cls inp =
     (cls @ ''.'' @ inp \<in> {''LoadImage.image'', ''LoadAudio.audio'', ''VHS_LoadVideo.video''})"

fun contains_placeholder :: "go_value \<Rightarrow> bool" where
  "contains_placeholder (VStr s) = (contains_text ''{{'' s \<or> contains_text ''}}'' s)"
| "contains_placeholder (VList vs) = list_ex contains_placeholder vs"
| "contains_placeholder (VMap kvs) = list_ex (\<lambda>(k, v). contains_placeholder v) kvs"
| "contains_placeholder _ = False"

text \<open>A reference is a pair of a node and an index of its outputs.\<close>

definition prompt_reference :: "go_value \<Rightarrow> (string \<times> nat) option" where
  "prompt_reference v =
     (case v of
        VList [a, b] \<Rightarrow>
          (case (as_string a, integer_value b) of
             (Some node, Some i) \<Rightarrow>
               if trim_space node = [] \<or> i < 0 then None else Some (node, nat i)
           | _ \<Rightarrow> None)
      | _ \<Rightarrow> None)"

section \<open>The check\<close>

definition validate_reference ::
  "schema_catalog \<Rightarrow> prompt \<Rightarrow> string \<Rightarrow> node_schema \<Rightarrow> string \<Rightarrow> input_schema \<Rightarrow> string \<times> nat \<Rightarrow> issue list" where
  "validate_reference catalog prompt node schema inp expected ref =
     (case map_of prompt (fst ref) of
        None \<Rightarrow> [workflow_issue ''missing_source_node'' node (ns_class schema) inp]
      | Some v \<Rightarrow>
          (case as_map v of
             None \<Rightarrow> [workflow_issue ''invalid_source_node'' node (ns_class schema) inp]
           | Some source \<Rightarrow>
               (case map_of catalog (string_or_empty (map_of source ''class_type'')) of
                  None \<Rightarrow> []
                | Some ss \<Rightarrow>
                    if ns_outputs ss = [] then []
                    else if length (ns_outputs ss) \<le> snd ref
                    then [workflow_issue ''invalid_output_index'' node (ns_class schema) inp]
                    else if is_type expected \<noteq> [] \<and>
                            \<not> connection_types_match (is_type expected) (ns_outputs ss ! snd ref)
                    then [workflow_issue ''incompatible_connection'' node (ns_class schema) inp]
                    else [])))"

definition validate_input ::
  "schema_catalog \<Rightarrow> prompt \<Rightarrow> string \<Rightarrow> node_schema \<Rightarrow> input_schema \<Rightarrow> string \<Rightarrow> go_value \<Rightarrow> issue list" where
  "validate_input catalog prompt node schema inps inp v =
     (case prompt_reference v of
        Some ref \<Rightarrow> validate_reference catalog prompt node schema inp inps ref
      | None \<Rightarrow>
          if is_choices inps \<noteq> [] \<and> \<not> runtime_asset_choice (ns_class schema) inp \<and>
             \<not> choice_contains (is_choices inps) v
          then [workflow_issue ''invalid_choice'' node (ns_class schema) inp]
          else if \<not> (is_type inps = ''COMBO'' \<and> is_choices inps \<noteq> [] \<and> choice_contains (is_choices inps) v) \<and>
             \<not> scalar_type_matches (is_type inps) v
          then [workflow_issue ''invalid_type'' node (ns_class schema) inp]
          else
            (case numeric_value v of
               None \<Rightarrow> []
             | Some n \<Rightarrow>
                 if (case is_min inps of None \<Rightarrow> False | Some b \<Rightarrow> below n b)
                 then [workflow_issue ''below_minimum'' node (ns_class schema) inp]
                 else if (case is_max inps of None \<Rightarrow> False | Some b \<Rightarrow> above n b)
                 then [workflow_issue ''above_maximum'' node (ns_class schema) inp]
                 else []))"

definition nested_name :: "string \<Rightarrow> string \<Rightarrow> string" where
  "nested_name inp nested = inp @ ''.'' @ nested"

definition validate_dynamic ::
  "schema_catalog \<Rightarrow> prompt \<Rightarrow> string \<Rightarrow> node_schema \<Rightarrow> input_schema \<Rightarrow> string \<Rightarrow> go_value \<Rightarrow>
     (string \<times> go_value) list \<Rightarrow> issue list" where
  "validate_dynamic catalog prompt node schema inps inp selector inputs =
     (case as_string selector of
        None \<Rightarrow> []
      | Some selected \<Rightarrow>
          (case map_of (is_dynamic inps) selected of
             None \<Rightarrow> []
           | Some (required, optional) \<Rightarrow>
               concat (map (\<lambda>nested. let full = nested_name inp nested in
                   case map_of inputs full of
                     None \<Rightarrow> [workflow_issue ''missing_dynamic_input'' node (ns_class schema) full]
                   | Some v \<Rightarrow> validate_input catalog prompt node schema (the (map_of required nested)) full v)
                 (sorted_names required)) @
               concat (map (\<lambda>nested. let full = nested_name inp nested in
                   case map_of inputs full of
                     None \<Rightarrow> []
                   | Some v \<Rightarrow> validate_input catalog prompt node schema (the (map_of optional nested)) full v)
                 (sorted_names optional))))"

definition check_known ::
  "schema_catalog \<Rightarrow> prompt \<Rightarrow> string \<Rightarrow> node_schema \<Rightarrow> (string \<times> go_value) list \<Rightarrow>
     (string \<times> input_schema) list \<Rightarrow> bool \<Rightarrow> issue list" where
  "check_known catalog prompt node schema inputs declared required =
     concat (map (\<lambda>inp.
       case map_of inputs inp of
         None \<Rightarrow> if required then [workflow_issue ''missing_required_input'' node (ns_class schema) inp] else []
       | Some v \<Rightarrow>
           validate_input catalog prompt node schema (the (map_of declared inp)) inp v @
           validate_dynamic catalog prompt node schema (the (map_of declared inp)) inp v inputs)
       (sorted_names declared))"

text \<open>The loop over the inputs as Go's map gives them: placeholders, and references on inputs the
  schema does not declare.\<close>

definition check_entry ::
  "schema_catalog \<Rightarrow> prompt \<Rightarrow> string \<Rightarrow> string \<Rightarrow> node_schema \<Rightarrow> string \<times> go_value \<Rightarrow> issue list" where
  "check_entry catalog prompt node cls schema e =
     (let (inp, v) = e in
      (if contains_placeholder v
       then [workflow_issue ''unresolved_placeholder'' node cls inp] else []) @
      (if map_of (ns_required schema) inp \<noteq> None \<or> map_of (ns_optional schema) inp \<noteq> None then []
       else case prompt_reference v of
              None \<Rightarrow> []
            | Some ref \<Rightarrow> validate_reference catalog prompt node schema inp any_input ref))"

definition node_inputs :: "(string \<times> go_value) list \<Rightarrow> (string \<times> go_value) list" where
  "node_inputs entries =
     (case map_of entries ''inputs'' of
        None \<Rightarrow> [] | Some v \<Rightarrow> (case as_map v of None \<Rightarrow> [] | Some kvs \<Rightarrow> kvs))"

definition node_class :: "(string \<times> go_value) list \<Rightarrow> string" where
  "node_class entries = trim_space (string_or_empty (map_of entries ''class_type''))"

text \<open>\<open>order\<close> is the order in which Go happens to range over the inputs of a node.\<close>

definition check_node ::
  "((string \<times> go_value) list \<Rightarrow> (string \<times> go_value) list) \<Rightarrow> schema_catalog \<Rightarrow> prompt \<Rightarrow> string \<Rightarrow> issue list" where
  "check_node order catalog prompt node =
     (case as_map (the (map_of prompt node)) of
        None \<Rightarrow> [node_issue ''invalid_node'' node]
      | Some entries \<Rightarrow>
          if node_class entries = [] then [node_issue ''missing_class'' node]
          else case map_of catalog (node_class entries) of
                 None \<Rightarrow> [\<lparr>i_code = ''unknown_node'', i_node = node, i_class = node_class entries, i_input = [],
                           i_field = compatibility_field (node_class entries) []\<rparr>]
               | Some schema \<Rightarrow>
                   check_known catalog prompt node schema (node_inputs entries) (ns_required schema) True @
                   check_known catalog prompt node schema (node_inputs entries) (ns_optional schema) False @
                   concat (map (check_entry catalog prompt node (node_class entries) schema)
                     (order (node_inputs entries))))"

definition issue_key :: "issue \<Rightarrow> string \<times> string \<times> string" where
  "issue_key i = (i_node i, i_input i, i_code i)"

definition validate_comfy_prompt ::
  "((string \<times> go_value) list \<Rightarrow> (string \<times> go_value) list) \<Rightarrow> schema_catalog \<Rightarrow> prompt \<Rightarrow> issue list" where
  "validate_comfy_prompt order catalog prompt =
     (if catalog = [] then [\<lparr>i_code = ''schema_unavailable'', i_node = [], i_class = [], i_input = [], i_field = []\<rparr>]
      else sort_key issue_key (concat (map (check_node order catalog prompt) (sorted_names prompt))))"

section \<open>What an accepted workflow is\<close>

definition link_ok :: "schema_catalog \<Rightarrow> prompt \<Rightarrow> input_schema \<Rightarrow> string \<times> nat \<Rightarrow> bool" where
  "link_ok catalog prompt expected ref \<longleftrightarrow>
     (\<exists>v source. map_of prompt (fst ref) = Some v \<and> as_map v = Some source \<and>
        (\<forall>ss. map_of catalog (string_or_empty (map_of source ''class_type'')) = Some ss \<longrightarrow>
           ns_outputs ss = [] \<or>
           snd ref < length (ns_outputs ss) \<and>
           (is_type expected = [] \<or>
            connection_types_match (is_type expected) (ns_outputs ss ! snd ref))))"

definition within_bounds :: "input_schema \<Rightarrow> go_value \<Rightarrow> bool" where
  "within_bounds inps v \<longleftrightarrow>
     (\<forall>n. numeric_value v = Some n \<longrightarrow>
        (\<forall>b. is_min inps = Some b \<longrightarrow> \<not> below n b) \<and> (\<forall>b. is_max inps = Some b \<longrightarrow> \<not> above n b))"

text \<open>A value fits an input: it is a link to a matching output, or a value of the input's type,
  among its choices, within its bounds.\<close>

inductive value_fits ::
  "schema_catalog \<Rightarrow> prompt \<Rightarrow> string \<Rightarrow> string \<Rightarrow> input_schema \<Rightarrow> go_value \<Rightarrow> bool"
  for catalog prompt cls inp inps where
  fits_link: "prompt_reference v = Some ref \<Longrightarrow> link_ok catalog prompt inps ref \<Longrightarrow>
     value_fits catalog prompt cls inp inps v"
| fits_choice: "prompt_reference v = None \<Longrightarrow> is_type inps = ''COMBO'' \<Longrightarrow>
     is_choices inps \<noteq> [] \<Longrightarrow> choice_contains (is_choices inps) v \<Longrightarrow> within_bounds inps v \<Longrightarrow>
     value_fits catalog prompt cls inp inps v"
| fits_scalar: "prompt_reference v = None \<Longrightarrow> scalar_type_matches (is_type inps) v \<Longrightarrow>
     is_choices inps = [] \<or> runtime_asset_choice cls inp \<or> choice_contains (is_choices inps) v \<Longrightarrow>
     within_bounds inps v \<Longrightarrow> value_fits catalog prompt cls inp inps v"

inductive_simps value_fits_iff: "value_fits catalog prompt cls inp inps v"

lemma reference_accepted:
  "validate_reference catalog prompt node schema inp expected ref = [] \<longleftrightarrow> link_ok catalog prompt expected ref"
  by (auto simp: validate_reference_def link_ok_def split: option.splits if_splits)

lemma input_accepted:
  "validate_input catalog prompt node schema inps inp v = [] \<longleftrightarrow>
     value_fits catalog prompt (ns_class schema) inp inps v"
  unfolding value_fits_iff
  by (auto simp: validate_input_def reference_accepted within_bounds_def split: option.splits if_splits)

text \<open>The inputs that a selected option of a dynamic input brings with it.\<close>

definition dynamic_fits ::
  "schema_catalog \<Rightarrow> prompt \<Rightarrow> string \<Rightarrow> (string \<times> go_value) list \<Rightarrow> string \<Rightarrow> input_schema \<Rightarrow> go_value \<Rightarrow> bool" where
  "dynamic_fits catalog prompt cls inputs inp inps selector \<longleftrightarrow>
     (\<forall>selected required optional.
        as_string selector = Some selected \<and> map_of (is_dynamic inps) selected = Some (required, optional) \<longrightarrow>
        (\<forall>nested s. map_of required nested = Some s \<longrightarrow>
           (\<exists>v. map_of inputs (nested_name inp nested) = Some v \<and>
                value_fits catalog prompt cls (nested_name inp nested) s v)) \<and>
        (\<forall>nested s v. map_of optional nested = Some s \<and> map_of inputs (nested_name inp nested) = Some v \<longrightarrow>
           value_fits catalog prompt cls (nested_name inp nested) s v))"

definition inputs_fit ::
  "schema_catalog \<Rightarrow> prompt \<Rightarrow> node_schema \<Rightarrow> (string \<times> go_value) list \<Rightarrow> bool" where
  "inputs_fit catalog prompt schema inputs \<longleftrightarrow>
     (\<forall>inp s. map_of (ns_required schema) inp = Some s \<longrightarrow> map_of inputs inp \<noteq> None) \<and>
     (\<forall>inp s v. map_of (ns_required schema) inp = Some s \<or> map_of (ns_optional schema) inp = Some s \<longrightarrow>
        map_of inputs inp = Some v \<longrightarrow>
        value_fits catalog prompt (ns_class schema) inp s v \<and>
        dynamic_fits catalog prompt (ns_class schema) inputs inp s v) \<and>
     (\<forall>inp v. (inp, v) \<in> set inputs \<longrightarrow>
        \<not> contains_placeholder v \<and>
        (map_of (ns_required schema) inp = None \<longrightarrow> map_of (ns_optional schema) inp = None \<longrightarrow>
         (\<forall>ref. prompt_reference v = Some ref \<longrightarrow> link_ok catalog prompt any_input ref)))"

definition node_fits :: "schema_catalog \<Rightarrow> prompt \<Rightarrow> go_value \<Rightarrow> bool" where
  "node_fits catalog prompt v \<longleftrightarrow>
     (\<exists>entries schema. as_map v = Some entries \<and> node_class entries \<noteq> [] \<and>
        map_of catalog (node_class entries) = Some schema \<and>
        inputs_fit catalog prompt schema (node_inputs entries))"

section \<open>The check decides it\<close>

lemma set_sorted_names [simp]: "set (sorted_names kvs) = fst ` set kvs"
  by (simp add: sorted_names_def)

lemma ball_names: "(\<forall>n\<in>fst ` set kvs. P n (the (map_of kvs n))) \<longleftrightarrow> (\<forall>n s. map_of kvs n = Some s \<longrightarrow> P n s)"
  by (metis domIff dom_map_of_conv_image_fst option.sel option.collapse option.distinct(1))

lemma case_must: "(case m of None \<Rightarrow> [x] | Some v \<Rightarrow> f v) = [] \<longleftrightarrow> (\<exists>v. m = Some v \<and> f v = [])"
  by (cases m) auto

lemma case_may: "(case m of None \<Rightarrow> [] | Some v \<Rightarrow> f v) = [] \<longleftrightarrow> (\<forall>v. m = Some v \<longrightarrow> f v = [])"
  by (cases m) auto

lemma dynamic_accepted:
  "validate_dynamic catalog prompt node schema inps inp v inputs = [] \<longleftrightarrow>
     dynamic_fits catalog prompt (ns_class schema) inputs inp inps v"
proof -
  have req: "(\<forall>n\<in>fst ` set required. (case map_of inputs (nested_name inp n) of
        None \<Rightarrow> [workflow_issue ''missing_dynamic_input'' node (ns_class schema) (nested_name inp n)]
      | Some v \<Rightarrow> validate_input catalog prompt node schema (the (map_of required n)) (nested_name inp n) v) = [])
     \<longleftrightarrow> (\<forall>n s. map_of required n = Some s \<longrightarrow> (\<exists>v. map_of inputs (nested_name inp n) = Some v \<and>
           value_fits catalog prompt (ns_class schema) (nested_name inp n) s v))" for required
    unfolding ball_names[of required "\<lambda>n s. (case map_of inputs (nested_name inp n) of
        None \<Rightarrow> [workflow_issue ''missing_dynamic_input'' node (ns_class schema) (nested_name inp n)]
      | Some v \<Rightarrow> validate_input catalog prompt node schema s (nested_name inp n) v) = []"]
    by (simp add: case_must input_accepted)
  have opt: "(\<forall>n\<in>fst ` set optional. (case map_of inputs (nested_name inp n) of
        None \<Rightarrow> []
      | Some v \<Rightarrow> validate_input catalog prompt node schema (the (map_of optional n)) (nested_name inp n) v) = [])
     \<longleftrightarrow> (\<forall>n s v. map_of optional n = Some s \<and> map_of inputs (nested_name inp n) = Some v \<longrightarrow>
           value_fits catalog prompt (ns_class schema) (nested_name inp n) s v)" for optional
    unfolding ball_names[of optional "\<lambda>n s. (case map_of inputs (nested_name inp n) of
        None \<Rightarrow> []
      | Some v \<Rightarrow> validate_input catalog prompt node schema s (nested_name inp n) v) = []"]
    by (auto simp: case_may input_accepted)
  show ?thesis
    using req opt
    by (auto simp: validate_dynamic_def dynamic_fits_def Let_def concat_eq_Nil_conv split: option.split prod.split)
qed

lemma known_accepted:
  "check_known catalog prompt node schema inputs declared required = [] \<longleftrightarrow>
     (required \<longrightarrow> (\<forall>inp s. map_of declared inp = Some s \<longrightarrow> map_of inputs inp \<noteq> None)) \<and>
     (\<forall>inp s v. map_of declared inp = Some s \<longrightarrow> map_of inputs inp = Some v \<longrightarrow>
        value_fits catalog prompt (ns_class schema) inp s v \<and>
        dynamic_fits catalog prompt (ns_class schema) inputs inp s v)"
proof -
  let ?f = "\<lambda>inp s. (case map_of inputs inp of
       None \<Rightarrow> if required then [workflow_issue ''missing_required_input'' node (ns_class schema) inp] else []
     | Some v \<Rightarrow> validate_input catalog prompt node schema s inp v @
         validate_dynamic catalog prompt node schema s inp v inputs)"
  have "check_known catalog prompt node schema inputs declared required = [] \<longleftrightarrow>
      (\<forall>inp\<in>fst ` set declared. ?f inp (the (map_of declared inp)) = [])"
    by (simp add: check_known_def concat_eq_Nil_conv Let_def del: append_is_Nil_conv)
  also have "\<dots> \<longleftrightarrow> (\<forall>inp s. map_of declared inp = Some s \<longrightarrow> ?f inp s = [])"
    by (rule ball_names)
  also have "\<dots> \<longleftrightarrow> (\<forall>inp s. map_of declared inp = Some s \<longrightarrow>
      (required \<longrightarrow> map_of inputs inp \<noteq> None) \<and>
      (\<forall>v. map_of inputs inp = Some v \<longrightarrow> value_fits catalog prompt (ns_class schema) inp s v \<and>
         dynamic_fits catalog prompt (ns_class schema) inputs inp s v))"
  proof -
    have "?f inp s = [] \<longleftrightarrow> (required \<longrightarrow> map_of inputs inp \<noteq> None) \<and>
      (\<forall>v. map_of inputs inp = Some v \<longrightarrow> value_fits catalog prompt (ns_class schema) inp s v \<and>
         dynamic_fits catalog prompt (ns_class schema) inputs inp s v)" for inp s
      by (cases "map_of inputs inp") (auto simp: input_accepted dynamic_accepted)
    then show ?thesis by simp
  qed
  finally show ?thesis by blast
qed

lemma entry_accepted:
  "check_entry catalog prompt node cls schema (inp, v) = [] \<longleftrightarrow>
     \<not> contains_placeholder v \<and>
     (map_of (ns_required schema) inp = None \<longrightarrow> map_of (ns_optional schema) inp = None \<longrightarrow>
        (\<forall>ref. prompt_reference v = Some ref \<longrightarrow> link_ok catalog prompt any_input ref))"
  by (auto simp: check_entry_def reference_accepted case_may split: if_splits)

lemma node_accepted:
  assumes "set (order (node_inputs entries)) = set (node_inputs entries)"
    and "map_of prompt node = Some v" and "as_map v = Some entries"
  shows "check_node order catalog prompt node = [] \<longleftrightarrow> node_fits catalog prompt v"
proof -
  have body: "check_node order catalog prompt node =
     (if node_class entries = [] then [node_issue ''missing_class'' node]
      else case map_of catalog (node_class entries) of
             None \<Rightarrow> [\<lparr>i_code = ''unknown_node'', i_node = node, i_class = node_class entries, i_input = [],
                       i_field = compatibility_field (node_class entries) []\<rparr>]
           | Some schema \<Rightarrow>
               check_known catalog prompt node schema (node_inputs entries) (ns_required schema) True @
               check_known catalog prompt node schema (node_inputs entries) (ns_optional schema) False @
               concat (map (check_entry catalog prompt node (node_class entries) schema) (order (node_inputs entries))))"
    using assms(2,3) by (simp add: check_node_def node_class_def node_inputs_def Let_def)
  have loop: "concat (map (check_entry catalog prompt node cls schema) (order (node_inputs entries))) = [] \<longleftrightarrow>
     (\<forall>inp v. (inp, v) \<in> set (node_inputs entries) \<longrightarrow>
        \<not> contains_placeholder v \<and>
        (map_of (ns_required schema) inp = None \<longrightarrow> map_of (ns_optional schema) inp = None \<longrightarrow>
         (\<forall>ref. prompt_reference v = Some ref \<longrightarrow> link_ok catalog prompt any_input ref)))" for cls schema
    by (auto simp: concat_eq_Nil_conv assms(1) entry_accepted)
  have "(case map_of catalog (node_class entries) of None \<Rightarrow> [x] | Some schema \<Rightarrow>
       check_known catalog prompt node schema (node_inputs entries) (ns_required schema) True @
       check_known catalog prompt node schema (node_inputs entries) (ns_optional schema) False @
       concat (map (check_entry catalog prompt node (node_class entries) schema) (order (node_inputs entries)))) = []
     \<longleftrightarrow> (\<exists>schema. map_of catalog (node_class entries) = Some schema \<and>
           inputs_fit catalog prompt schema (node_inputs entries))" for x
    unfolding case_must append_is_Nil_conv known_accepted loop inputs_fit_def
    by (rule ex_cong1, rule conj_cong, rule refl) (simp, blast)
  then show ?thesis unfolding body using assms(3) by (simp add: node_fits_def)
qed

section \<open>The properties of the check\<close>

definition prompt_fits :: "schema_catalog \<Rightarrow> prompt \<Rightarrow> bool" where
  "prompt_fits catalog prompt \<longleftrightarrow>
     catalog \<noteq> [] \<and> (\<forall>node v. map_of prompt node = Some v \<longrightarrow> node_fits catalog prompt v)"

text \<open>C6: The check accepts a workflow exactly when it fits the catalogue: every node has an
  installed class, gets every required input and the inputs its dynamic options bring, every
  value given to a declared input is a link to a matching output or a value of the right type,
  choice and bounds, no text is an unfilled template, and no link dangles.  The order in which
  Go ranges over the inputs does not matter.\<close>

theorem check_accepts_exactly_fitting:
  assumes "\<And>kvs. mset (order kvs) = mset kvs"
  shows "validate_comfy_prompt order catalog prompt = [] \<longleftrightarrow> prompt_fits catalog prompt"
proof -
  have same: "set (order kvs) = set kvs" for kvs using assms by (metis mset_eq_setD)
  have node: "check_node order catalog prompt node = [] \<longleftrightarrow> node_fits catalog prompt v"
    if "map_of prompt node = Some v" for node v
  proof (cases "as_map v")
    case None
    with that show ?thesis by (simp add: check_node_def node_fits_def)
  next
    case (Some entries)
    show ?thesis using node_accepted[of order entries prompt node v catalog] same that Some by blast
  qed
  have "validate_comfy_prompt order catalog prompt = [] \<longleftrightarrow>
      catalog \<noteq> [] \<and> (\<forall>node\<in>fst ` set prompt. check_node order catalog prompt node = [])"
    by (auto simp: validate_comfy_prompt_def concat_eq_Nil_conv simp flip: set_empty)
  also have "\<dots> \<longleftrightarrow> catalog \<noteq> [] \<and> (\<forall>node v. map_of prompt node = Some v \<longrightarrow> check_node order catalog prompt node = [])"
    using ball_names[of prompt "\<lambda>n v. check_node order catalog prompt n = []"] by simp
  finally show ?thesis using node by (auto simp: prompt_fits_def)
qed


section \<open>The order of Go's maps\<close>

definition of_node :: "string \<Rightarrow> string \<Rightarrow> issue \<Rightarrow> bool" where
  "of_node node cls i = (i = workflow_issue (i_code i) node cls (i_input i))"

lemma of_node_workflow_issue [simp]: "of_node node cls (workflow_issue code node cls inp)"
  by (simp add: of_node_def workflow_issue_def)

lemma of_node_node_issue [simp]: "of_node node [] (node_issue code node)"
  by (simp add: of_node_def workflow_issue_def node_issue_def compatibility_field_def loader_classes_def)

lemma reference_of_node:
  "i \<in> set (validate_reference catalog prompt node schema inp s ref) \<Longrightarrow> of_node node (ns_class schema) i"
  by (auto simp: validate_reference_def split: option.splits if_splits)

lemma input_of_node:
  "i \<in> set (validate_input catalog prompt node schema s inp v) \<Longrightarrow> of_node node (ns_class schema) i"
  by (auto simp: validate_input_def split: option.splits if_splits dest: reference_of_node)

lemma dynamic_of_node:
  "i \<in> set (validate_dynamic catalog prompt node schema s inp v inputs) \<Longrightarrow> of_node node (ns_class schema) i"
  by (auto simp: validate_dynamic_def Let_def split: option.splits if_splits dest: input_of_node)

lemma known_of_node:
  "i \<in> set (check_known catalog prompt node schema inputs declared required) \<Longrightarrow> of_node node (ns_class schema) i"
  by (auto simp: check_known_def split: option.splits if_splits dest: input_of_node dynamic_of_node)

lemma entry_of_node:
  "i \<in> set (check_entry catalog prompt node (ns_class schema) schema e) \<Longrightarrow> of_node node (ns_class schema) i"
  by (auto simp: check_entry_def case_prod_beta split: option.splits if_splits dest: reference_of_node)

definition class_at :: "prompt \<Rightarrow> string \<Rightarrow> string" where
  "class_at prompt node =
     (case as_map (the (map_of prompt node)) of None \<Rightarrow> [] | Some entries \<Rightarrow> node_class entries)"

definition catalog_ok :: "schema_catalog \<Rightarrow> bool" where
  "catalog_ok catalog = list_all (\<lambda>(cls, s). ns_class s = cls) catalog"

lemma node_of_node:
  assumes "catalog_ok catalog" "i \<in> set (check_node order catalog prompt node)"
  shows "of_node node (class_at prompt node) i"
proof (cases "as_map (the (map_of prompt node))")
  case None
  with assms(2) show ?thesis by (simp add: check_node_def class_at_def)
next
  case (Some entries)
  have unknown: "of_node node cls \<lparr>i_code = ''unknown_node'', i_node = node, i_class = cls, i_input = [],
      i_field = compatibility_field cls []\<rparr>" for cls
    by (simp add: of_node_def workflow_issue_def)
  show ?thesis
  proof (cases "map_of catalog (node_class entries)")
    case None
    with Some assms(2) unknown show ?thesis by (auto simp: check_node_def class_at_def split: if_splits)
  next
    case s: (Some schema)
    have cls: "node_class entries = ns_class schema"
      using assms(1) map_of_SomeD[OF s] by (auto simp: catalog_ok_def list_all_iff)
    show ?thesis
    proof (cases "node_class entries = []")
      case True
      with Some assms(2) show ?thesis by (simp add: check_node_def class_at_def)
    next
      case False
      with Some s assms(2) have "i \<in> set (check_known catalog prompt node schema (node_inputs entries) (ns_required schema) True) \<or>
          i \<in> set (check_known catalog prompt node schema (node_inputs entries) (ns_optional schema) False) \<or>
          (\<exists>e. i \<in> set (check_entry catalog prompt node (ns_class schema) schema e))"
        by (auto simp: check_node_def cls)
      then have "of_node node (ns_class schema) i" using known_of_node entry_of_node by blast
      with Some show ?thesis by (simp add: class_at_def cls)
    qed
  qed
qed

lemma mset_concat_map: "mset (concat (map f xs)) = (\<Sum>x\<in>#mset xs. mset (f x))"
  by (induction xs) auto

lemma mset_concat_cong:
  assumes "\<And>x. x \<in> set xs \<Longrightarrow> mset (f x) = mset (g x)"
  shows "mset (concat (map f xs)) = mset (concat (map g xs))"
  using assms by (induction xs) auto

lemma check_node_order:
  assumes "\<And>kvs. mset (o1 kvs) = mset (o2 kvs)"
  shows "mset (check_node o1 catalog prompt node) = mset (check_node o2 catalog prompt node)"
  by (simp add: check_node_def mset_concat_map assms split: option.split)

lemma issues_of_two_orders:
  assumes "\<And>kvs. mset (o1 kvs) = mset (o2 kvs)" and "catalog_ok catalog"
  shows "validate_comfy_prompt o1 catalog prompt = validate_comfy_prompt o2 catalog prompt"
proof -
  let ?all = "\<lambda>ord. concat (map (check_node ord catalog prompt) (sorted_names prompt))"
  have "mset (?all o1) = mset (?all o2)"
    by (rule mset_concat_cong) (rule check_node_order[OF assms(1)])
  moreover have "inj_on issue_key (set (?all o1))"
  proof (rule inj_onI)
    fix i j
    assume ij: "i \<in> set (?all o1)" "j \<in> set (?all o1)" and k: "issue_key i = issue_key j"
    from ij obtain m n where "i \<in> set (check_node o1 catalog prompt m)" "j \<in> set (check_node o1 catalog prompt n)"
      by auto
    then have i: "of_node m (class_at prompt m) i" and j: "of_node n (class_at prompt n) j"
      by (auto intro: node_of_node[OF assms(2)])
    have "i_node i = m" "i_node j = n" using i j by (metis of_node_def workflow_issue_def issue.select_convs(2))+
    with k have "m = n" "i_code i = i_code j" "i_input i = i_input j" by (simp_all add: issue_key_def)
    with i j show "i = j" unfolding of_node_def by metis
  qed
  ultimately show ?thesis by (simp add: validate_comfy_prompt_def sort_key_perm)
qed

text \<open>C39: The report does not depend on the order in which Go ranges over the inputs of a node,
  which Go leaves open: for a catalogue whose schemas carry their own class names, two orders
  give the same list of issues.\<close>

theorem issues_independent_of_map_order:
  assumes "\<And>kvs. mset (o1 kvs) = mset (o2 kvs)" and "catalog_ok catalog"
  shows "validate_comfy_prompt o1 catalog prompt = validate_comfy_prompt o2 catalog prompt"
  using assms by (rule issues_of_two_orders)

section \<open>A small workflow\<close>

definition ex_loader :: node_schema where
  "ex_loader = \<lparr>ns_class = ''VAELoader'', ns_required = [(''vae_name'', InputSchema ''COMBO'' [VStr ''ae''] None None [])],
     ns_optional = [], ns_outputs = [''VAE'']\<rparr>"

definition ex_decode :: node_schema where
  "ex_decode = \<lparr>ns_class = ''VAEDecode'',
     ns_required = [(''vae'', InputSchema ''VAE'' [] None None []),
       (''tiles'', InputSchema ''INT'' [] (Some 1) (Some 8) [])],
     ns_optional = [], ns_outputs = [''IMAGE'']\<rparr>"

definition ex_catalog :: schema_catalog where
  "ex_catalog = [(''VAELoader'', ex_loader), (''VAEDecode'', ex_decode)]"

definition ex_decode_node :: "(string \<times> go_value) list" where
  "ex_decode_node =
     [(''class_type'', VStr ''VAEDecode''),
      (''inputs'', VMap [(''vae'', VList [VStr ''1'', VNum (Some (Finite 0)) ''0'']),
                        (''tiles'', VNum (Some (Finite 4)) ''4'')])]"

definition ex_prompt :: prompt where
  "ex_prompt =
     [(''2'', VMap ex_decode_node),
      (''1'', VMap [(''class_type'', VStr ''VAELoader''), (''inputs'', VMap [(''vae_name'', VStr ''ae'')])])]"

text \<open>The same with a tile count of nine and a link to an output that is not there.\<close>

definition ex_bad_prompt :: prompt where
  "ex_bad_prompt =
     [(''2'', VMap [(''class_type'', VStr ''VAEDecode''),
        (''inputs'', VMap [(''vae'', VList [VStr ''1'', VNum (Some (Finite 3)) ''3'']),
                          (''tiles'', VNum (Some (Finite 9)) ''9'')])]),
      (''1'', VMap [(''class_type'', VStr ''VAELoader''), (''inputs'', VMap [(''vae_name'', VStr ''ae'')])])]"

lemma ex_accepted: "validate_comfy_prompt rev ex_catalog ex_prompt = []"
  by code_simp

lemma check_accepts_exactly_fitting_witness:
  "prompt_fits ex_catalog ex_prompt \<and> \<not> prompt_fits ex_catalog ex_bad_prompt"
proof -
  have "map i_code (validate_comfy_prompt rev ex_catalog ex_bad_prompt) = [''above_maximum'', ''invalid_output_index'']"
    by code_simp
  then have "validate_comfy_prompt rev ex_catalog ex_bad_prompt \<noteq> []" by auto
  then show ?thesis using check_accepts_exactly_fitting[of rev ex_catalog] ex_accepted by simp
qed


lemma issues_independent_of_map_order_witness:
  "validate_comfy_prompt rev ex_catalog ex_bad_prompt = validate_comfy_prompt id ex_catalog ex_bad_prompt"
proof (rule issues_independent_of_map_order)
  show "mset (rev kvs) = mset (id kvs)" for kvs :: "(string \<times> go_value) list" by simp
  show "catalog_ok ex_catalog" by code_simp
qed

end
