(* ===== verification/ComfySchema.thy ===== *)
theory ComfySchema
  imports WorkflowCheck
begin

text \<open>
  Where the catalogue of the check comes from (\<open>gateway/comfy_schema.go\<close>): the description of
  the installed nodes that ComfyUI serves is parsed into schemas, and kept in a cache that
  bridges outages.  A piece of JSON is the value it decodes to; numbers keep their text.  Names
  of fields in JSON objects are matched exactly.
\<close>

section \<open>Parsing\<close>

text \<open>\<open>json.Unmarshal\<close> into a \<open>float64\<close> that starts as 0: a \<open>null\<close> leaves it as it is.\<close>

definition raw_number :: "go_value option \<Rightarrow> rat option" where
  "raw_number raw =
     (case raw of
        Some (VNum (Some (Finite q)) text) \<Rightarrow> Some q
      | Some VNil \<Rightarrow> Some 0
      | _ \<Rightarrow> None)"

text \<open>The type of an input, or the list of its choices.\<close>

definition type_or_choices :: "go_value \<Rightarrow> (string \<times> go_value list) option" where
  "type_or_choices v =
     (case v of
        VStr s \<Rightarrow> Some (s, [])
      | VNil \<Rightarrow> Some ([], [])
      | VList vs \<Rightarrow> Some (''COMBO'', vs)
      | _ \<Rightarrow> None)"

definition options_of :: "go_value list \<Rightarrow> (string \<times> go_value) list option" where
  "options_of parts =
     (case parts of
        VMap kvs # _ \<Rightarrow> Some kvs
      | VNil # _ \<Rightarrow> Some []
      | _ \<Rightarrow> None)"

text \<open>A struct field that is absent or \<open>null\<close> keeps its zero value; another type is an error.\<close>

definition string_field :: "go_value option \<Rightarrow> string option" where
  "string_field v = (case v of None \<Rightarrow> Some [] | Some VNil \<Rightarrow> Some [] | Some (VStr s) \<Rightarrow> Some s | _ \<Rightarrow> None)"

definition map_field :: "go_value option \<Rightarrow> (string \<times> go_value) list option" where
  "map_field v = (case v of None \<Rightarrow> Some [] | Some VNil \<Rightarrow> Some [] | Some (VMap kvs) \<Rightarrow> Some kvs | _ \<Rightarrow> None)"

definition dynamic_option ::
  "go_value \<Rightarrow> (string \<times> (string \<times> go_value) list \<times> (string \<times> go_value) list) option" where
  "dynamic_option v =
     (case map_field (Some v) of
        None \<Rightarrow> None
      | Some kvs \<Rightarrow>
          (case (string_field (map_of kvs ''key''), map_field (map_of kvs ''inputs'')) of
             (Some key, Some ins) \<Rightarrow>
               (case (map_field (map_of ins ''required''), map_field (map_of ins ''optional'')) of
                  (Some required, Some optional) \<Rightarrow> Some (trim_space key, required, optional)
                | _ \<Rightarrow> None)
           | _ \<Rightarrow> None))"

fun all_decoded :: "('a \<Rightarrow> 'b option) \<Rightarrow> 'a list \<Rightarrow> 'b list option" where
  "all_decoded f [] = Some []"
| "all_decoded f (x # xs) =
     (case f x of None \<Rightarrow> None
      | Some y \<Rightarrow> (case all_decoded f xs of None \<Rightarrow> None | Some ys \<Rightarrow> Some (y # ys)))"

text \<open>The options with a key; none when the list does not decode.\<close>

definition dynamic_options ::
  "(string \<times> go_value) list \<Rightarrow> (string \<times> (string \<times> go_value) list \<times> (string \<times> go_value) list) list" where
  "dynamic_options opts =
     (case map_of opts ''options'' of
        Some (VList vs) \<Rightarrow>
          (case all_decoded dynamic_option vs of
             None \<Rightarrow> [] | Some os \<Rightarrow> filter (\<lambda>(key, r, opt). key \<noteq> []) os)
      | _ \<Rightarrow> [])"

definition combo_choices :: "string \<Rightarrow> go_value list \<Rightarrow> (string \<times> go_value) list \<Rightarrow> go_value list" where
  "combo_choices t choices opts =
     (if t = ''COMBO'' \<and> choices = []
      then (case map_of opts ''options'' of Some (VList vs) \<Rightarrow> vs | _ \<Rightarrow> [])
      else choices)"

fun weight :: "go_value \<Rightarrow> nat" and weights :: "go_value list \<Rightarrow> nat" and entry_weights :: "(string \<times> go_value) list \<Rightarrow> nat" where
  "weight (VList vs) = Suc (weights vs)"
| "weight (VMap kvs) = Suc (entry_weights kvs)"
| "weight _ = 1"
| "weights [] = 0"
| "weights (v # vs) = Suc (weight v + weights vs)"
| "entry_weights [] = 0"
| "entry_weights ((k, v) # kvs) = Suc (weight v + entry_weights kvs)"

lemma weight_entry: "map_of kvs k = Some v \<Longrightarrow> weight v < entry_weights kvs"
  by (induction kvs) (auto split: if_splits)

lemma map_field_weight: "map_field v = Some kvs \<Longrightarrow> kvs \<noteq> [] \<Longrightarrow> \<exists>w. v = Some w \<and> weight w = Suc (entry_weights kvs)"
  by (auto simp: map_field_def split: option.splits go_value.splits)

lemma field_weight: "map_field (map_of kvs k) = Some ms \<Longrightarrow> entry_weights ms \<le> entry_weights kvs"
  using map_field_weight[of "map_of kvs k" ms] weight_entry[of kvs k] by (cases "ms = []") force+

lemma dynamic_option_weight:
  "dynamic_option v = Some (key, r, opt) \<Longrightarrow> entry_weights r < weight v \<and> entry_weights opt < weight v"
proof -
  assume d: "dynamic_option v = Some (key, r, opt)"
  then obtain kvs ins where k: "map_field (Some v) = Some kvs" and i: "map_field (map_of kvs ''inputs'') = Some ins"
    and r: "map_field (map_of ins ''required'') = Some r" "map_field (map_of ins ''optional'') = Some opt"
    by (auto simp: dynamic_option_def split: option.splits prod.splits)
  have "entry_weights kvs < weight v" using k by (auto simp: map_field_def split: go_value.splits)
  with field_weight[OF i] field_weight[OF r(1)] field_weight[OF r(2)] show ?thesis by simp
qed

lemma all_decoded_in: "all_decoded f xs = Some ys \<Longrightarrow> y \<in> set ys \<Longrightarrow> \<exists>x\<in>set xs. f x = Some y"
  by (induction xs arbitrary: ys) (auto split: option.splits)

lemma weights_in: "v \<in> set vs \<Longrightarrow> weight v < Suc (weights vs)"
  by (induction vs) auto

lemma dynamic_options_weight:
  assumes "(key, r, opt) \<in> set (dynamic_options opts)"
  shows "entry_weights r < entry_weights opts \<and> entry_weights opt < entry_weights opts"
proof -
  from assms obtain vs os where o: "map_of opts ''options'' = Some (VList vs)"
    "all_decoded dynamic_option vs = Some os" "(key, r, opt) \<in> set os"
    by (auto simp: dynamic_options_def split: option.splits go_value.splits) metis
  from all_decoded_in[OF o(2,3)] obtain v where v: "v \<in> set vs" "dynamic_option v = Some (key, r, opt)" by blast
  have "weight v < weight (VList vs)" using weights_in[OF v(1)] by simp
  with weight_entry[OF o(1)] dynamic_option_weight[OF v(2)] show ?thesis by simp
qed

lemma options_weight: "options_of ps = Some opts \<Longrightarrow> entry_weights opts < Suc (weights ps)"
  by (auto simp: options_of_def split: list.splits go_value.splits)

text \<open>An input without a readable definition is not part of the schema.\<close>

function parse_input :: "go_value \<Rightarrow> input_schema option"
  and parse_input_map :: "(string \<times> go_value) list \<Rightarrow> (string \<times> input_schema) list" where
  "parse_input v =
     (case v of
        VList (p # ps) \<Rightarrow>
          (case type_or_choices p of
             None \<Rightarrow> None
           | Some (t, choices) \<Rightarrow>
               (case options_of ps of
                  None \<Rightarrow> Some (InputSchema t choices None None [])
                | Some opts \<Rightarrow>
                    (let lo = raw_number (map_of opts ''min''); hi = raw_number (map_of opts ''max'') in
                     if t = ''COMFY_DYNAMICCOMBO_V3''
                     then Some (InputSchema t (map (\<lambda>(key, r, opt). VStr key) (dynamic_options opts)) lo hi
                            (rev (map (\<lambda>(key, r, opt). (key, parse_input_map r, parse_input_map opt))
                                   (dynamic_options opts))))
                     else Some (InputSchema t (combo_choices t choices opts) lo hi []))))
      | _ \<Rightarrow> None)"
| "parse_input_map [] = []"
| "parse_input_map ((name, v) # kvs) =
     (case parse_input v of None \<Rightarrow> parse_input_map kvs | Some s \<Rightarrow> (name, s) # parse_input_map kvs)"
  by pat_completeness auto

termination
proof (relation "measure (\<lambda>x. case x of Inl v \<Rightarrow> weight v | Inr kvs \<Rightarrow> entry_weights kvs)")
qed (auto dest!: dynamic_options_weight options_weight)

declare parse_input.simps [simp del]

fun flatten_types :: "go_value \<Rightarrow> string list" where
  "flatten_types (VStr s) = (if trim_space s = [] then [] else [trim_space s])"
| "flatten_types (VList vs) = concat (map flatten_types vs)"
| "flatten_types _ = []"

definition parse_output_types :: "go_value list \<Rightarrow> string list" where
  "parse_output_types raw =
     map (\<lambda>v. let ts = flatten_types v in if ts = [] then ''*'' else join_with '','' ts) raw"

record node_info =
  ni_required :: "(string \<times> go_value) list"
  ni_optional :: "(string \<times> go_value) list"
  ni_output :: "go_value list"

definition build_schema_catalog :: "(string \<times> node_info) list \<Rightarrow> schema_catalog" where
  "build_schema_catalog info =
     map (\<lambda>(cls, ni). (cls, \<lparr>ns_class = cls, ns_required = parse_input_map (ni_required ni),
        ns_optional = parse_input_map (ni_optional ni), ns_outputs = parse_output_types (ni_output ni)\<rparr>)) info"

lemma built_catalog_ok: "catalog_ok (build_schema_catalog info)"
  by (auto simp: catalog_ok_def build_schema_catalog_def list_all_iff)

lemma built_issues_independent:
  "(\<And>kvs. mset (o1 kvs) = mset (o2 kvs)) \<Longrightarrow>
   validate_comfy_prompt o1 (build_schema_catalog info) prompt =
   validate_comfy_prompt o2 (build_schema_catalog info) prompt"
  by (rule issues_of_two_orders[OF _ built_catalog_ok])

section \<open>The cache\<close>

datatype catalog_source = LiveCatalog | FreshCache | LastKnownGood

record catalog_snapshot =
  sn_catalog :: schema_catalog
  sn_fingerprint :: string
  sn_source :: catalog_source
  sn_fetched_at :: int
  sn_last_attempt :: int
  sn_last_error :: string

record catalog_cache =
  cc_ttl :: int
  cc_max_stale :: int
  cc_next_refresh :: int
  cc_snapshot :: "catalog_snapshot option"
  cc_last_error :: string
  cc_last_attempt :: int

definition default_cache_ttl :: int where
  "default_cache_ttl = 30 * 10 ^ 9"

definition default_max_stale :: int where
  "default_max_stale = 24 * 3600 * 10 ^ 9"

definition new_catalog_cache :: "int \<Rightarrow> int \<Rightarrow> catalog_cache" where
  "new_catalog_cache ttl0 stale0 =
     (let ttl = (if ttl0 \<le> 0 then default_cache_ttl else ttl0);
          stale = (if stale0 < ttl then max default_max_stale ttl else stale0) in
      \<lparr>cc_ttl = ttl, cc_max_stale = stale, cc_next_refresh = 0, cc_snapshot = None,
       cc_last_error = [], cc_last_attempt = 0\<rparr>)"

text \<open>What the fetch of \<open>/object_info\<close> gives: a failure, or nodes and the hash of the answer.\<close>

datatype fetch_reply = FetchFailed string | Fetched "(string \<times> node_info) list" string

definition cs_empty :: string where
  "cs_empty =
     utf8_text
      [67, 111, 109, 102, 121, 85, 73, 32, 1074, 1077, 1088, 1085, 1091, 1083, 32, 1087,
       1091, 1089, 1090, 1086, 1081, 32, 1082, 1072, 1090, 1072, 1083, 1086, 1075, 32,
       1085, 1086, 1076]"

definition fetch_object_info :: "fetch_reply \<Rightarrow> int \<Rightarrow> string + catalog_snapshot" where
  "fetch_object_info reply now =
     (case reply of
        FetchFailed e \<Rightarrow> Inl e
      | Fetched info fingerprint \<Rightarrow>
          if info = [] then Inl cs_empty
          else Inr \<lparr>sn_catalog = build_schema_catalog info, sn_fingerprint = fingerprint, sn_source = LiveCatalog,
                    sn_fetched_at = now, sn_last_attempt = now, sn_last_error = []\<rparr>)"

definition retry_delay :: int where
  "retry_delay = 10 * 10 ^ 9"

definition comfy_object_info ::
  "fetch_reply \<Rightarrow> bool \<Rightarrow> int \<Rightarrow> catalog_cache \<Rightarrow> (string + catalog_snapshot) \<times> catalog_cache" where
  "comfy_object_info reply force now cache =
     (case (cc_snapshot cache, force, now < cc_next_refresh cache) of
        (Some sn, False, True) \<Rightarrow>
          (Inr (sn\<lparr>sn_source := FreshCache, sn_last_attempt := cc_last_attempt cache,
                  sn_last_error := cc_last_error cache\<rparr>), cache)
      | _ \<Rightarrow>
          (case fetch_object_info reply now of
             Inr sn \<Rightarrow>
               (Inr sn,
                cache\<lparr>cc_snapshot := Some sn, cc_last_error := [], cc_last_attempt := now,
                      cc_next_refresh := now + cc_ttl cache\<rparr>)
           | Inl e \<Rightarrow>
               (let cache1 = cache\<lparr>cc_last_error := e, cc_last_attempt := now,
                                   cc_next_refresh := now + min (cc_ttl cache) retry_delay\<rparr> in
                case cc_snapshot cache of
                  Some sn \<Rightarrow>
                    if now - sn_fetched_at sn \<le> cc_max_stale cache
                    then (Inr (sn\<lparr>sn_source := LastKnownGood, sn_last_attempt := now, sn_last_error := e\<rparr>), cache1)
                    else (Inl e, cache1)
                | None \<Rightarrow> (Inl e, cache1))))"

lemma new_cache_ok: "0 < cc_ttl (new_catalog_cache ttl stale) \<and>
    cc_ttl (new_catalog_cache ttl stale) \<le> cc_max_stale (new_catalog_cache ttl stale)"
  by (auto simp: new_catalog_cache_def Let_def default_cache_ttl_def default_max_stale_def)

text \<open>What was fetched now, or bridged over a failed fetch, is within its age.\<close>

lemma catalog_age:
  "comfy_object_info reply force now cache = (Inr sn, cache') \<Longrightarrow> sn_source sn \<noteq> FreshCache \<Longrightarrow>
     0 \<le> cc_max_stale cache \<Longrightarrow> now - sn_fetched_at sn \<le> cc_max_stale cache"
  by (auto simp: comfy_object_info_def fetch_object_info_def Let_def
      split: option.splits sum.splits bool.splits fetch_reply.splits if_splits)

text \<open>C40: A catalogue that was just refused as too old is served again as a fresh one.  When a
  refresh fails and the cached catalogue is older than the limit, the request is refused; but
  the failed attempt moves the time of the next refresh, and the branch for a fresh cache looks
  at that time only, so until then every request gets the same old catalogue, marked as fresh
  and without an error.\<close>

theorem expired_catalog_served_again:
  assumes "cc_snapshot cache = Some sn" and "cc_next_refresh cache \<le> now"
    and "cc_max_stale cache < now - sn_fetched_at sn" and "0 < cc_ttl cache"
    and "fetch_object_info reply now = Inl e"
    and "now \<le> later" and "later < now + min (cc_ttl cache) retry_delay"
  shows "\<exists>cache' served. comfy_object_info reply False now cache = (Inl e, cache') \<and>
     comfy_object_info reply' False later cache' = (Inr served, cache') \<and>
     sn_source served = FreshCache \<and> sn_catalog served = sn_catalog sn \<and>
     cc_max_stale cache' < later - sn_fetched_at served"
  using assms by (auto simp: comfy_object_info_def Let_def)

definition ex_snapshot :: catalog_snapshot where
  "ex_snapshot = \<lparr>sn_catalog = ex_catalog, sn_fingerprint = ''f1'', sn_source = LiveCatalog, sn_fetched_at = 0,
     sn_last_attempt = 0, sn_last_error = []\<rparr>"

text \<open>Filled at time 0, asked after two days, and again a second later.\<close>

definition ex_cache :: catalog_cache where
  "ex_cache = (new_catalog_cache 0 0)\<lparr>cc_snapshot := Some ex_snapshot, cc_next_refresh := default_cache_ttl\<rparr>"

lemma expired_catalog_served_again_witness:
  "let two_days = 2 * 24 * 3600 * 10 ^ 9;
       asked = comfy_object_info (FetchFailed ''down'') False two_days ex_cache;
       again = comfy_object_info (FetchFailed ''down'') False (two_days + 10 ^ 9) (snd asked)
   in fst asked = Inl ''down'' \<and> \<not> isl (fst again) \<and> sn_source (projr (fst again)) = FreshCache"
proof -
  let ?now = "2 * 24 * 3600 * 10 ^ 9 :: int"
  have c: "cc_snapshot ex_cache = Some ex_snapshot" "cc_next_refresh ex_cache \<le> ?now"
    "cc_max_stale ex_cache < ?now - sn_fetched_at ex_snapshot" "0 < cc_ttl ex_cache"
    "fetch_object_info (FetchFailed ''down'') ?now = Inl ''down''" "?now \<le> ?now + 10 ^ 9"
    "?now + 10 ^ 9 < ?now + min (cc_ttl ex_cache) retry_delay"
    by (simp_all add: ex_cache_def new_catalog_cache_def Let_def default_cache_ttl_def default_max_stale_def
        ex_snapshot_def fetch_object_info_def retry_delay_def)
  from expired_catalog_served_again[OF c, of "FetchFailed ''down''"] show ?thesis
    by (auto simp: Let_def)
qed

end
