(* ===== verification/LoraData.thy ===== *)
theory LoraData
  imports LoraTraining
begin

text \<open>
  The datasets of the LoRA trainings: \<open>store/lora_dataset.go\<close> on the tables of migrations 54
  and 55.  A dataset is a draft whose encrypted manifest is replaced at every save, a snapshot
  an immutable version of it, an asset an image in encrypted chunks; a reference keeps an asset
  for a dataset, a snapshot or a caption job.  An encrypted value is the string of its bytes.

  A statement is refused when the tables after it violate a constraint (\<open>stmt\<close>); a DELETE
  applies the foreign keys' CASCADE and SET NULL (\<open>cascade\<close>).  The users and the trainings
  are the columns these queries read.  A sequence does not skip values here.
\<close>

section \<open>Tables\<close>

record lora_dataset =
  ld_id :: string
  ld_user :: int
  ld_name :: string
  ld_revision :: int
  ld_manifest :: string
  ld_images :: int
  ld_bytes :: int
  ld_created :: int
  ld_updated :: int
  ld_expires :: int

record lora_asset =
  la_id :: string
  la_user :: int
  la_name :: string
  la_hash :: string
  la_mime :: string
  la_size :: int
  la_width :: int
  la_height :: int
  la_created :: int
  la_last_used :: int

record asset_chunk =
  ac_asset :: string
  ac_index :: int
  ac_size :: int
  ac_payload :: string

record lora_snapshot =
  sp_id :: string
  sp_dataset :: "string option"
  sp_user :: int
  sp_name :: string
  sp_revision :: int
  sp_manifest :: string
  sp_hash :: string
  sp_images :: int
  sp_bytes :: int
  sp_created :: int
  sp_expires :: int

datatype caption_state = CapQueued | CapRunning | CapCompleted | CapFailed | CapCancelled

record caption_row =
  cj_id :: string
  cj_user :: int
  cj_dataset :: "string option"
  cj_image :: string
  cj_asset :: string
  cj_key :: string
  cj_instructions :: string
  cj_input :: string
  cj_result :: string
  cj_state :: caption_state
  cj_status :: string
  cj_error :: string
  cj_attempts :: int
  cj_token :: string
  cj_cancel :: bool
  cj_available :: int
  cj_created :: int
  cj_updated :: int
  cj_expires :: int

text \<open>Exactly one of the three columns of a reference is set.\<close>

datatype ref_owner = OfDataset string | OfSnapshot string | OfCaption string

record data_user =
  du_id :: int
  du_disabled :: bool
  du_admin :: bool
  du_trains :: bool
  du_expires :: "int option"

record training_use =
  tu_id :: int
  tu_snapshot :: "string option"
  tu_state :: lora_state

record data_db =
  dd_users :: "data_user list"
  dd_datasets :: "lora_dataset list"
  dd_assets :: "lora_asset list"
  dd_chunks :: "asset_chunk list"
  dd_snapshots :: "lora_snapshot list"
  dd_refs :: "(ref_owner \<times> string) list"
  dd_captions :: "caption_row list"
  dd_trainings :: "training_use list"
  dd_last_revision :: int

datatype ds_error =
  DsNoRows | DsConstraint | DsConflict | DsQuota | DsAsset | DsInUse | DsCaptionQuota
  | DsUnexpectedEOF | DsRead string

section \<open>Constraints\<close>

definition any_text :: "string \<Rightarrow> bool" where
  "any_text s = pg_text (length s) s"

definition between_bytes :: "int \<Rightarrow> int \<Rightarrow> string \<Rightarrow> bool" where
  "between_bytes lo hi s = (lo \<le> int (length s) \<and> int (length s) \<le> hi)"

definition dataset_row_ok :: "lora_dataset \<Rightarrow> bool" where
  "dataset_row_ok d =
     (any_text (ld_id d) \<and> any_text (ld_name d) \<and> between_bytes 1 524352 (ld_manifest d) \<and>
      0 \<le> ld_images d \<and> ld_images d \<le> 100 \<and> 0 \<le> ld_bytes d \<and> ld_bytes d \<le> 536870912)"

definition asset_row_ok :: "lora_asset \<Rightarrow> bool" where
  "asset_row_ok a =
     (any_text (la_id a) \<and> any_text (la_name a) \<and> text_between 64 64 (la_hash a) \<and> any_text (la_mime a) \<and>
      1 \<le> la_size a \<and> la_size a \<le> 25165824 \<and>
      256 \<le> la_width a \<and> la_width a \<le> 16384 \<and> 256 \<le> la_height a \<and> la_height a \<le> 16384)"

definition chunk_row_ok :: "asset_chunk \<Rightarrow> bool" where
  "chunk_row_ok c =
     (0 \<le> ac_index c \<and> 1 \<le> ac_size c \<and> ac_size c \<le> 1048576 \<and> between_bytes 1 1048640 (ac_payload c))"

definition snapshot_row_ok :: "lora_snapshot \<Rightarrow> bool" where
  "snapshot_row_ok s =
     (any_text (sp_id s) \<and> any_text (sp_name s) \<and> between_bytes 1 524352 (sp_manifest s) \<and>
      text_between 64 64 (sp_hash s))"

definition caption_row_ok :: "caption_row \<Rightarrow> bool" where
  "caption_row_ok c =
     (any_text (cj_id c) \<and> any_text (cj_image c) \<and> text_between 64 64 (cj_key c) \<and>
      any_text (cj_instructions c) \<and> between_bytes 1 65536 (cj_input c) \<and> any_text (cj_status c) \<and>
      any_text (cj_error c) \<and> 0 \<le> cj_attempts c \<and> any_text (cj_token c))"

definition caption_active :: "caption_row \<Rightarrow> bool" where
  "caption_active c = (cj_state c = CapQueued \<or> cj_state c = CapRunning)"

definition asset_conflict :: "lora_asset \<Rightarrow> lora_asset \<Rightarrow> bool" where
  "asset_conflict a b = (la_id a = la_id b \<or> la_user a = la_user b \<and> la_hash a = la_hash b)"

definition snapshot_conflict :: "lora_snapshot \<Rightarrow> lora_snapshot \<Rightarrow> bool" where
  "snapshot_conflict s t =
     (sp_id s = sp_id t \<or>
      sp_dataset s \<noteq> None \<and> sp_dataset s = sp_dataset t \<and> sp_revision s = sp_revision t)"

definition caption_conflict :: "caption_row \<Rightarrow> caption_row \<Rightarrow> bool" where
  "caption_conflict c d =
     (cj_id c = cj_id d \<or> cj_user c = cj_user d \<and> cj_key c = cj_key d \<or>
      cj_dataset c \<noteq> None \<and> cj_dataset c = cj_dataset d \<and> cj_image c = cj_image d \<and>
      caption_active c \<and> caption_active d)"

text \<open>The foreign keys.\<close>

abbreviation has_user :: "data_db \<Rightarrow> int \<Rightarrow> bool" where
  "has_user db u \<equiv> u \<in> du_id ` set (dd_users db)"

abbreviation has_dataset :: "data_db \<Rightarrow> string \<Rightarrow> bool" where
  "has_dataset db d \<equiv> d \<in> ld_id ` set (dd_datasets db)"

abbreviation has_asset :: "data_db \<Rightarrow> string \<Rightarrow> bool" where
  "has_asset db a \<equiv> a \<in> la_id ` set (dd_assets db)"

abbreviation has_snapshot :: "data_db \<Rightarrow> string \<Rightarrow> bool" where
  "has_snapshot db s \<equiv> s \<in> sp_id ` set (dd_snapshots db)"

abbreviation has_caption :: "data_db \<Rightarrow> string \<Rightarrow> bool" where
  "has_caption db c \<equiv> c \<in> cj_id ` set (dd_captions db)"

definition null_or :: "('a \<Rightarrow> bool) \<Rightarrow> 'a option \<Rightarrow> bool" where
  "null_or P x = (case x of None \<Rightarrow> True | Some y \<Rightarrow> P y)"

fun has_owner :: "data_db \<Rightarrow> ref_owner \<Rightarrow> bool" where
  "has_owner db (OfDataset d) = has_dataset db d"
| "has_owner db (OfSnapshot s) = has_snapshot db s"
| "has_owner db (OfCaption c) = has_caption db c"

definition caption_keys_ok :: "data_db \<Rightarrow> caption_row \<Rightarrow> bool" where
  "caption_keys_ok db c =
     (has_user db (cj_user c) \<and> null_or (has_dataset db) (cj_dataset c) \<and> has_asset db (cj_asset c))"

definition ref_ok :: "data_db \<Rightarrow> ref_owner \<times> string \<Rightarrow> bool" where
  "ref_ok db r = (has_owner db (fst r) \<and> has_asset db (snd r))"

definition tables_ok :: "data_db \<Rightarrow> bool" where
  "tables_ok db =
     (unique_key du_id (dd_users db) \<and>
      list_all dataset_row_ok (dd_datasets db) \<and> unique_key ld_id (dd_datasets db) \<and>
      list_all (\<lambda>d. has_user db (ld_user d)) (dd_datasets db) \<and>
      list_all asset_row_ok (dd_assets db) \<and> no_conflicts asset_conflict (dd_assets db) \<and>
      list_all (\<lambda>a. has_user db (la_user a)) (dd_assets db) \<and>
      list_all chunk_row_ok (dd_chunks db) \<and> unique_key (\<lambda>c. (ac_asset c, ac_index c)) (dd_chunks db) \<and>
      list_all (\<lambda>c. has_asset db (ac_asset c)) (dd_chunks db) \<and>
      list_all snapshot_row_ok (dd_snapshots db) \<and> no_conflicts snapshot_conflict (dd_snapshots db) \<and>
      list_all (\<lambda>s. has_user db (sp_user s) \<and> null_or (has_dataset db) (sp_dataset s)) (dd_snapshots db) \<and>
      list_all caption_row_ok (dd_captions db) \<and> no_conflicts caption_conflict (dd_captions db) \<and>
      list_all (caption_keys_ok db) (dd_captions db) \<and>
      distinct (dd_refs db) \<and> list_all (ref_ok db) (dd_refs db) \<and>
      list_all (\<lambda>t. null_or (has_snapshot db) (tu_snapshot t)) (dd_trainings db))"

definition stmt :: "data_db \<Rightarrow> ds_error + data_db" where
  "stmt db = (if tables_ok db then Inr db else Inl DsConstraint)"

text \<open>What the foreign keys do after rows were deleted: dependents go, nullable keys become NULL.\<close>

definition to_null :: "('a \<Rightarrow> bool) \<Rightarrow> 'a option \<Rightarrow> 'a option" where
  "to_null P x = (case x of None \<Rightarrow> None | Some y \<Rightarrow> if P y then Some y else None)"

definition drop_of_users :: "data_db \<Rightarrow> data_db" where
  "drop_of_users db =
     db\<lparr>dd_datasets := filter (\<lambda>d. has_user db (ld_user d)) (dd_datasets db),
        dd_assets := filter (\<lambda>a. has_user db (la_user a)) (dd_assets db),
        dd_snapshots := filter (\<lambda>s. has_user db (sp_user s)) (dd_snapshots db)\<rparr>"

definition drop_dependents :: "data_db \<Rightarrow> data_db" where
  "drop_dependents db =
     db\<lparr>dd_chunks := filter (\<lambda>c. has_asset db (ac_asset c)) (dd_chunks db),
        dd_snapshots := map (\<lambda>s. s\<lparr>sp_dataset := to_null (has_dataset db) (sp_dataset s)\<rparr>) (dd_snapshots db),
        dd_captions := filter (caption_keys_ok db) (dd_captions db),
        dd_trainings := map (\<lambda>t. t\<lparr>tu_snapshot := to_null (has_snapshot db) (tu_snapshot t)\<rparr>) (dd_trainings db)\<rparr>"

definition drop_refs :: "data_db \<Rightarrow> data_db" where
  "drop_refs db = db\<lparr>dd_refs := filter (ref_ok db) (dd_refs db)\<rparr>"

definition cascade :: "data_db \<Rightarrow> data_db" where
  "cascade db = drop_refs (drop_dependents (drop_of_users db))"

section \<open>Datasets\<close>

definition max_dataset_images :: nat where "max_dataset_images = 100"
definition max_dataset_bytes :: int where "max_dataset_bytes = 536870912"
definition max_user_bytes :: int where "max_user_bytes = 2147483648"
definition max_datasets :: nat where "max_datasets = 20"
definition max_snapshots :: nat where "max_snapshots = 100"

definition thirty_days :: int where "thirty_days = usec (30 * 24 * 3600)"
definition one_day :: int where "one_day = usec (24 * 3600)"

definition lock_user :: "int \<Rightarrow> data_db \<Rightarrow> ds_error + unit" where
  "lock_user uid db = (if has_user db uid then Inr () else Inl DsNoRows)"

definition live_dataset :: "int \<Rightarrow> int \<Rightarrow> lora_dataset \<Rightarrow> bool" where
  "live_dataset now uid d = (ld_user d = uid \<and> now < ld_expires d)"

definition find_dataset :: "int \<Rightarrow> int \<Rightarrow> string \<Rightarrow> data_db \<Rightarrow> lora_dataset option" where
  "find_dataset now uid did db = sql_find (\<lambda>d. ld_id d = did \<and> live_dataset now uid d) (dd_datasets db)"

definition lora_dataset_by_id :: "clock \<Rightarrow> int \<Rightarrow> string \<Rightarrow> data_db \<Rightarrow> ds_error + lora_dataset" where
  "lora_dataset_by_id clk uid did db =
     (case find_dataset (tx_now clk) uid did db of None \<Rightarrow> Inl DsNoRows | Some d \<Rightarrow> Inr d)"

definition insert_dataset :: "lora_dataset \<Rightarrow> data_db \<Rightarrow> ds_error + data_db" where
  "insert_dataset d db =
     stmt (db\<lparr>dd_datasets := dd_datasets db @ [d], dd_last_revision := ld_revision d\<rparr>)"

definition new_dataset ::
  "clock \<Rightarrow> int \<Rightarrow> string \<Rightarrow> string \<Rightarrow> string \<Rightarrow> int \<Rightarrow> int \<Rightarrow> data_db \<Rightarrow> lora_dataset" where
  "new_dataset clk uid did name manifest images bytes db =
     \<lparr>ld_id = did, ld_user = uid, ld_name = name, ld_revision = dd_last_revision db + 1,
      ld_manifest = manifest, ld_images = images, ld_bytes = bytes,
      ld_created = tx_now clk, ld_updated = tx_now clk, ld_expires = tx_now clk + thirty_days\<rparr>"

definition create_lora_dataset ::
  "clock \<Rightarrow> int \<Rightarrow> string \<Rightarrow> string \<Rightarrow> string \<Rightarrow> data_db \<Rightarrow> ds_error + (lora_dataset \<times> data_db)" where
  "create_lora_dataset clk uid did name manifest db =
     res_bind (lock_user uid db) (\<lambda>_.
     case find_dataset (tx_now clk) uid did db of
       Some d \<Rightarrow> Inr (d, db)
     | None \<Rightarrow>
         if max_datasets \<le> sql_count (live_dataset (tx_now clk) uid) (dd_datasets db) then Inl DsQuota
         else (let d = new_dataset clk uid did name manifest 0 0 db in
               res_bind (insert_dataset d db) (\<lambda>db1. Inr (d, db1))))"

text \<open>The sizes of the user's assets among those asked for.\<close>

definition asset_size :: "int \<Rightarrow> data_db \<Rightarrow> string \<Rightarrow> int option" where
  "asset_size uid db aid =
     map_option la_size (sql_find (\<lambda>a. la_user a = uid \<and> la_id a = aid) (dd_assets db))"

fun total_size :: "(string \<Rightarrow> int option) \<Rightarrow> string list \<Rightarrow> int option" where
  "total_size sizes [] = Some 0"
| "total_size sizes (a # as) =
     (case sizes a of None \<Rightarrow> None
      | Some n \<Rightarrow> (case total_size sizes as of None \<Rightarrow> None | Some t \<Rightarrow> Some (n + t)))"

definition set_refs :: "ref_owner \<Rightarrow> string list \<Rightarrow> data_db \<Rightarrow> ds_error + data_db" where
  "set_refs owner as db =
     stmt (db\<lparr>dd_refs := filter (\<lambda>r. fst r \<noteq> owner) (dd_refs db) @ map (Pair owner) (remdups as)\<rparr>)"

definition save_lora_dataset ::
  "clock \<Rightarrow> int \<Rightarrow> string \<Rightarrow> int \<Rightarrow> string \<Rightarrow> string \<Rightarrow> string list \<Rightarrow> data_db
   \<Rightarrow> ds_error + (lora_dataset \<times> data_db)" where
  "save_lora_dataset clk uid did expected name manifest as db =
     (if max_dataset_images < length as then Inl DsQuota
      else case find_dataset (tx_now clk) uid did db of
        None \<Rightarrow> Inl DsNoRows
      | Some d \<Rightarrow>
          if ld_revision d \<noteq> expected then Inl DsConflict
          else case total_size (asset_size uid db) as of
            None \<Rightarrow> Inl DsAsset
          | Some bytes \<Rightarrow>
              if max_dataset_bytes < bytes then Inl DsQuota
              else (let d1 = d\<lparr>ld_name := name, ld_manifest := manifest, ld_images := int (length as),
                               ld_bytes := bytes, ld_revision := dd_last_revision db + 1,
                               ld_updated := tx_now clk, ld_expires := tx_now clk + thirty_days\<rparr> in
                    res_bind (stmt (db\<lparr>dd_datasets := sql_update (\<lambda>e. ld_id e = did \<and> ld_user e = uid) (\<lambda>e. d1) (dd_datasets db),
                                       dd_last_revision := ld_revision d1\<rparr>)) (\<lambda>db1.
                    res_bind (set_refs (OfDataset did) as db1) (\<lambda>db2. Inr (d1, db2)))))"

definition delete_lora_dataset :: "int \<Rightarrow> string \<Rightarrow> int \<Rightarrow> data_db \<Rightarrow> ds_error + data_db" where
  "delete_lora_dataset uid did revision db =
     (let hit = (\<lambda>d. ld_id d = did \<and> ld_user d = uid \<and> ld_revision d = revision) in
      if \<not> sql_exists hit (dd_datasets db) then Inl DsConflict
      else Inr (cascade (db\<lparr>dd_datasets := sql_delete hit (dd_datasets db)\<rparr>)))"

section \<open>Assets\<close>

definition lora_dataset_asset :: "int \<Rightarrow> string \<Rightarrow> data_db \<Rightarrow> ds_error + lora_asset" where
  "lora_dataset_asset uid aid db =
     (case sql_find (\<lambda>a. la_id a = aid \<and> la_user a = uid) (dd_assets db) of
        None \<Rightarrow> Inl DsNoRows | Some a \<Rightarrow> Inr a)"

definition storage_bytes :: "int \<Rightarrow> data_db \<Rightarrow> int" where
  "storage_bytes uid db = sum_list (map la_size (filter (\<lambda>a. la_user a = uid) (dd_assets db)))"

text \<open>A reader of chunks gives encrypted bytes with the plain size, or fails; at the end of the
  list it says EOF.\<close>

datatype chunk_read = ChunkRead string int | ChunkFailed string

fun insert_chunks ::
  "string \<Rightarrow> int \<Rightarrow> int \<Rightarrow> int \<Rightarrow> chunk_read list \<Rightarrow> data_db \<Rightarrow> ds_error + (int \<times> data_db)" where
  "insert_chunks aid limit index got [] db = Inr (got, db)"
| "insert_chunks aid limit index got (ChunkFailed e # cs) db = Inl (DsRead e)"
| "insert_chunks aid limit index got (ChunkRead cipher n # cs) db =
     (if n \<le> 0 \<or> 1048576 < n \<or> limit < got + n then Inl DsUnexpectedEOF
      else res_bind (stmt (db\<lparr>dd_chunks := dd_chunks db @
                              [\<lparr>ac_asset = aid, ac_index = index, ac_size = n, ac_payload = cipher\<rparr>]\<rparr>))
             (insert_chunks aid limit (index + 1) (got + n) cs))"

definition insert_lora_asset ::
  "clock \<Rightarrow> lora_asset \<Rightarrow> chunk_read list \<Rightarrow> data_db \<Rightarrow> ds_error + (lora_asset \<times> data_db)" where
  "insert_lora_asset clk asset chunks db =
     res_bind (lock_user (la_user asset) db) (\<lambda>_.
     let same = (\<lambda>a. la_user a = la_user asset \<and> la_hash a = la_hash asset) in
     case sql_find same (dd_assets db) of
       Some a \<Rightarrow>
         (let a1 = a\<lparr>la_last_used := tx_now clk\<rparr> in
          Inr (a1, db\<lparr>dd_assets := sql_update same (\<lambda>a. a\<lparr>la_last_used := tx_now clk\<rparr>) (dd_assets db)\<rparr>))
     | None \<Rightarrow>
         if max_user_bytes < storage_bytes (la_user asset) db + la_size asset then Inl DsQuota
         else (let a1 = asset\<lparr>la_created := tx_now clk, la_last_used := tx_now clk\<rparr> in
               res_bind (stmt (db\<lparr>dd_assets := dd_assets db @ [a1]\<rparr>)) (\<lambda>db1.
               res_bind (insert_chunks (la_id a1) (la_size a1) 0 0 chunks db1) (\<lambda>(read, db2).
               if read \<noteq> la_size a1 then Inl DsUnexpectedEOF else Inr (a1, db2)))))"

text \<open>Reading back: the chunks in order, without a gap, at least one.\<close>

fun consecutive :: "int \<Rightarrow> asset_chunk list \<Rightarrow> bool" where
  "consecutive i [] = True"
| "consecutive i (c # cs) = (ac_index c = i \<and> consecutive (i + 1) cs)"

definition read_asset_chunks :: "int \<Rightarrow> string \<Rightarrow> data_db \<Rightarrow> ds_error + (string \<times> int) list" where
  "read_asset_chunks uid aid db =
     (let cs = (if sql_exists (\<lambda>a. la_id a = aid \<and> la_user a = uid) (dd_assets db)
                then sort_key ac_index (filter (\<lambda>c. ac_asset c = aid) (dd_chunks db)) else []) in
      if \<not> consecutive 0 cs then Inl DsUnexpectedEOF
      else if cs = [] then Inl DsNoRows
      else Inr (map (\<lambda>c. (ac_payload c, ac_size c)) cs))"

section \<open>Snapshots\<close>

definition refs_of :: "ref_owner \<Rightarrow> data_db \<Rightarrow> string list" where
  "refs_of owner db = map snd (filter (\<lambda>r. fst r = owner) (dd_refs db))"

text \<open>\<open>ON CONFLICT DO NOTHING\<close>\<close>

definition add_refs :: "ref_owner \<Rightarrow> string list \<Rightarrow> data_db \<Rightarrow> ds_error + data_db" where
  "add_refs owner as db =
     stmt (db\<lparr>dd_refs := dd_refs db @ map (Pair owner) (filter (\<lambda>a. (owner, a) \<notin> set (dd_refs db)) as)\<rparr>)"

definition upsert_snapshot :: "clock \<Rightarrow> lora_snapshot \<Rightarrow> data_db \<Rightarrow> ds_error + (lora_snapshot \<times> data_db)" where
  "upsert_snapshot clk s db =
     (let same = (\<lambda>q. sp_dataset q = sp_dataset s \<and> sp_revision q = sp_revision s) in
      if \<not> snapshot_row_ok s then Inl DsConstraint
      else case sql_find same (dd_snapshots db) of
        Some q \<Rightarrow>
          Inr (q\<lparr>sp_expires := tx_now clk + thirty_days\<rparr>,
               db\<lparr>dd_snapshots := sql_update same (\<lambda>q. q\<lparr>sp_expires := tx_now clk + thirty_days\<rparr>) (dd_snapshots db)\<rparr>)
      | None \<Rightarrow> res_bind (stmt (db\<lparr>dd_snapshots := dd_snapshots db @ [s]\<rparr>)) (\<lambda>db1. Inr (s, db1)))"

definition create_lora_snapshot ::
  "clock \<Rightarrow> int \<Rightarrow> string \<Rightarrow> int \<Rightarrow> string \<Rightarrow> string \<Rightarrow> data_db \<Rightarrow> ds_error + (lora_snapshot \<times> data_db)" where
  "create_lora_snapshot clk uid did revision sid hash db =
     res_bind (lock_user uid db) (\<lambda>_.
     case find_dataset (tx_now clk) uid did db of
       None \<Rightarrow> Inl DsNoRows
     | Some d \<Rightarrow>
         if ld_revision d \<noteq> revision then Inl DsConflict
         else (let mine = filter (\<lambda>s. sp_user s = uid) (dd_snapshots db);
                   existing = list_ex (\<lambda>s. sp_dataset s = Some did \<and> sp_revision s = revision) mine in
               if \<not> existing \<and> max_snapshots \<le> length mine then Inl DsQuota
               else res_bind (upsert_snapshot clk
                      \<lparr>sp_id = sid, sp_dataset = Some did, sp_user = uid, sp_name = ld_name d,
                       sp_revision = revision, sp_manifest = ld_manifest d, sp_hash = hash,
                       sp_images = ld_images d, sp_bytes = ld_bytes d, sp_created = tx_now clk,
                       sp_expires = tx_now clk + thirty_days\<rparr> db) (\<lambda>(s, db1).
                    res_bind (add_refs (OfSnapshot (sp_id s)) (refs_of (OfDataset did) db1) db1) (\<lambda>db2.
                    Inr (s, db2)))))"

definition find_snapshot :: "int \<Rightarrow> string \<Rightarrow> data_db \<Rightarrow> lora_snapshot option" where
  "find_snapshot uid sid db = sql_find (\<lambda>s. sp_id s = sid \<and> sp_user s = uid) (dd_snapshots db)"

definition lora_snapshot_by_id :: "int \<Rightarrow> string \<Rightarrow> data_db \<Rightarrow> ds_error + lora_snapshot" where
  "lora_snapshot_by_id uid sid db =
     (case find_snapshot uid sid db of None \<Rightarrow> Inl DsNoRows | Some s \<Rightarrow> Inr s)"

definition restore_lora_snapshot ::
  "clock \<Rightarrow> int \<Rightarrow> string \<Rightarrow> string \<Rightarrow> data_db \<Rightarrow> ds_error + (lora_dataset \<times> data_db)" where
  "restore_lora_snapshot clk uid sid did db =
     res_bind (lock_user uid db) (\<lambda>_.
     case find_snapshot uid sid db of
       None \<Rightarrow> Inl DsNoRows
     | Some s \<Rightarrow>
         if max_datasets \<le> sql_count (live_dataset (tx_now clk) uid) (dd_datasets db) then Inl DsQuota
         else (let d = new_dataset clk uid did (sp_name s) (sp_manifest s) (sp_images s) (sp_bytes s) db in
               res_bind (insert_dataset d db) (\<lambda>db1.
               res_bind (stmt (db1\<lparr>dd_refs := dd_refs db1 @ map (Pair (OfDataset did)) (refs_of (OfSnapshot sid) db1)\<rparr>))
                 (\<lambda>db2. Inr (d, db2)))))"

definition delete_lora_snapshot :: "int \<Rightarrow> string \<Rightarrow> data_db \<Rightarrow> ds_error + data_db" where
  "delete_lora_snapshot uid sid db =
     (case find_snapshot uid sid db of
        None \<Rightarrow> Inl DsNoRows
      | Some s \<Rightarrow>
          if sql_exists (\<lambda>t. tu_snapshot t = Some sid \<and> \<not> lora_terminal (tu_state t)) (dd_trainings db)
          then Inl DsInUse
          else Inr (cascade (db\<lparr>dd_snapshots := sql_delete (\<lambda>q. sp_id q = sid) (dd_snapshots db)\<rparr>)))"

section \<open>Cleanup\<close>

text \<open>\<open>LIMIT 100 FOR UPDATE SKIP LOCKED\<close>: rows that another transaction holds are passed over.\<close>

definition pick_ids :: "(string \<Rightarrow> bool) \<Rightarrow> ('r \<Rightarrow> string) \<Rightarrow> ('r \<Rightarrow> bool) \<Rightarrow> 'r list \<Rightarrow> string list" where
  "pick_ids locked key P t = take 100 (map key (filter (\<lambda>r. P r \<and> \<not> locked (key r)) t))"

definition stale_snapshot :: "int \<Rightarrow> data_db \<Rightarrow> lora_snapshot \<Rightarrow> bool" where
  "stale_snapshot now db s =
     (sp_expires s \<le> now \<and> \<not> sql_exists (\<lambda>t. tu_snapshot t = Some (sp_id s)) (dd_trainings db))"

definition unused_asset :: "int \<Rightarrow> data_db \<Rightarrow> lora_asset \<Rightarrow> bool" where
  "unused_asset now db a =
     (la_last_used a < now - one_day \<and> \<not> list_ex (\<lambda>r. snd r = la_id a) (dd_refs db))"

definition cleanup_lora_datasets ::
  "clock \<Rightarrow> (string \<Rightarrow> bool) \<Rightarrow> (string \<Rightarrow> bool) \<Rightarrow> (string \<Rightarrow> bool) \<Rightarrow> data_db \<Rightarrow> nat \<times> data_db" where
  "cleanup_lora_datasets clk locked_s locked_d locked_a db =
     (let now = tx_now clk;
          sids = pick_ids locked_s sp_id (stale_snapshot now db) (dd_snapshots db);
          old_s = (\<lambda>s. sp_id s \<in> set sids \<and> stale_snapshot now db s);
          db1 = cascade (db\<lparr>dd_snapshots := sql_delete old_s (dd_snapshots db)\<rparr>);
          dids = pick_ids locked_d ld_id (\<lambda>d. ld_expires d \<le> now) (dd_datasets db1);
          old_d = (\<lambda>d. ld_id d \<in> set dids \<and> ld_expires d \<le> now);
          db2 = cascade (db1\<lparr>dd_datasets := sql_delete old_d (dd_datasets db1)\<rparr>);
          aids = pick_ids locked_a la_id (unused_asset now db2) (dd_assets db2);
          old_a = (\<lambda>a. la_id a \<in> set aids \<and> unused_asset now db2 a);
          db3 = cascade (db2\<lparr>dd_assets := sql_delete old_a (dd_assets db2)\<rparr>)
      in (sql_count old_s (dd_snapshots db) + sql_count old_d (dd_datasets db1) +
          sql_count old_a (dd_assets db2), db3))"

end
