(* ===== verification/LoraCaptions.thy ===== *)
theory LoraCaptions
  imports LoraData
begin

text \<open>
  The caption jobs of the datasets: \<open>store/lora_caption.go\<close> and the verdict of
  \<open>gateway/lora_caption_worker.go\<close>.  A job is claimed under a run token by one worker at a time,
  the claim first recovers whatever was left running; a report is accepted only for the run it
  belongs to.  The order of ids (a collation of the database) is the argument \<open>id_le\<close>.
\<close>

section \<open>The queue\<close>

definition max_caption_pending :: nat where "max_caption_pending = 100"
definition max_caption_jobs :: nat where "max_caption_jobs = 500"
definition max_caption_attempts :: int where "max_caption_attempts = 3"

definition caption_update ::
  "(caption_row \<Rightarrow> bool) \<Rightarrow> (caption_row \<Rightarrow> caption_row) \<Rightarrow> data_db \<Rightarrow> ds_error + (caption_row list \<times> data_db)" where
  "caption_update P f db =
     res_bind (stmt (db\<lparr>dd_captions := sql_update P f (dd_captions db)\<rparr>)) (\<lambda>db1.
     Inr (map f (filter P (dd_captions db)), db1))"

text \<open>\<open>row.DatasetID\<close> of a scanned row\<close>

definition dataset_text :: "string option \<Rightarrow> string" where
  "dataset_text d = (case d of None \<Rightarrow> [] | Some s \<Rightarrow> s)"

definition caption_limit :: "string \<Rightarrow> nat" where
  "caption_limit did = (if did = [] then 4 else max_caption_pending)"

record caption_request =
  cq_id :: string
  cq_image :: string
  cq_asset :: string
  cq_key :: string
  cq_instructions :: string
  cq_input :: string

definition active_first :: "caption_row \<Rightarrow> caption_row \<Rightarrow> bool" where
  "active_first c d =
     (caption_active c \<and> \<not> caption_active d \<or>
      caption_active c = caption_active d \<and> cj_created d \<le> cj_created c)"

definition reusable_caption :: "int \<Rightarrow> string \<Rightarrow> caption_request \<Rightarrow> data_db \<Rightarrow> caption_row option" where
  "reusable_caption uid did q db =
     sql_first active_first
       (filter (\<lambda>c. cj_user c = uid \<and>
           (cj_key c = cq_key q \<or>
            did \<noteq> [] \<and> cj_dataset c = Some did \<and> cj_image c = cq_image q \<and> caption_active c))
         (dd_captions db))"

definition new_caption :: "clock \<Rightarrow> int \<Rightarrow> string \<Rightarrow> caption_request \<Rightarrow> caption_row" where
  "new_caption clk uid did q =
     \<lparr>cj_id = cq_id q, cj_user = uid, cj_dataset = (if did = [] then None else Some did),
      cj_image = cq_image q, cj_asset = cq_asset q, cj_key = cq_key q,
      cj_instructions = cq_instructions q, cj_input = cq_input q, cj_result = [],
      cj_state = CapQueued, cj_status = caption_status_queued, cj_error = [], cj_attempts = 0,
      cj_token = [], cj_cancel = False, cj_available = tx_now clk, cj_created = tx_now clk,
      cj_updated = tx_now clk, cj_expires = tx_now clk + thirty_days\<rparr>"

definition enqueue_one ::
  "clock \<Rightarrow> int \<Rightarrow> string \<Rightarrow> caption_request \<Rightarrow> data_db \<Rightarrow> ds_error + (caption_row \<times> data_db)" where
  "enqueue_one clk uid did q db =
     (if \<not> sql_exists (\<lambda>a. la_id a = cq_asset q \<and> la_user a = uid) (dd_assets db) then Inl DsNoRows
      else (let c = new_caption clk uid did q in
            res_bind (stmt (db\<lparr>dd_captions := dd_captions db @ [c]\<rparr>)) (\<lambda>db1.
            res_bind (stmt (db1\<lparr>dd_refs := dd_refs db1 @ [(OfCaption (cj_id c), cq_asset q)]\<rparr>)) (\<lambda>db2.
            Inr (c, db2)))))"

fun enqueue_each ::
  "clock \<Rightarrow> int \<Rightarrow> string \<Rightarrow> nat \<Rightarrow> nat \<Rightarrow> caption_request list \<Rightarrow> data_db
   \<Rightarrow> ds_error + (caption_row list \<times> data_db)" where
  "enqueue_each clk uid did pending saved [] db = Inr ([], db)"
| "enqueue_each clk uid did pending saved (q # qs) db =
     (case reusable_caption uid did q db of
        Some c \<Rightarrow>
          res_bind (enqueue_each clk uid did pending saved qs db) (\<lambda>(cs, db1). Inr (c # cs, db1))
      | None \<Rightarrow>
          if caption_limit did \<le> pending \<or> max_caption_jobs \<le> saved then Inl DsCaptionQuota
          else res_bind (enqueue_one clk uid did q db) (\<lambda>(c, db1).
               res_bind (enqueue_each clk uid did (pending + 1) (saved + 1) qs db1) (\<lambda>(cs, db2).
               Inr (c # cs, db2))))"

definition dataset_revision_check :: "clock \<Rightarrow> int \<Rightarrow> string \<Rightarrow> int \<Rightarrow> data_db \<Rightarrow> ds_error + unit" where
  "dataset_revision_check clk uid did revision db =
     (if did = [] then Inr ()
      else case find_dataset (tx_now clk) uid did db of
        None \<Rightarrow> Inl DsNoRows
      | Some d \<Rightarrow> if ld_revision d \<noteq> revision then Inl DsConflict else Inr ())"

definition pending_captions :: "int \<Rightarrow> data_db \<Rightarrow> nat" where
  "pending_captions uid db = sql_count (\<lambda>c. cj_user c = uid \<and> caption_active c) (dd_captions db)"

definition saved_captions :: "int \<Rightarrow> data_db \<Rightarrow> nat" where
  "saved_captions uid db = sql_count (\<lambda>c. cj_user c = uid) (dd_captions db)"

definition enqueue_lora_captions ::
  "clock \<Rightarrow> int \<Rightarrow> string \<Rightarrow> int \<Rightarrow> caption_request list \<Rightarrow> data_db
   \<Rightarrow> ds_error + (caption_row list \<times> data_db)" where
  "enqueue_lora_captions clk uid did revision qs db =
     (if max_caption_pending < length qs then Inl DsCaptionQuota
      else res_bind (lock_user uid db) (\<lambda>_.
           res_bind (dataset_revision_check clk uid did revision db) (\<lambda>_.
           enqueue_each clk uid did (pending_captions uid db) (saved_captions uid db) qs db)))"

definition lora_caption_by_id :: "int \<Rightarrow> string \<Rightarrow> data_db \<Rightarrow> ds_error + caption_row" where
  "lora_caption_by_id uid cid db =
     (case sql_find (\<lambda>c. cj_id c = cid \<and> cj_user c = uid) (dd_captions db) of
        None \<Rightarrow> Inl DsNoRows | Some c \<Rightarrow> Inr c)"

section \<open>Claim and report\<close>

definition recovered_caption :: "clock \<Rightarrow> caption_row \<Rightarrow> caption_row" where
  "recovered_caption clk c =
     (let spent = max_caption_attempts \<le> cj_attempts c in
      c\<lparr>cj_state := (if cj_cancel c then CapCancelled else if spent then CapFailed else CapQueued),
        cj_status := caption_status_recovered,
        cj_error := (if spent then caption_err_interrupted else []),
        cj_token := [], cj_available := tx_now clk, cj_updated := tx_now clk,
        cj_expires := (if cj_cancel c \<or> spent then tx_now clk + one_day else cj_expires c)\<rparr>)"

definition started_caption :: "clock \<Rightarrow> string \<Rightarrow> caption_row \<Rightarrow> caption_row" where
  "started_caption clk token c =
     c\<lparr>cj_state := CapRunning, cj_token := token, cj_attempts := cj_attempts c + 1,
       cj_status := caption_status_running, cj_error := [], cj_updated := tx_now clk\<rparr>"

definition caption_ready :: "clock \<Rightarrow> caption_row \<Rightarrow> bool" where
  "caption_ready clk c = (cj_state c = CapQueued \<and> cj_available c \<le> tx_now clk \<and> \<not> cj_cancel c)"

definition caption_before :: "(string \<Rightarrow> string \<Rightarrow> bool) \<Rightarrow> caption_row \<Rightarrow> caption_row \<Rightarrow> bool" where
  "caption_before id_le c d =
     (cj_created c < cj_created d \<or> cj_created c = cj_created d \<and> id_le (cj_id c) (cj_id d))"

definition claim_lora_caption ::
  "(string \<Rightarrow> string \<Rightarrow> bool) \<Rightarrow> clock \<Rightarrow> string \<Rightarrow> data_db \<Rightarrow> ds_error + (caption_row option \<times> data_db)" where
  "claim_lora_caption id_le clk token db =
     res_bind (caption_update (\<lambda>c. cj_state c = CapRunning) (recovered_caption clk) db) (\<lambda>(_, db1).
     case sql_first (caption_before id_le) (filter (caption_ready clk) (dd_captions db1)) of
       None \<Rightarrow> Inr (None, db1)
     | Some c \<Rightarrow>
         res_bind (caption_update (\<lambda>d. cj_id d = cj_id c) (started_caption clk token) db1) (\<lambda>(rows, db2).
         Inr (Some (started_caption clk token c), db2)))"

definition user_may_train :: "clock \<Rightarrow> data_user \<Rightarrow> bool" where
  "user_may_train clk u =
     (\<not> du_disabled u \<and> (du_admin u \<or> du_trains u) \<and>
      (case du_expires u of None \<Rightarrow> True | Some t \<Rightarrow> tx_now clk < t))"

definition caption_run_active :: "clock \<Rightarrow> string \<Rightarrow> string \<Rightarrow> data_db \<Rightarrow> bool" where
  "caption_run_active clk cid token db =
     sql_exists (\<lambda>c. cj_id c = cid \<and> cj_token c = token \<and> cj_state c = CapRunning \<and> \<not> cj_cancel c \<and>
         sql_exists (\<lambda>u. du_id u = cj_user c \<and> user_may_train clk u) (dd_users db))
       (dd_captions db)"

definition reported_caption ::
  "clock \<Rightarrow> caption_state \<Rightarrow> string \<Rightarrow> string \<Rightarrow> int \<Rightarrow> caption_row \<Rightarrow> caption_row" where
  "reported_caption clk st message result retry_after c =
     c\<lparr>cj_state := (if cj_cancel c then CapCancelled else st),
       cj_status := (if cj_cancel c then caption_status_cancelled else message),
       cj_error := (if st = CapFailed \<and> \<not> cj_cancel c then message else []),
       cj_result := (if cj_cancel c then [] else result),
       cj_token := [], cj_updated := tx_now clk,
       cj_available := tx_now clk + usec (dur_seconds retry_after),
       cj_expires := tx_now clk +
         (if cj_cancel c \<or> st = CapFailed \<or> st = CapCancelled then one_day else thirty_days)\<rparr>"

definition finish_lora_caption ::
  "clock \<Rightarrow> string \<Rightarrow> string \<Rightarrow> caption_state \<Rightarrow> string \<Rightarrow> string \<Rightarrow> int \<Rightarrow> data_db
   \<Rightarrow> ds_error + (bool \<times> data_db)" where
  "finish_lora_caption clk cid token st message result retry_after db =
     res_bind (caption_update (\<lambda>c. cj_id c = cid \<and> cj_token c = token \<and> cj_state c = CapRunning)
                 (reported_caption clk st message result retry_after) db) (\<lambda>(rows, db1).
     Inr (length rows = 1, db1))"

section \<open>Cancellation, retry and cleanup\<close>

definition cancel_lora_captions ::
  "clock \<Rightarrow> int \<Rightarrow> string \<Rightarrow> string \<Rightarrow> data_db \<Rightarrow> ds_error + (nat \<times> data_db)" where
  "cancel_lora_captions clk uid did cid db =
     res_bind (caption_update
         (\<lambda>c. cj_user c = uid \<and> (did = [] \<or> cj_dataset c = Some did) \<and> (cid = [] \<or> cj_id c = cid) \<and>
              caption_active c)
         (\<lambda>c. c\<lparr>cj_cancel := True, cj_state := (if cj_state c = CapQueued then CapCancelled else cj_state c),
               cj_status := caption_status_cancelling, cj_updated := tx_now clk,
               cj_expires := tx_now clk + one_day\<rparr>) db) (\<lambda>(rows, db1).
     Inr (length rows, db1))"

definition requeued_caption :: "clock \<Rightarrow> caption_row \<Rightarrow> caption_row" where
  "requeued_caption clk c =
     c\<lparr>cj_state := CapQueued, cj_cancel := False, cj_attempts := 0, cj_status := caption_status_retry,
       cj_error := [], cj_result := [], cj_available := tx_now clk, cj_updated := tx_now clk,
       cj_expires := tx_now clk + thirty_days\<rparr>"

definition retry_lora_caption ::
  "clock \<Rightarrow> int \<Rightarrow> string \<Rightarrow> data_db \<Rightarrow> ds_error + (caption_row \<times> data_db)" where
  "retry_lora_caption clk uid cid db =
     res_bind (lock_user uid db) (\<lambda>_.
     res_bind (lora_caption_by_id uid cid db) (\<lambda>c.
     if cj_state c \<noteq> CapFailed \<and> cj_state c \<noteq> CapCancelled then Inr (c, db)
     else if caption_limit (dataset_text (cj_dataset c)) \<le> pending_captions uid db then Inl DsCaptionQuota
     else if dataset_text (cj_dataset c) \<noteq> [] \<and>
             sql_exists (\<lambda>d. cj_dataset d = Some (dataset_text (cj_dataset c)) \<and> cj_image d = cj_image c \<and>
                           caption_active d) (dd_captions db)
     then Inl DsConflict
     else res_bind (caption_update (\<lambda>d. cj_id d = cid) (requeued_caption clk) db) (\<lambda>(rows, db1).
          Inr (requeued_caption clk c, db1))))"

definition cleanup_lora_captions :: "clock \<Rightarrow> (string \<Rightarrow> bool) \<Rightarrow> data_db \<Rightarrow> nat \<times> data_db" where
  "cleanup_lora_captions clk locked db =
     (let cids = pick_ids locked cj_id (\<lambda>c. cj_expires c \<le> tx_now clk \<and> \<not> caption_active c) (dd_captions db);
          old = (\<lambda>c. cj_id c \<in> set cids) in
      (sql_count old (dd_captions db), cascade (db\<lparr>dd_captions := sql_delete old (dd_captions db)\<rparr>)))"

section \<open>The worker\<close>

text \<open>How the model call ended: the encrypted description, or an error by what \<open>errors.As\<close> and
  \<open>errors.Is\<close> tell of it.\<close>

datatype caption_failure =
  CaptionHTTP int | CaptionNetwork | CaptionDeadline | CaptionMemoryBudget | CaptionCanceled | CaptionOther

datatype caption_run = Described string | RunFailed caption_failure

fun retryable_caption_error :: "caption_failure \<Rightarrow> bool" where
  "retryable_caption_error (CaptionHTTP code) = (code = 408 \<or> code = 429 \<or> 500 \<le> code)"
| "retryable_caption_error CaptionNetwork = True"
| "retryable_caption_error CaptionDeadline = True"
| "retryable_caption_error CaptionMemoryBudget = True"
| "retryable_caption_error CaptionCanceled = False"
| "retryable_caption_error CaptionOther = False"

text \<open>State, message, result and delay that the worker reports; \<open>stopping\<close> is
  \<open>parent.Err() != nil\<close>.\<close>

definition caption_verdict ::
  "caption_run \<Rightarrow> bool \<Rightarrow> caption_row \<Rightarrow> caption_state \<times> string \<times> string \<times> int" where
  "caption_verdict run stopping job =
     (case run of
        Described cipher \<Rightarrow> (CapCompleted, caption_msg_done, cipher, 0)
      | RunFailed e \<Rightarrow>
          if cj_attempts job < max_caption_attempts \<and>
             (stopping \<or> retryable_caption_error e \<or> e = CaptionCanceled)
          then (CapQueued, caption_msg_again, [], cj_attempts job * 5 * second_ns)
          else (CapFailed, caption_msg_failed, [], 0))"

definition report_caption_run ::
  "clock \<Rightarrow> caption_run \<Rightarrow> bool \<Rightarrow> caption_row \<Rightarrow> data_db \<Rightarrow> ds_error + (bool \<times> data_db)" where
  "report_caption_run clk run stopping job db =
     (case caption_verdict run stopping job of
        (st, message, result, retry_after) \<Rightarrow>
          finish_lora_caption clk (cj_id job) (cj_token job) st message result retry_after db)"

end
