(* ===== verification/LoraDataInv.thy ===== *)
theory LoraDataInv
  imports LoraCaptions
begin

text \<open>
  What every operation of the dataset store keeps: the constraints of the tables, the quotas,
  the ownership of the referenced images, complete assets, the shape of the caption jobs
  (\<open>data_inv\<close>); and that a dataset or snapshot which stays keeps its images (\<open>images_kept\<close>).
  \<open>good_change\<close> is both, for one operation.
\<close>

section \<open>Deletion of a user\<close>

definition data_user_deleted :: "int \<Rightarrow> data_db \<Rightarrow> data_db" where
  "data_user_deleted uid db = cascade (db\<lparr>dd_users := filter (\<lambda>u. du_id u \<noteq> uid) (dd_users db)\<rparr>)"

section \<open>Constraints survive\<close>

definition columns_ok :: "data_db \<Rightarrow> bool" where
  "columns_ok db \<longleftrightarrow>
     unique_key du_id (dd_users db) \<and>
     list_all dataset_row_ok (dd_datasets db) \<and> unique_key ld_id (dd_datasets db) \<and>
     list_all asset_row_ok (dd_assets db) \<and> no_conflicts asset_conflict (dd_assets db) \<and>
     list_all chunk_row_ok (dd_chunks db) \<and> unique_key (\<lambda>c. (ac_asset c, ac_index c)) (dd_chunks db) \<and>
     list_all snapshot_row_ok (dd_snapshots db) \<and> no_conflicts snapshot_conflict (dd_snapshots db) \<and>
     list_all caption_row_ok (dd_captions db) \<and> no_conflicts caption_conflict (dd_captions db) \<and>
     distinct (dd_refs db)"

definition keys_ok :: "data_db \<Rightarrow> bool" where
  "keys_ok db \<longleftrightarrow>
     (\<forall>d\<in>set (dd_datasets db). has_user db (ld_user d)) \<and>
     (\<forall>a\<in>set (dd_assets db). has_user db (la_user a)) \<and>
     (\<forall>c\<in>set (dd_chunks db). has_asset db (ac_asset c)) \<and>
     (\<forall>s\<in>set (dd_snapshots db). has_user db (sp_user s) \<and> null_or (has_dataset db) (sp_dataset s)) \<and>
     (\<forall>c\<in>set (dd_captions db). caption_keys_ok db c) \<and>
     (\<forall>r\<in>set (dd_refs db). ref_ok db r) \<and>
     (\<forall>t\<in>set (dd_trainings db). null_or (has_snapshot db) (tu_snapshot t))"

lemma tables_ok_split: "tables_ok db \<longleftrightarrow> columns_ok db \<and> keys_ok db"
  unfolding tables_ok_def columns_ok_def keys_ok_def list_all_iff by blast

lemma stmt_Inr [simp]: "stmt db = Inr t \<longleftrightarrow> tables_ok db \<and> t = db"
  by (auto simp: stmt_def)

text \<open>What a cascade leaves.\<close>

lemma cascade_users [simp]: "dd_users (cascade db) = dd_users db"
  by (simp add: cascade_def drop_of_users_def drop_dependents_def drop_refs_def)

lemma cascade_revision [simp]: "dd_last_revision (cascade db) = dd_last_revision db"
  by (simp add: cascade_def drop_of_users_def drop_dependents_def drop_refs_def)

lemma cascade_datasets [simp]: "dd_datasets (cascade db) = filter (\<lambda>d. has_user db (ld_user d)) (dd_datasets db)"
  by (simp add: cascade_def drop_of_users_def drop_dependents_def drop_refs_def)

lemma cascade_assets [simp]: "dd_assets (cascade db) = filter (\<lambda>a. has_user db (la_user a)) (dd_assets db)"
  by (simp add: cascade_def drop_of_users_def drop_dependents_def drop_refs_def)

lemma cascade_chunks [simp]: "dd_chunks (cascade db) = filter (\<lambda>c. has_asset (cascade db) (ac_asset c)) (dd_chunks db)"
  by (simp add: cascade_def drop_of_users_def drop_dependents_def drop_refs_def)

lemma cascade_snapshots:
  "dd_snapshots (cascade db) =
     map (\<lambda>s. s\<lparr>sp_dataset := to_null (has_dataset (cascade db)) (sp_dataset s)\<rparr>)
       (filter (\<lambda>s. has_user db (sp_user s)) (dd_snapshots db))"
  by (simp add: cascade_def drop_of_users_def drop_dependents_def drop_refs_def)

lemma caption_keys_frame:
  "dd_users t = dd_users s \<Longrightarrow> dd_datasets t = dd_datasets s \<Longrightarrow> dd_assets t = dd_assets s \<Longrightarrow>
   caption_keys_ok t = caption_keys_ok s"
  by (rule ext) (simp add: caption_keys_ok_def)

lemma cascade_captions: "dd_captions (cascade db) = filter (caption_keys_ok (cascade db)) (dd_captions db)"
proof -
  have "caption_keys_ok (cascade db) = caption_keys_ok (drop_of_users db)"
    by (rule caption_keys_frame) (simp_all add: cascade_def drop_dependents_def drop_refs_def)
  moreover have "dd_captions (cascade db) = filter (caption_keys_ok (drop_of_users db)) (dd_captions (drop_of_users db))"
    unfolding cascade_def drop_refs_def drop_dependents_def by simp
  ultimately show ?thesis by (simp add: drop_of_users_def)
qed

lemma has_owner_cong:
  "ld_id ` set (dd_datasets db) = ld_id ` set (dd_datasets db') \<Longrightarrow>
   sp_id ` set (dd_snapshots db) = sp_id ` set (dd_snapshots db') \<Longrightarrow>
   cj_id ` set (dd_captions db) = cj_id ` set (dd_captions db') \<Longrightarrow> has_owner db o1 = has_owner db' o1"
  by (cases o1) simp_all

lemma has_owner_drop_refs [simp]: "has_owner (drop_refs db) o1 = has_owner db o1"
  by (rule has_owner_cong) (simp_all add: drop_refs_def)

lemma cascade_refs: "dd_refs (cascade db) = filter (ref_ok (cascade db)) (dd_refs db)"
proof -
  have r: "dd_refs (drop_dependents (drop_of_users db)) = dd_refs db"
    by (simp add: drop_dependents_def drop_of_users_def)
  have "ref_ok (drop_refs d) = ref_ok d" for d
    by (rule ext) (simp add: ref_ok_def, simp add: drop_refs_def)
  then show ?thesis by (simp add: cascade_def, simp add: drop_refs_def r)
qed

lemma to_null_ok [simp]: "null_or P (to_null P x)"
  by (cases x) (auto simp: null_or_def to_null_def)

lemma to_null_Some: "to_null P x = Some y \<longleftrightarrow> x = Some y \<and> P y"
  by (cases x) (auto simp: to_null_def)

lemma cascade_trainings:
  "dd_trainings (cascade db) =
     map (\<lambda>t. t\<lparr>tu_snapshot := to_null (has_snapshot (cascade db)) (tu_snapshot t)\<rparr>) (dd_trainings db)"
  by (simp add: cascade_def drop_of_users_def drop_dependents_def drop_refs_def comp_def image_image)

lemma cascade_keys: "keys_ok (cascade db)"
  unfolding keys_ok_def
  by (auto simp: cascade_snapshots cascade_captions cascade_refs cascade_trainings)

lemma no_conflicts_filter: "no_conflicts C rs \<Longrightarrow> no_conflicts C (filter P rs)"
  unfolding no_conflicts_iff_sorted_wrt by (rule sorted_wrt_filter)

lemma no_conflicts_map_shrink:
  "no_conflicts C rs \<Longrightarrow> (\<And>a b. C (f a) (f b) \<Longrightarrow> C a b) \<Longrightarrow> no_conflicts C (map f rs)"
  unfolding no_conflicts_iff_sorted_wrt sorted_wrt_map by (erule sorted_wrt_mono_rel[rotated]) blast

lemma unique_key_filter: "unique_key key t \<Longrightarrow> unique_key key (filter P t)"
  by (simp add: unique_key_def distinct_map_filter)

lemma list_all_filter: "list_all P t \<Longrightarrow> list_all P (filter Q t)"
  by (auto simp: list_all_iff)

lemma cascade_snapshots_ok:
  "list_all snapshot_row_ok (dd_snapshots db) \<Longrightarrow> list_all snapshot_row_ok (dd_snapshots (cascade db))"
  by (auto simp: cascade_snapshots list_all_iff snapshot_row_ok_def)

lemma to_null_conflict:
  "snapshot_conflict (a\<lparr>sp_dataset := to_null P (sp_dataset a)\<rparr>) (b\<lparr>sp_dataset := to_null P (sp_dataset b)\<rparr>) \<Longrightarrow>
   snapshot_conflict a b"
  by (cases "to_null P (sp_dataset a)") (auto simp: snapshot_conflict_def to_null_Some dest: sym)

lemma cascade_snapshots_unique:
  "no_conflicts snapshot_conflict (dd_snapshots db) \<Longrightarrow> no_conflicts snapshot_conflict (dd_snapshots (cascade db))"
  unfolding cascade_snapshots
  by (rule no_conflicts_map_shrink[OF no_conflicts_filter to_null_conflict])

lemma cascade_columns: "columns_ok db \<Longrightarrow> columns_ok (cascade db)"
  unfolding columns_ok_def
  by (simp add: cascade_captions cascade_refs cascade_snapshots_ok cascade_snapshots_unique
      no_conflicts_filter unique_key_filter list_all_filter)

section \<open>The invariant\<close>

definition chunks_of :: "string \<Rightarrow> data_db \<Rightarrow> asset_chunk list" where
  "chunks_of aid db = filter (\<lambda>c. ac_asset c = aid) (dd_chunks db)"

definition asset_whole :: "data_db \<Rightarrow> lora_asset \<Rightarrow> bool" where
  "asset_whole db a \<longleftrightarrow>
     consecutive 0 (chunks_of (la_id a) db) \<and>
     sum_list (map ac_size (chunks_of (la_id a) db)) = la_size a"

fun owner_user :: "data_db \<Rightarrow> ref_owner \<Rightarrow> int \<Rightarrow> bool" where
  "owner_user db (OfDataset d) u = (\<exists>x\<in>set (dd_datasets db). ld_id x = d \<and> ld_user x = u)"
| "owner_user db (OfSnapshot s) u = (\<exists>x\<in>set (dd_snapshots db). sp_id x = s \<and> sp_user x = u)"
| "owner_user db (OfCaption c) u = (\<exists>x\<in>set (dd_captions db). cj_id x = c \<and> cj_user x = u)"

definition own_refs :: "data_db \<Rightarrow> bool" where
  "own_refs db \<longleftrightarrow> (\<forall>a\<in>set (dd_assets db). \<forall>w u. (w, la_id a) \<in> set (dd_refs db) \<longrightarrow>
     owner_user db w u \<longrightarrow> la_user a = u)"

definition revisions_ok :: "data_db \<Rightarrow> bool" where
  "revisions_ok db \<longleftrightarrow>
     (\<forall>d\<in>set (dd_datasets db). ld_revision d \<le> dd_last_revision db) \<and>
     (\<forall>s\<in>set (dd_snapshots db). sp_revision s \<le> dd_last_revision db) \<and>
     (\<forall>s\<in>set (dd_snapshots db). \<forall>d\<in>set (dd_datasets db).
        sp_dataset s = Some (ld_id d) \<longrightarrow> sp_revision s = ld_revision d \<longrightarrow>
        set (refs_of (OfSnapshot (sp_id s)) db) = set (refs_of (OfDataset (ld_id d)) db))"

definition caption_shape :: "caption_row \<Rightarrow> bool" where
  "caption_shape c \<longleftrightarrow>
     (cj_state c = CapQueued \<longrightarrow> cj_attempts c < max_caption_attempts \<and> \<not> cj_cancel c) \<and>
     (cj_state c = CapRunning \<longrightarrow> 1 \<le> cj_attempts c \<and> cj_attempts c \<le> max_caption_attempts) \<and>
     (cj_state c = CapRunning \<longleftrightarrow> cj_token c \<noteq> [])"

definition captions_ok :: "data_db \<Rightarrow> bool" where
  "captions_ok db \<longleftrightarrow> (\<forall>c\<in>set (dd_captions db). caption_shape c) \<and>
     sql_count (\<lambda>c. cj_state c = CapRunning) (dd_captions db) \<le> 1"

definition snapshot_count :: "int \<Rightarrow> data_db \<Rightarrow> nat" where
  "snapshot_count uid db = sql_count (\<lambda>s. sp_user s = uid) (dd_snapshots db)"

definition dataset_count :: "int \<Rightarrow> int \<Rightarrow> data_db \<Rightarrow> nat" where
  "dataset_count now uid db = sql_count (live_dataset now uid) (dd_datasets db)"

definition within_quotas :: "int \<Rightarrow> data_db \<Rightarrow> bool" where
  "within_quotas now db \<longleftrightarrow> (\<forall>uid.
     storage_bytes uid db \<le> max_user_bytes \<and> snapshot_count uid db \<le> max_snapshots \<and>
     dataset_count now uid db \<le> max_datasets \<and>
     pending_captions uid db \<le> max_caption_pending \<and> saved_captions uid db \<le> max_caption_jobs)"

definition data_inv :: "int \<Rightarrow> data_db \<Rightarrow> bool" where
  "data_inv now db \<longleftrightarrow> tables_ok db \<and> within_quotas now db \<and> own_refs db \<and> revisions_ok db \<and>
     (\<forall>a\<in>set (dd_assets db). asset_whole db a) \<and> captions_ok db"

section \<open>What happens to saved images\<close>

definition asset_data :: "data_db \<Rightarrow> string \<Rightarrow> lora_asset list \<times> asset_chunk list" where
  "asset_data db aid =
     (map (\<lambda>a. a\<lparr>la_last_used := 0\<rparr>) (filter (\<lambda>a. la_id a = aid) (dd_assets db)), chunks_of aid db)"

definition same_images :: "data_db \<Rightarrow> data_db \<Rightarrow> ref_owner \<Rightarrow> bool" where
  "same_images s t w \<longleftrightarrow> set (refs_of w t) = set (refs_of w s) \<and>
     (\<forall>a\<in>set (refs_of w s). asset_data t a = asset_data s a)"

definition same_snapshot :: "lora_snapshot \<Rightarrow> lora_snapshot \<Rightarrow> bool" where
  "same_snapshot s q \<longleftrightarrow> sp_id q = sp_id s \<and> sp_user q = sp_user s \<and> sp_manifest q = sp_manifest s \<and> sp_hash q = sp_hash s"

text \<open>\<open>ids\<close> are the ids of snapshots handed out before.\<close>

definition images_kept :: "string set \<Rightarrow> data_db \<Rightarrow> data_db \<Rightarrow> bool" where
  "images_kept ids s t \<longleftrightarrow> dd_last_revision s \<le> dd_last_revision t \<and>
     (\<forall>d\<in>set (dd_datasets t). dd_last_revision s < ld_revision d \<or>
        d \<in> set (dd_datasets s) \<and> same_images s t (OfDataset (ld_id d))) \<and>
     (\<forall>q\<in>set (dd_snapshots t). sp_id q \<notin> ids \<or>
        (\<exists>p\<in>set (dd_snapshots s). same_snapshot p q) \<and> same_images s t (OfSnapshot (sp_id q)))"

lemma same_images_refl [simp]: "same_images s s w"
  by (simp add: same_images_def)

lemma same_images_trans: "same_images s t w \<Longrightarrow> same_images t u w \<Longrightarrow> same_images s u w"
  by (auto simp: same_images_def)

lemma same_snapshot_trans: "same_snapshot p q \<Longrightarrow> same_snapshot q r \<Longrightarrow> same_snapshot p r"
  by (simp add: same_snapshot_def)

lemma images_kept_refl [simp]: "images_kept ids s s"
  by (auto simp: images_kept_def same_snapshot_def)

lemma images_kept_mono: "images_kept A s t \<Longrightarrow> B \<subseteq> A \<Longrightarrow> images_kept B s t"
  unfolding images_kept_def by blast

lemma images_kept_trans:
  assumes st: "images_kept ids s t" and tu: "images_kept ids' t u" and sub: "ids \<subseteq> ids'"
  shows "images_kept ids s u"
proof -
  have last: "dd_last_revision s \<le> dd_last_revision t" "dd_last_revision t \<le> dd_last_revision u"
    using st tu by (simp_all add: images_kept_def)
  have "dd_last_revision s < ld_revision d \<or> d \<in> set (dd_datasets s) \<and> same_images s u (OfDataset (ld_id d))"
    if "d \<in> set (dd_datasets u)" for d
  proof (cases "dd_last_revision t < ld_revision d")
    case True
    with last show ?thesis by simp
  next
    case False
    with tu that have "d \<in> set (dd_datasets t)" "same_images t u (OfDataset (ld_id d))"
      by (auto simp: images_kept_def)
    with st show ?thesis unfolding images_kept_def using same_images_trans by blast
  qed
  moreover have "sp_id q \<notin> ids \<or> (\<exists>p\<in>set (dd_snapshots s). same_snapshot p q) \<and> same_images s u (OfSnapshot (sp_id q))"
    if "q \<in> set (dd_snapshots u)" for q
  proof (cases "sp_id q \<in> ids")
    case True
    with sub tu that obtain p where p: "p \<in> set (dd_snapshots t)" "same_snapshot p q" "same_images t u (OfSnapshot (sp_id q))"
      by (auto simp: images_kept_def)
    then have "sp_id p = sp_id q" by (simp add: same_snapshot_def)
    with st p True obtain r where "r \<in> set (dd_snapshots s)" "same_snapshot r p" "same_images s t (OfSnapshot (sp_id q))"
      unfolding images_kept_def by metis
    with p show ?thesis using same_images_trans same_snapshot_trans by blast
  qed simp
  ultimately show ?thesis using last unfolding images_kept_def by auto
qed

section \<open>Deletions\<close>

lemma sum_list_filter_le:
  "(\<And>x. x \<in> set xs \<Longrightarrow> 0 \<le> f x) \<Longrightarrow> sum_list (map f (filter P xs)) \<le> sum_list (map (f :: 'a \<Rightarrow> int) xs)"
  by (induction xs) (auto intro: add_increasing)

lemma sql_count_filter: "sql_count Q (filter P t) \<le> sql_count Q t"
  by (induction t) (auto simp: le_SucI)

lemma sql_count_map: "(\<And>x. Q (f x) = Q x) \<Longrightarrow> sql_count Q (map f t) = sql_count Q t"
  by (induction t) auto

lemma filter_comm: "filter P (filter Q xs) = filter Q (filter P xs)"
  by (induction xs) auto

definition pruned :: "data_db \<Rightarrow> data_db \<Rightarrow> bool" where
  "pruned s r \<longleftrightarrow> (\<exists>Pu Pd Pa Ps Pc. r = s\<lparr>dd_users := filter Pu (dd_users s),
     dd_datasets := filter Pd (dd_datasets s), dd_assets := filter Pa (dd_assets s),
     dd_snapshots := filter Ps (dd_snapshots s), dd_captions := filter Pc (dd_captions s)\<rparr>)"

definition smaller :: "data_db \<Rightarrow> data_db \<Rightarrow> bool" where
  "smaller s t \<longleftrightarrow> (\<exists>Pd Pa Ps Pc. dd_datasets t = filter Pd (dd_datasets s) \<and>
     dd_assets t = filter Pa (dd_assets s) \<and> dd_captions t = filter Pc (dd_captions s) \<and>
     (\<exists>P. dd_snapshots t = map (\<lambda>q. q\<lparr>sp_dataset := to_null P (sp_dataset q)\<rparr>) (filter Ps (dd_snapshots s)))) \<and>
     dd_chunks t = filter (\<lambda>c. has_asset t (ac_asset c)) (dd_chunks s) \<and>
     dd_refs t = filter (ref_ok t) (dd_refs s) \<and> dd_last_revision t = dd_last_revision s"

lemma pruned_smaller:
  assumes "pruned s r"
  shows "smaller s (cascade r)"
proof -
  obtain Pu Pd Pa Ps Pc where r: "r = s\<lparr>dd_users := filter Pu (dd_users s),
     dd_datasets := filter Pd (dd_datasets s), dd_assets := filter Pa (dd_assets s),
     dd_snapshots := filter Ps (dd_snapshots s), dd_captions := filter Pc (dd_captions s)\<rparr>"
    using assms unfolding pruned_def by blast
  have "dd_datasets (cascade r) = filter (\<lambda>d. Pd d \<and> has_user r (ld_user d)) (dd_datasets s)"
    "dd_assets (cascade r) = filter (\<lambda>a. Pa a \<and> has_user r (la_user a)) (dd_assets s)"
    "dd_captions (cascade r) = filter (\<lambda>c. Pc c \<and> caption_keys_ok (cascade r) c) (dd_captions s)"
    "dd_snapshots (cascade r) = map (\<lambda>q. q\<lparr>sp_dataset := to_null (has_dataset (cascade r)) (sp_dataset q)\<rparr>)
       (filter (\<lambda>q. Ps q \<and> has_user r (sp_user q)) (dd_snapshots s))"
    "dd_chunks r = dd_chunks s" "dd_refs r = dd_refs s" "dd_last_revision r = dd_last_revision s"
    by (simp_all add: r cascade_captions cascade_snapshots conj_commute)
  then show ?thesis unfolding smaller_def cascade_refs[of r] cascade_chunks[of r] by simp blast
qed

lemma refs_of_set: "a \<in> set (refs_of w db) \<longleftrightarrow> (w, a) \<in> set (dd_refs db)"
  by (force simp: refs_of_def)

lemma smaller_subsets:
  assumes "smaller s t"
  shows "set (dd_datasets t) \<subseteq> set (dd_datasets s)" "set (dd_assets t) \<subseteq> set (dd_assets s)"
    "set (dd_refs t) \<subseteq> set (dd_refs s)" "set (dd_captions t) \<subseteq> set (dd_captions s)"
  using assms by (auto simp: smaller_def)

lemma smaller_snapshot:
  assumes "smaller s t" and "q \<in> set (dd_snapshots t)"
  shows "\<exists>p\<in>set (dd_snapshots s). same_snapshot p q \<and> sp_revision q = sp_revision p \<and>
     (\<forall>d. sp_dataset q = Some d \<longrightarrow> sp_dataset p = Some d)"
proof -
  obtain P Ps where "dd_snapshots t = map (\<lambda>q. q\<lparr>sp_dataset := to_null P (sp_dataset q)\<rparr>) (filter Ps (dd_snapshots s))"
    using assms(1) unfolding smaller_def by blast
  with assms(2) obtain p where "p \<in> set (dd_snapshots s)" "q = p\<lparr>sp_dataset := to_null P (sp_dataset p)\<rparr>" by auto
  then show ?thesis by (intro bexI[of _ p]) (auto simp: same_snapshot_def to_null_Some)
qed

lemma smaller_owner:
  assumes "smaller s t" and "owner_user t w u"
  shows "owner_user s w u"
proof (cases w)
  case (OfSnapshot k)
  with assms(2) obtain q where "q \<in> set (dd_snapshots t)" "sp_id q = k" "sp_user q = u" by auto
  with smaller_snapshot[OF assms(1) this(1)] OfSnapshot show ?thesis by (auto simp: same_snapshot_def)
qed (use assms(2) smaller_subsets[OF assms(1)] in auto)

lemma smaller_chunks: "smaller s t \<Longrightarrow> has_asset t aid \<Longrightarrow> chunks_of aid t = chunks_of aid s"
  unfolding smaller_def chunks_of_def filter_filter
  by (auto intro!: filter_cong)

text \<open>The owners that stay keep their images, when these are not deleted under them.\<close>

definition spared :: "data_db \<Rightarrow> data_db \<Rightarrow> bool" where
  "spared s t \<longleftrightarrow> (\<forall>w a. (w, a) \<in> set (dd_refs s) \<longrightarrow> has_owner t w \<longrightarrow> has_asset t a)"

lemma spared_refs:
  assumes "smaller s t" "spared s t" "has_owner t w"
  shows "refs_of w t = refs_of w s"
proof -
  have "filter (\<lambda>r. fst r = w) (filter (ref_ok t) (dd_refs s)) = filter (\<lambda>r. fst r = w) (dd_refs s)"
    unfolding filter_filter
    by (rule filter_cong) (use assms(2,3) in \<open>auto simp: spared_def ref_ok_def\<close>)
  then show ?thesis using assms(1) by (simp add: refs_of_def smaller_def)
qed

lemma unique_filter_key:
  "unique_key key t \<Longrightarrow> x \<in> set t \<Longrightarrow> filter (\<lambda>y. key y = key x) t = [x]"
proof (induction t)
  case (Cons y ys)
  then have new: "key z \<noteq> key y" if "z \<in> set ys" for z
    using that by (metis (no_types, lifting) distinct.simps(2) image_eqI list.simps(9) set_map unique_key_def)
  show ?case
  proof (cases "x = y")
    case True
    with new show ?thesis by (auto simp: filter_empty_conv)
  next
    case False
    with Cons new show ?thesis by (auto simp: unique_key_def)
  qed
qed simp

lemma tables_asset_ids: "tables_ok db \<Longrightarrow> unique_key la_id (dd_assets db)"
  by (rule no_conflicts_unique_key[of asset_conflict]) (simp_all add: tables_ok_def asset_conflict_def)

lemma asset_data_eq:
  assumes "tables_ok s" "tables_ok t" "a \<in> set (dd_assets s)" "b \<in> set (dd_assets t)"
    "la_id b = la_id a" "b\<lparr>la_last_used := 0\<rparr> = a\<lparr>la_last_used := 0\<rparr>" "chunks_of (la_id a) t = chunks_of (la_id a) s"
  shows "asset_data t (la_id a) = asset_data s (la_id a)"
  using assms unique_filter_key[OF tables_asset_ids[OF assms(1)] assms(3)]
    unique_filter_key[OF tables_asset_ids[OF assms(2)] assms(4)]
  by (simp add: asset_data_def)

lemma smaller_asset_data:
  assumes "smaller s t" "tables_ok s" "tables_ok t" "has_asset t aid"
  shows "asset_data t aid = asset_data s aid"
proof -
  obtain a where a: "a \<in> set (dd_assets t)" "la_id a = aid" using assms(4) by blast
  then have "a \<in> set (dd_assets s)" using smaller_subsets[OF assms(1)] by blast
  from asset_data_eq[OF assms(2,3) this a(1)] smaller_chunks[OF assms(1,4)] a show ?thesis by simp
qed

lemma spared_images:
  assumes "smaller s t" "spared s t" "tables_ok s" "tables_ok t" "has_owner t w"
  shows "same_images s t w"
  unfolding same_images_def
  using spared_refs[OF assms(1,2,5)] assms(2,5) smaller_asset_data[OF assms(1,3,4)]
  by (auto simp: refs_of_set spared_def)

lemma smaller_kept:
  assumes "smaller s t" "spared s t" "tables_ok s" "tables_ok t"
  shows "images_kept ids s t"
proof -
  have "d \<in> set (dd_datasets s) \<and> same_images s t (OfDataset (ld_id d))" if "d \<in> set (dd_datasets t)" for d
    using that smaller_subsets(1)[OF assms(1)] spared_images[OF assms] by auto
  moreover have "(\<exists>p\<in>set (dd_snapshots s). same_snapshot p q) \<and> same_images s t (OfSnapshot (sp_id q))"
    if "q \<in> set (dd_snapshots t)" for q
    using smaller_snapshot[OF assms(1) that] spared_images[OF assms, of "OfSnapshot (sp_id q)"] that by auto
  ultimately show ?thesis using assms(1) by (auto simp: images_kept_def smaller_def)
qed

lemma smaller_revisions:
  assumes sm: "smaller s t" and sp: "spared s t" and r: "revisions_ok s"
  shows "revisions_ok t"
proof -
  have last: "dd_last_revision t = dd_last_revision s" using sm by (simp add: smaller_def)
  have "sp_revision q \<le> dd_last_revision s" if "q \<in> set (dd_snapshots t)" for q
    using smaller_snapshot[OF sm that] r by (auto simp: revisions_ok_def)
  moreover have "set (refs_of (OfSnapshot (sp_id q)) t) = set (refs_of (OfDataset (ld_id d)) t)"
    if q: "q \<in> set (dd_snapshots t)" and d: "d \<in> set (dd_datasets t)" and
      e: "sp_dataset q = Some (ld_id d)" "sp_revision q = ld_revision d" for q d
  proof -
    obtain p where p: "p \<in> set (dd_snapshots s)" "sp_id p = sp_id q" "sp_dataset p = Some (ld_id d)" "sp_revision p = ld_revision d"
      using smaller_snapshot[OF sm q] e by (auto simp: same_snapshot_def)
    have "d \<in> set (dd_datasets s)" using smaller_subsets(1)[OF sm] d by blast
    with p r have "set (refs_of (OfSnapshot (sp_id q)) s) = set (refs_of (OfDataset (ld_id d)) s)"
      unfolding revisions_ok_def by metis
    with spared_refs[OF sm sp, of "OfSnapshot (sp_id q)"] spared_refs[OF sm sp, of "OfDataset (ld_id d)"] q d
    show ?thesis by simp
  qed
  ultimately show ?thesis using r smaller_subsets(1)[OF sm] unfolding revisions_ok_def last by blast
qed

lemma smaller_quotas:
  assumes sm: "smaller s t" and ok: "tables_ok s" and q: "within_quotas now s"
  shows "within_quotas now t"
proof -
  have "storage_bytes u t \<le> storage_bytes u s" for u
  proof -
    obtain Pa where a: "dd_assets t = filter Pa (dd_assets s)" using sm unfolding smaller_def by blast
    have "\<forall>x\<in>set (dd_assets s). 0 \<le> la_size x"
      using ok unfolding tables_ok_def list_all_iff asset_row_ok_def by (meson dual_order.trans zero_le_one)
    then show ?thesis unfolding storage_bytes_def a filter_comm[of _ Pa]
      by (intro sum_list_filter_le) simp
  qed
  moreover have "snapshot_count u t \<le> snapshot_count u s" for u
    using sm sql_count_filter unfolding smaller_def snapshot_count_def
    by (elim conjE exE) (simp add: sql_count_map sql_count_filter)
  moreover have "dataset_count now u t \<le> dataset_count now u s \<and> pending_captions u t \<le> pending_captions u s \<and>
     saved_captions u t \<le> saved_captions u s" for u
    using sm unfolding smaller_def dataset_count_def pending_captions_def saved_captions_def
    by (elim conjE exE) (simp add: sql_count_filter)
  ultimately show ?thesis using q unfolding within_quotas_def by (meson order_trans)
qed

lemma smaller_inv:
  assumes sm: "smaller s t" and sp: "spared s t" and ok: "tables_ok t" and i: "data_inv now s"
  shows "data_inv now t"
proof -
  have o: "own_refs t"
    using i smaller_subsets[OF sm] smaller_owner[OF sm] unfolding data_inv_def own_refs_def by blast
  have w: "asset_whole t a" if "a \<in> set (dd_assets t)" for a
    using that i smaller_subsets[OF sm] smaller_chunks[OF sm, of "la_id a"]
    unfolding data_inv_def asset_whole_def by auto
  have "sql_count (\<lambda>c. cj_state c = CapRunning) (dd_captions t) \<le> sql_count (\<lambda>c. cj_state c = CapRunning) (dd_captions s)"
    using sm unfolding smaller_def by (elim conjE exE) (simp add: sql_count_filter)
  then have "captions_ok t"
    using i smaller_subsets(4)[OF sm] unfolding data_inv_def captions_ok_def by (meson order_trans subsetD)
  with i o w ok smaller_revisions[OF sm sp] smaller_quotas[OF sm] show ?thesis
    unfolding data_inv_def by blast
qed

text \<open>Every deletion: the rows that go, what depends on them, and the images of all others.\<close>

lemma deletion_good:
  assumes "pruned s r" and "spared s (cascade r)" and i: "data_inv now s"
  shows "data_inv now (cascade r) \<and> images_kept ids s (cascade r)"
proof -
  have s: "tables_ok s" using i by (simp add: data_inv_def)
  obtain Pu Pd Pa Ps Pc where "r = s\<lparr>dd_users := filter Pu (dd_users s),
     dd_datasets := filter Pd (dd_datasets s), dd_assets := filter Pa (dd_assets s),
     dd_snapshots := filter Ps (dd_snapshots s), dd_captions := filter Pc (dd_captions s)\<rparr>"
    using assms unfolding pruned_def by blast
  with s have "columns_ok r" unfolding tables_ok_split columns_ok_def
    by (simp add: no_conflicts_filter unique_key_filter list_all_filter)
  then have ok: "tables_ok (cascade r)" using cascade_columns cascade_keys by (simp add: tables_ok_split)
  show ?thesis
    using smaller_inv[OF pruned_smaller[OF assms(1)] assms(2) ok i]
      smaller_kept[OF pruned_smaller[OF assms(1)] assms(2) s ok] by simp
qed

lemma assets_spared:
  assumes "tables_ok s" "dd_users r = dd_users s"
    and "\<And>a. a \<in> set (dd_assets s) \<Longrightarrow> a \<in> set (dd_assets r) \<or> (\<forall>w. (w, la_id a) \<notin> set (dd_refs s))"
  shows "spared s (cascade r)"
  unfolding spared_def
proof (intro allI impI)
  fix w k assume r: "(w, k) \<in> set (dd_refs s)"
  with assms(1) have "has_asset s k" unfolding tables_ok_def list_all_iff ref_ok_def by fastforce
  then obtain a where a: "a \<in> set (dd_assets s)" "la_id a = k" by blast
  with assms(1) have "has_user s (la_user a)" unfolding tables_ok_def list_all_iff by blast
  with assms(2,3) a r show "has_asset (cascade r) k" by auto
qed

lemma prunedI:
  "r = s\<lparr>dd_datasets := sql_delete P (dd_datasets s)\<rparr> \<Longrightarrow> pruned s r"
  "r = s\<lparr>dd_snapshots := sql_delete Q (dd_snapshots s)\<rparr> \<Longrightarrow> pruned s r"
  "r = s\<lparr>dd_captions := sql_delete R (dd_captions s)\<rparr> \<Longrightarrow> pruned s r"
  "r = s\<lparr>dd_assets := sql_delete S (dd_assets s)\<rparr> \<Longrightarrow> pruned s r"
  "r = s\<lparr>dd_users := filter U (dd_users s)\<rparr> \<Longrightarrow> pruned s r"
  unfolding pruned_def sql_delete_def
  by (intro exI[of _ "\<lambda>_. True"] exI[of _ "\<lambda>x. \<not> P x"] exI[of _ "\<lambda>x. \<not> Q x"]
      exI[of _ "\<lambda>x. \<not> R x"] exI[of _ "\<lambda>x. \<not> S x"] exI[of _ U] conjI; simp)+

abbreviation good_change :: "clock \<Rightarrow> data_db \<Rightarrow> data_db \<Rightarrow> bool" where
  "good_change clk s t \<equiv> data_inv (tx_now clk) t \<and> images_kept UNIV s t"

lemma good_trans: "good_change clk s t \<Longrightarrow> good_change clk t u \<Longrightarrow> good_change clk s u"
  using images_kept_trans by blast

lemma data_inv_tables: "data_inv now s \<Longrightarrow> tables_ok s"
  by (simp add: data_inv_def)

lemma delete_datasets_good:
  assumes "data_inv (tx_now clk) s"
  shows "good_change clk s (cascade (s\<lparr>dd_datasets := sql_delete P (dd_datasets s)\<rparr>))"
  by (rule deletion_good[OF prunedI(1)[OF refl] assets_spared assms]) (simp_all add: data_inv_tables[OF assms])

lemma delete_snapshots_good:
  assumes "data_inv (tx_now clk) s"
  shows "good_change clk s (cascade (s\<lparr>dd_snapshots := sql_delete P (dd_snapshots s)\<rparr>))"
  by (rule deletion_good[OF prunedI(2)[OF refl] assets_spared assms]) (simp_all add: data_inv_tables[OF assms])

lemma delete_captions_good:
  assumes "data_inv (tx_now clk) s"
  shows "good_change clk s (cascade (s\<lparr>dd_captions := sql_delete P (dd_captions s)\<rparr>))"
  by (rule deletion_good[OF prunedI(3)[OF refl] assets_spared assms]) (simp_all add: data_inv_tables[OF assms])

lemma delete_assets_good:
  assumes "data_inv (tx_now clk) s" and "\<And>a w. P a \<Longrightarrow> (w, la_id a) \<notin> set (dd_refs s)"
  shows "good_change clk s (cascade (s\<lparr>dd_assets := sql_delete P (dd_assets s)\<rparr>))"
  by (rule deletion_good[OF prunedI(4)[OF refl] assets_spared assms(1)])
    (use data_inv_tables[OF assms(1)] assms(2) in auto)

lemma delete_lora_dataset_good:
  "delete_lora_dataset uid did revision s = Inr t \<Longrightarrow> data_inv (tx_now clk) s \<Longrightarrow> good_change clk s t"
  using delete_datasets_good by (auto simp: delete_lora_dataset_def Let_def split: if_splits)

lemma delete_lora_snapshot_good:
  "delete_lora_snapshot uid sid s = Inr t \<Longrightarrow> data_inv (tx_now clk) s \<Longrightarrow> good_change clk s t"
  using delete_snapshots_good by (auto simp: delete_lora_snapshot_def split: option.splits if_splits)

lemma cleanup_captions_good:
  "cleanup_lora_captions clk locked s = (n, t) \<Longrightarrow> data_inv (tx_now clk) s \<Longrightarrow> good_change clk s t"
  using delete_captions_good by (auto simp: cleanup_lora_captions_def Let_def)

lemma unused_asset_free: "unused_asset now db a \<Longrightarrow> (w, la_id a) \<notin> set (dd_refs db)"
  by (auto simp: unused_asset_def list_ex_iff)

lemma cleanup_stages:
  assumes "cleanup_lora_datasets clk locked_s locked_d locked_a s = (n, t)"
  obtains P Q R u v where "u = cascade (s\<lparr>dd_snapshots := sql_delete P (dd_snapshots s)\<rparr>)"
    "v = cascade (u\<lparr>dd_datasets := sql_delete Q (dd_datasets u)\<rparr>)"
    "t = cascade (v\<lparr>dd_assets := sql_delete R (dd_assets v)\<rparr>)"
    "\<And>q. P q \<Longrightarrow> stale_snapshot (tx_now clk) s q" "\<And>a. R a \<Longrightarrow> unused_asset (tx_now clk) v a"
  using assms unfolding cleanup_lora_datasets_def Let_def prod.inject
  by (elim conjE) (rule that[OF refl refl sym], assumption, (erule conjunct2)+)

lemma cleanup_datasets_good:
  assumes c: "cleanup_lora_datasets clk locked_s locked_d locked_a s = (n, t)" and i: "data_inv (tx_now clk) s"
  shows "good_change clk s t"
  using c
proof (rule cleanup_stages)
  fix P Q R u v
  assume u: "u = cascade (s\<lparr>dd_snapshots := sql_delete P (dd_snapshots s)\<rparr>)"
    and v: "v = cascade (u\<lparr>dd_datasets := sql_delete Q (dd_datasets u)\<rparr>)"
    and t: "t = cascade (v\<lparr>dd_assets := sql_delete R (dd_assets v)\<rparr>)"
    and R: "\<And>a. R a \<Longrightarrow> unused_asset (tx_now clk) v a"
  have su: "good_change clk s u" unfolding u by (rule delete_snapshots_good[OF i])
  then have uv: "good_change clk u v" unfolding v by (intro delete_datasets_good) simp
  then have "good_change clk v t" unfolding t using R unused_asset_free by (intro delete_assets_good) blast+
  with su uv show "good_change clk s t" using good_trans by blast
qed

lemma has_owner_user: "has_owner db w \<longleftrightarrow> (\<exists>u. owner_user db w u)"
  by (cases w) auto

lemma owner_user_exists: "tables_ok db \<Longrightarrow> owner_user db w u \<Longrightarrow> has_user db u"
  by (cases w) (auto simp: tables_ok_split keys_ok_def caption_keys_ok_def)

lemma data_user_deleted_good:
  assumes i: "data_inv (tx_now clk) s"
  shows "good_change clk s (data_user_deleted uid s)"
proof -
  define r where "r = s\<lparr>dd_users := filter (\<lambda>u. du_id u \<noteq> uid) (dd_users s)\<rparr>"
  have p: "pruned s r" unfolding r_def by (rule prunedI(5)[OF refl])
  have "spared s (cascade r)"
    unfolding spared_def
  proof (intro allI impI)
    fix w k assume ref: "(w, k) \<in> set (dd_refs s)" and o: "has_owner (cascade r) w"
    then obtain a where a: "a \<in> set (dd_assets s)" "la_id a = k"
      using i unfolding data_inv_def tables_ok_def list_all_iff ref_ok_def by fastforce
    obtain u where u: "owner_user (cascade r) w u" using o by (auto simp: has_owner_user)
    then have "owner_user s w u" using smaller_owner[OF pruned_smaller[OF p]] by blast
    with a ref i have eq: "la_user a = u" unfolding data_inv_def own_refs_def by blast
    have "has_user r u" using u cascade_keys[of r]
      by (cases w) (auto simp: keys_ok_def cascade_snapshots cascade_captions caption_keys_ok_def)
    with a eq show "has_asset (cascade r) k" by (auto simp: r_def)
  qed
  from deletion_good[OF p this i] show ?thesis by (simp add: data_user_deleted_def r_def)
qed

section \<open>Datasets and their images\<close>

lemma same_refs_set:
  "(\<And>a. (w, a) \<in> set (dd_refs t) \<longleftrightarrow> (w, a) \<in> set (dd_refs s)) \<Longrightarrow> set (refs_of w t) = set (refs_of w s)"
  by (auto simp: refs_of_set)

lemma asset_data_frame:
  "dd_assets t = dd_assets s \<Longrightarrow> dd_chunks t = dd_chunks s \<Longrightarrow> asset_data t = asset_data s"
  by (rule ext) (simp add: asset_data_def chunks_of_def)

lemma asset_whole_frame: "dd_chunks t = dd_chunks s \<Longrightarrow> asset_whole t = asset_whole s"
  by (rule ext) (simp add: asset_whole_def chunks_of_def)

text \<open>A dataset gets a new revision, and with it other images.\<close>

lemma new_revision_good:
  assumes i: "data_inv (tx_now clk) s" and ok: "tables_ok t"
    and frame: "dd_assets t = dd_assets s" "dd_chunks t = dd_chunks s" "dd_snapshots t = dd_snapshots s"
      "dd_captions t = dd_captions s" "dd_last_revision t = dd_last_revision s + 1"
    and d1: "ld_id d1 = did" "ld_user d1 = uid" "ld_revision d1 = dd_last_revision s + 1"
    and ds: "\<And>d. d \<in> set (dd_datasets t) \<Longrightarrow> d = d1 \<or> d \<in> set (dd_datasets s) \<and> ld_id d \<noteq> did"
    and refs: "\<And>w a. w \<noteq> OfDataset did \<Longrightarrow> (w, a) \<in> set (dd_refs t) \<longleftrightarrow> (w, a) \<in> set (dd_refs s)"
    and own: "\<And>a. a \<in> set (dd_assets s) \<Longrightarrow> (OfDataset did, la_id a) \<in> set (dd_refs t) \<Longrightarrow> la_user a = uid"
    and count: "\<And>u. dataset_count (tx_now clk) u t \<le> max_datasets"
  shows "good_change clk s t"
proof -
  have kept: "same_images s t w" if "w \<noteq> OfDataset did" for w
    using same_refs_set[of w t s] refs[OF that] by (simp add: same_images_def asset_data_frame[OF frame(1,2)])
  have rs: "set (refs_of w t) = set (refs_of w s)" if "w \<noteq> OfDataset did" for w
    by (rule same_refs_set) (rule refs[OF that])
  have old: "ld_revision d \<le> dd_last_revision s" if "d \<in> set (dd_datasets s)" for d
    using i that by (simp add: data_inv_def revisions_ok_def)
  have olds: "sp_revision q \<le> dd_last_revision s" if "q \<in> set (dd_snapshots s)" for q
    using i that by (simp add: data_inv_def revisions_ok_def)
  have "revisions_ok t"
    unfolding revisions_ok_def frame
  proof (intro conjI ballI impI)
    fix d assume "d \<in> set (dd_datasets t)"
    with ds[OF this] old d1 show "ld_revision d \<le> dd_last_revision s + 1" by force
  next
    fix q assume "q \<in> set (dd_snapshots s)"
    with olds show "sp_revision q \<le> dd_last_revision s + 1" by force
  next
    fix q d assume q: "q \<in> set (dd_snapshots s)" and d: "d \<in> set (dd_datasets t)"
      and e: "sp_dataset q = Some (ld_id d)" "sp_revision q = ld_revision d"
    from olds[OF q] e(2) d1(3) ds[OF d] have "d \<in> set (dd_datasets s)" "ld_id d \<noteq> did" by auto
    moreover from this i q e have
      "set (refs_of (OfSnapshot (sp_id q)) s) = set (refs_of (OfDataset (ld_id d)) s)"
      unfolding data_inv_def revisions_ok_def by blast
    ultimately show "set (refs_of (OfSnapshot (sp_id q)) t) = set (refs_of (OfDataset (ld_id d)) t)"
      using rs by simp
  qed
  moreover have "own_refs t"
    unfolding own_refs_def frame
  proof (intro ballI allI impI)
    fix a w u assume a: "a \<in> set (dd_assets s)" and r: "(w, la_id a) \<in> set (dd_refs t)" and o: "owner_user t w u"
    show "la_user a = u"
    proof (cases "w = OfDataset did")
      case True
      with o ds d1 have "u = uid" by auto
      with own a r True show ?thesis by simp
    next
      case False
      have "owner_user s w u"
      proof (cases w)
        case (OfDataset k)
        with o obtain x where "x \<in> set (dd_datasets t)" "ld_id x = k" "ld_user x = u" by auto
        with ds[OF this(1)] False d1(1) OfDataset show ?thesis by auto
      qed (use o frame in auto)
      with i a r refs[OF False] show ?thesis unfolding data_inv_def own_refs_def by blast
    qed
  qed
  moreover have "within_quotas (tx_now clk) t"
    using i count by (simp add: data_inv_def within_quotas_def storage_bytes_def snapshot_count_def
        pending_captions_def saved_captions_def frame)
  moreover have "captions_ok t" using i by (simp add: data_inv_def captions_ok_def frame)
  ultimately have "data_inv (tx_now clk) t"
    using i ok by (simp add: data_inv_def frame asset_whole_frame[OF frame(2)])
  moreover have "images_kept UNIV s t"
    unfolding images_kept_def frame
  proof (intro conjI ballI)
    fix d assume d: "d \<in> set (dd_datasets t)"
    show "dd_last_revision s < ld_revision d \<or> d \<in> set (dd_datasets s) \<and> same_images s t (OfDataset (ld_id d))"
      using ds[OF d] d1 kept[of "OfDataset (ld_id d)"] by auto
  next
    fix q assume "q \<in> set (dd_snapshots s)"
    then show "sp_id q \<notin> UNIV \<or> (\<exists>p\<in>set (dd_snapshots s). same_snapshot p q) \<and> same_images s t (OfSnapshot (sp_id q))"
      using kept[of "OfSnapshot (sp_id q)"] by (auto simp: same_snapshot_def)
  qed simp
  ultimately show ?thesis by blast
qed

lemma asset_free_dataset: "tables_ok s \<Longrightarrow> \<not> has_dataset s did \<Longrightarrow> (OfDataset did, a) \<notin> set (dd_refs s)"
  unfolding tables_ok_split keys_ok_def ref_ok_def by fastforce

lemma inserted_dataset:
  assumes "insert_dataset d s = Inr t"
  shows "t = s\<lparr>dd_datasets := dd_datasets s @ [d], dd_last_revision := ld_revision d\<rparr>" "tables_ok t"
    "\<not> has_dataset s (ld_id d)" "e \<in> set (dd_datasets s) \<Longrightarrow> ld_id e \<noteq> ld_id d"
proof -
  have ok: "tables_ok t" and t: "t = s\<lparr>dd_datasets := dd_datasets s @ [d], dd_last_revision := ld_revision d\<rparr>"
    using assms by (simp_all add: insert_dataset_def)
  then show "t = s\<lparr>dd_datasets := dd_datasets s @ [d], dd_last_revision := ld_revision d\<rparr>" "tables_ok t" by simp_all
  show new: "\<not> has_dataset s (ld_id d)"
    using ok unfolding t tables_ok_split columns_ok_def by (simp add: unique_key_append)
  show "ld_id e \<noteq> ld_id d" if "e \<in> set (dd_datasets s)"
    using new that by (metis imageI)
qed

lemma count_one_more:
  "sql_count P xs < n \<Longrightarrow> sql_count P (xs @ [x]) \<le> n"
  by (simp add: sql_count_append)

lemma live_other: "u \<noteq> ld_user d \<Longrightarrow> \<not> live_dataset now u d"
  by (simp add: live_dataset_def)

lemma count_inserted:
  assumes "data_inv (tx_now clk) s" "sql_count (live_dataset (tx_now clk) uid) (dd_datasets s) < max_datasets"
    "ld_user d = uid" "dd_datasets t = dd_datasets s @ [d]"
  shows "dataset_count (tx_now clk) u t \<le> max_datasets"
proof (cases "u = uid")
  case True
  with assms count_one_more show ?thesis by (simp add: dataset_count_def)
next
  case False
  with assms(3) live_other have "\<not> live_dataset (tx_now clk) u d" by blast
  with assms(1,4) show ?thesis by (simp add: dataset_count_def sql_count_append data_inv_def within_quotas_def)
qed

lemma create_lora_dataset_good:
  assumes c: "create_lora_dataset clk uid did name manifest s = Inr (d, t)" and i: "data_inv (tx_now clk) s"
  shows "good_change clk s t"
proof -
  define n where "n = new_dataset clk uid did name manifest 0 0 s"
  have "t = s \<or> insert_dataset n s = Inr t \<and> sql_count (live_dataset (tx_now clk) uid) (dd_datasets s) < max_datasets"
    using c unfolding create_lora_dataset_def Let_def n_def
    by (auto simp: res_bind_Inr split: option.splits if_splits)
  then show ?thesis
  proof
    assume "t = s" with i show ?thesis by simp
  next
    assume h: "insert_dataset n s = Inr t \<and> sql_count (live_dataset (tx_now clk) uid) (dd_datasets s) < max_datasets"
    note t = inserted_dataset[OF conjunct1[OF h]]
    have n: "ld_id n = did" "ld_user n = uid" "ld_revision n = dd_last_revision s + 1"
      by (simp_all add: n_def new_dataset_def)
    show ?thesis
    proof (rule new_revision_good[OF i t(2) _ _ _ _ _ n])
      show "d = n \<or> d \<in> set (dd_datasets s) \<and> ld_id d \<noteq> did" if "d \<in> set (dd_datasets t)" for d
        using that t(1,4) n by auto
      show "la_user a = uid" if "(OfDataset did, la_id a) \<in> set (dd_refs t)" for a
        using that asset_free_dataset[OF data_inv_tables[OF i]] t n by simp
      show "dataset_count (tx_now clk) u t \<le> max_datasets" for u
        by (rule count_inserted[OF i conjunct2[OF h] n(2)]) (simp add: t(1))
    qed (simp_all add: t(1) n)
  qed
qed

lemma restore_snapshot_good:
  assumes r: "restore_lora_snapshot clk uid sid did s = Inr (d, t)" and i: "data_inv (tx_now clk) s"
  shows "good_change clk s t"
proof -
  obtain p v where p: "find_snapshot uid sid s = Some p"
    and few: "sql_count (live_dataset (tx_now clk) uid) (dd_datasets s) < max_datasets"
    and v: "insert_dataset (new_dataset clk uid did (sp_name p) (sp_manifest p) (sp_images p) (sp_bytes p) s) s = Inr v"
    and t: "tables_ok t" "t = v\<lparr>dd_refs := dd_refs v @ map (Pair (OfDataset did)) (refs_of (OfSnapshot sid) v)\<rparr>"
    using r unfolding restore_lora_snapshot_def Let_def
    by (auto simp: res_bind_Inr split: option.splits if_splits)
  define n where "n = new_dataset clk uid did (sp_name p) (sp_manifest p) (sp_images p) (sp_bytes p) s"
  note v' = inserted_dataset[OF v[folded n_def]]
  have n: "ld_id n = did" "ld_user n = uid" "ld_revision n = dd_last_revision s + 1"
    by (simp_all add: n_def new_dataset_def)
  have p': "p \<in> set (dd_snapshots s)" "sp_id p = sid" "sp_user p = uid"
    using sql_find_Some[OF p[unfolded find_snapshot_def]] by auto
  show ?thesis
  proof (rule new_revision_good[OF i t(1) _ _ _ _ _ n])
    show "d = n \<or> d \<in> set (dd_datasets s) \<and> ld_id d \<noteq> did" if "d \<in> set (dd_datasets t)" for d
      using that t(2) v'(1,4) n by auto
    show "(w, a) \<in> set (dd_refs t) \<longleftrightarrow> (w, a) \<in> set (dd_refs s)" if "w \<noteq> OfDataset did" for w a
      using that t(2) v'(1) by auto
    show "la_user a = uid" if a: "a \<in> set (dd_assets s)" "(OfDataset did, la_id a) \<in> set (dd_refs t)" for a
    proof -
      have "(OfSnapshot sid, la_id a) \<in> set (dd_refs s)"
        using a(2) t(2) v' n asset_free_dataset[OF data_inv_tables[OF i], of did "la_id a"]
        by (auto simp: refs_of_set)
      moreover have "owner_user s (OfSnapshot sid) uid" using p' by auto
      ultimately show ?thesis using i a(1) unfolding data_inv_def own_refs_def by blast
    qed
    show "dataset_count (tx_now clk) u t \<le> max_datasets" for u
      by (rule count_inserted[OF i few n(2)]) (simp add: t(2) v'(1))
  qed (simp_all add: t(2) v'(1) n)
qed

lemma total_size_mem:
  "total_size sizes as = Some n \<Longrightarrow> a \<in> set as \<Longrightarrow> sizes a \<noteq> None"
  by (induction as arbitrary: n) (auto split: option.splits)

lemma asset_size_owner:
  assumes "tables_ok s" "asset_size uid s (la_id a) \<noteq> None" "a \<in> set (dd_assets s)"
  shows "la_user a = uid"
proof -
  obtain b where "sql_find (\<lambda>x. la_user x = uid \<and> la_id x = la_id a) (dd_assets s) = Some b"
    using assms(2) by (auto simp: asset_size_def)
  from sql_find_Some[OF this] have "b \<in> set (dd_assets s)" "la_user b = uid" "la_id b = la_id a" by auto
  with unique_keyD[OF tables_asset_ids[OF assms(1)] _ assms(3)] show ?thesis by auto
qed

lemma tables_dataset_ids: "tables_ok db \<Longrightarrow> unique_key ld_id (dd_datasets db)"
  by (simp add: tables_ok_def)

lemma find_dataset_Some:
  "find_dataset now uid did db = Some d \<Longrightarrow>
     d \<in> set (dd_datasets db) \<and> ld_id d = did \<and> ld_user d = uid \<and> now < ld_expires d"
  unfolding find_dataset_def by (drule sql_find_Some) (auto simp: live_dataset_def)

lemma thirty_days_pos [simp]: "0 < thirty_days"
  by (simp add: thirty_days_def usec_def)

text \<open>A save in one piece: the row that was found, with its new columns, and its references.\<close>

lemma saved_dataset:
  assumes "save_lora_dataset clk uid did expected name manifest as s = Inr (d1, t)"
  obtains d bytes where "find_dataset (tx_now clk) uid did s = Some d" "ld_revision d = expected"
    "total_size (asset_size uid s) as = Some bytes" "bytes \<le> max_dataset_bytes" "length as \<le> max_dataset_images"
    "d1 = d\<lparr>ld_name := name, ld_manifest := manifest, ld_images := int (length as),
              ld_bytes := bytes, ld_revision := dd_last_revision s + 1,
              ld_updated := tx_now clk, ld_expires := tx_now clk + thirty_days\<rparr>"
    "tables_ok t"
    "t = s\<lparr>dd_datasets := sql_update (\<lambda>e. ld_id e = did \<and> ld_user e = uid) (\<lambda>e. d1) (dd_datasets s),
           dd_last_revision := dd_last_revision s + 1,
           dd_refs := filter (\<lambda>r. fst r \<noteq> OfDataset did) (dd_refs s) @ map (Pair (OfDataset did)) (remdups as)\<rparr>"
  using assms unfolding save_lora_dataset_def set_refs_def Let_def
  by (auto simp: res_bind_Inr not_less split: option.splits if_splits)

lemma save_lora_dataset_good:
  assumes c: "save_lora_dataset clk uid did expected name manifest as s = Inr (d1, t)"
    and i: "data_inv (tx_now clk) s"
  shows "good_change clk s t"
proof -
  obtain d bytes where d: "find_dataset (tx_now clk) uid did s = Some d"
    and sz: "total_size (asset_size uid s) as = Some bytes"
    and d1: "d1 = d\<lparr>ld_name := name, ld_manifest := manifest, ld_images := int (length as),
              ld_bytes := bytes, ld_revision := dd_last_revision s + 1,
              ld_updated := tx_now clk, ld_expires := tx_now clk + thirty_days\<rparr>"
    and ok: "tables_ok t"
    and t: "t = s\<lparr>dd_datasets := sql_update (\<lambda>e. ld_id e = did \<and> ld_user e = uid) (\<lambda>e. d1) (dd_datasets s),
           dd_last_revision := dd_last_revision s + 1,
           dd_refs := filter (\<lambda>r. fst r \<noteq> OfDataset did) (dd_refs s) @ map (Pair (OfDataset did)) (remdups as)\<rparr>"
    by (rule saved_dataset[OF c])
  note f = find_dataset_Some[OF d]
  have only: "e = d" if "e \<in> set (dd_datasets s)" "ld_id e = did" for e
    by (rule unique_keyD[OF tables_dataset_ids[OF data_inv_tables[OF i]] that(1)]) (simp_all add: f that(2))
  have n: "ld_id d1 = did" "ld_user d1 = uid" "ld_revision d1 = dd_last_revision s + 1"
    using f by (simp_all add: d1)
  have ds: "dd_datasets t = sql_update (\<lambda>e. ld_id e = did \<and> ld_user e = uid) (\<lambda>e. d1) (dd_datasets s)"
    by (simp add: t)
  show ?thesis
  proof (rule new_revision_good[OF i ok _ _ _ _ _ n])
    show "e = d1 \<or> e \<in> set (dd_datasets s) \<and> ld_id e \<noteq> did" if "e \<in> set (dd_datasets t)" for e
    proof -
      from that have "e \<in> set (sql_update (\<lambda>e. ld_id e = did \<and> ld_user e = uid) (\<lambda>e. d1) (dd_datasets s))"
        by (simp add: t)
      then show ?thesis
      proof (cases rule: in_sql_updateE)
        case same
        with only[OF same(1)] f have "ld_id e \<noteq> did" by blast
        with same show ?thesis by simp
      qed simp
    qed
    show "la_user a = uid" if "a \<in> set (dd_assets s)" "(OfDataset did, la_id a) \<in> set (dd_refs t)" for a
      using that asset_size_owner[OF data_inv_tables[OF i] total_size_mem[OF sz]] by (auto simp: t)
    show "dataset_count (tx_now clk) u t \<le> max_datasets" for u
    proof -
      have "dataset_count (tx_now clk) u t = dataset_count (tx_now clk) u s"
        unfolding dataset_count_def ds
      proof (rule sql_count_update_same)
        fix e assume "e \<in> set (dd_datasets s)" "ld_id e = did \<and> ld_user e = uid"
        with only have "e = d" by simp
        with f show "live_dataset (tx_now clk) u d1 = live_dataset (tx_now clk) u e"
          by (simp add: live_dataset_def d1)
      qed
      with i show ?thesis by (simp add: data_inv_def within_quotas_def)
    qed
  qed (auto simp: t n)
qed

section \<open>Assets\<close>

lemma insert_chunks_Inr:
  assumes "insert_chunks aid limit index got cs s = Inr (read, t)"
  shows "\<exists>new. t = s\<lparr>dd_chunks := dd_chunks s @ new\<rparr> \<and> (\<forall>c\<in>set new. ac_asset c = aid) \<and>
     consecutive index new \<and> sum_list (map ac_size new) = read - got \<and> (new \<noteq> [] \<longrightarrow> tables_ok t)"
  using assms
proof (induction aid limit index got cs s rule: insert_chunks.induct)
  case (1 aid limit index got s)
  then show ?case by (intro exI[of _ "[]"]) simp
next
  case (3 aid limit index got cipher n cs s)
  define c where "c = \<lparr>ac_asset = aid, ac_index = index, ac_size = n, ac_payload = cipher\<rparr>"
  define v where "v = s\<lparr>dd_chunks := dd_chunks s @ [c]\<rparr>"
  from "3.prems" have ok: "tables_ok v" and r: "insert_chunks aid limit (index + 1) (got + n) cs v = Inr (read, t)"
    and g: "\<not> (n \<le> 0 \<or> 1048576 < n \<or> limit < got + n)"
    by (auto simp: res_bind_Inr c_def v_def split: if_splits)
  from "3.IH"[OF g r] obtain new where new: "t = v\<lparr>dd_chunks := dd_chunks v @ new\<rparr>"
    "\<forall>c\<in>set new. ac_asset c = aid" "consecutive (index + 1) new"
    "sum_list (map ac_size new) = read - (got + n)" "new \<noteq> [] \<longrightarrow> tables_ok t" by blast
  have "t = v" if "new = []" using that new(1) by (simp add: v_def)
  with new ok show ?case by (intro exI[of _ "c # new"]) (auto simp: v_def c_def)
qed simp

lemma tables_asset_owner: "tables_ok db \<Longrightarrow> (w, k) \<in> set (dd_refs db) \<Longrightarrow> has_asset db k"
  unfolding tables_ok_split keys_ok_def ref_ok_def by fastforce

lemma key_image_update: "(\<And>r. key (f r) = key r) \<Longrightarrow> key ` set (sql_update P f rs) = key ` set rs"
  by (induction rs) auto

lemma asset_touched_good:
  assumes i: "data_inv (tx_now clk) s"
  shows "good_change clk s (s\<lparr>dd_assets := sql_update P (\<lambda>a. a\<lparr>la_last_used := now\<rparr>) (dd_assets s)\<rparr>)"
proof -
  let ?f = "\<lambda>a. a\<lparr>la_last_used := now\<rparr>"
  define t where "t = s\<lparr>dd_assets := sql_update P ?f (dd_assets s)\<rparr>"
  have ids: "la_id ` set (dd_assets t) = la_id ` set (dd_assets s)"
    by (simp add: t_def key_image_update)
  have row: "\<exists>b\<in>set (dd_assets s). a = b \<or> a = ?f b" if "a \<in> set (dd_assets t)" for a
    using that by (auto simp: t_def set_sql_update)
  have uniq: "no_conflicts asset_conflict (dd_assets t)"
    unfolding t_def data_db.simps
    by (simp, rule no_conflicts_update_shrink)
      (use i in \<open>auto simp: data_inv_def tables_ok_def asset_conflict_def split: if_splits\<close>)
  have "asset_row_ok a \<and> has_user t (la_user a)" if a: "a \<in> set (dd_assets t)" for a
  proof -
    obtain b where b: "b \<in> set (dd_assets s)" "a = b \<or> a = ?f b" using row[OF a] by blast
    then have "asset_row_ok b" "has_user s (la_user b)"
      using i unfolding data_inv_def tables_ok_def list_all_iff by blast+
    with b(2) show ?thesis by (elim disjE) (simp_all add: asset_row_ok_def t_def)
  qed
  moreover have "caption_keys_ok t = caption_keys_ok s"
    by (rule ext) (simp add: caption_keys_ok_def ids, simp add: t_def)
  moreover have "has_owner t w = has_owner s w" for w
    by (rule has_owner_cong) (simp_all add: t_def)
  then have "ref_ok t = ref_ok s" by (intro ext) (simp add: ref_ok_def ids)
  ultimately have ok: "tables_ok t"
    using i uniq unfolding data_inv_def tables_ok_def ids list_all_iff by (simp add: t_def)
  have sizes: "storage_bytes u t = storage_bytes u s" for u
    unfolding storage_bytes_def t_def by (simp add: sql_update_def filter_map comp_def if_distrib cong: if_cong filter_cong)
  have "asset_data t k = asset_data s k" for k
    unfolding asset_data_def chunks_of_def t_def
    by (simp add: sql_update_def filter_map comp_def if_distrib cong: if_cong filter_cong)
  then have kept: "images_kept UNIV s t"
    by (auto simp: images_kept_def same_images_def t_def refs_of_def same_snapshot_def)
  have "own_refs t"
    using i row unfolding data_inv_def own_refs_def
  proof (intro ballI allI impI)
    fix a w u assume "a \<in> set (dd_assets t)" "(w, la_id a) \<in> set (dd_refs t)" "owner_user t w u"
    moreover have "owner_user t w u = owner_user s w u" by (cases w) (simp_all add: t_def)
    moreover obtain b where "b \<in> set (dd_assets s)" "a = b \<or> a = ?f b" using row calculation(1) by blast
    moreover have "dd_refs t = dd_refs s" by (simp add: t_def)
    ultimately show "la_user a = u" using i unfolding data_inv_def own_refs_def by fastforce
  qed
  moreover have "asset_whole t a" if "a \<in> set (dd_assets t)" for a
    using row[OF that] i by (auto simp: data_inv_def asset_whole_def chunks_of_def t_def)
  moreover have "within_quotas (tx_now clk) t"
    using i unfolding data_inv_def within_quotas_def sizes
    by (simp add: snapshot_count_def dataset_count_def pending_captions_def saved_captions_def t_def)
  moreover have "revisions_ok t" "captions_ok t"
    using i by (simp_all add: data_inv_def revisions_ok_def captions_ok_def refs_of_def t_def)
  ultimately show ?thesis using ok kept by (simp add: data_inv_def t_def)
qed

lemma asset_added_good:
  assumes i: "data_inv (tx_now clk) s" and ok: "tables_ok t"
    and t: "t = s\<lparr>dd_assets := dd_assets s @ [a], dd_chunks := dd_chunks s @ new\<rparr>"
    and new: "\<forall>c\<in>set new. ac_asset c = la_id a" "consecutive 0 new" "sum_list (map ac_size new) = la_size a"
    and room: "storage_bytes (la_user a) s + la_size a \<le> max_user_bytes"
  shows "good_change clk s t"
proof -
  have fresh: "la_id b \<noteq> la_id a" if "b \<in> set (dd_assets s)" for b
    using tables_asset_ids[OF ok] that by (auto simp: t unique_key_append intro: rev_image_eqI)
  have nochunk: "chunks_of (la_id a) s = []"
    using i fresh unfolding data_inv_def tables_ok_split keys_ok_def chunks_of_def
    by (fastforce simp: filter_empty_conv)
  have old: "chunks_of k t = chunks_of k s" if "k \<noteq> la_id a" for k
    using that new(1) by (auto simp: chunks_of_def t filter_empty_conv)
  have mine: "chunks_of (la_id a) t = new"
    using nochunk new(1) by (auto simp: chunks_of_def t filter_id_conv)
  have "asset_whole t b" if "b \<in> set (dd_assets t)" for b
  proof (cases "b = a")
    case True
    with new mine show ?thesis by (simp add: asset_whole_def)
  next
    case False
    with that have b: "b \<in> set (dd_assets s)" by (simp add: t)
    with i old[OF fresh[OF b]] show ?thesis by (simp add: data_inv_def asset_whole_def)
  qed
  moreover have noref: "(w, la_id a) \<notin> set (dd_refs s)" for w
    using tables_asset_owner[OF data_inv_tables[OF i]] fresh by fastforce
  have "own_refs t"
    unfolding own_refs_def
  proof (intro ballI allI impI)
    fix b w u assume b: "b \<in> set (dd_assets t)" and r: "(w, la_id b) \<in> set (dd_refs t)" and o: "owner_user t w u"
    have "owner_user s w u" using o by (cases w) (auto simp: t)
    moreover have "b \<in> set (dd_assets s)" using b r noref by (auto simp: t)
    ultimately show "la_user b = u" using i r unfolding data_inv_def own_refs_def by (simp add: t)
  qed
  moreover have "storage_bytes u t \<le> max_user_bytes" for u
    using i room by (auto simp: data_inv_def within_quotas_def storage_bytes_def t)
  moreover have "revisions_ok t" "captions_ok t"
    using i by (simp_all add: data_inv_def revisions_ok_def captions_ok_def t refs_of_def)
  ultimately have "data_inv (tx_now clk) t"
    using i ok by (simp add: data_inv_def within_quotas_def snapshot_count_def dataset_count_def
        pending_captions_def saved_captions_def t)
  moreover have "asset_data t k = asset_data s k" if "(w, k) \<in> set (dd_refs s)" for w k
  proof -
    have "k \<noteq> la_id a" using that noref by blast
    then show ?thesis by (simp add: asset_data_def old, simp add: t)
  qed
  then have "same_images s t w" for w
    by (auto simp: same_images_def refs_of_set) (simp_all add: refs_of_def t)
  then have "images_kept UNIV s t"
    by (auto simp: images_kept_def t same_snapshot_def)
  ultimately show ?thesis by blast
qed

lemma insert_lora_asset_good:
  assumes c: "insert_lora_asset clk asset chunks s = Inr (a, t)" and i: "data_inv (tx_now clk) s"
  shows "good_change clk s t"
proof -
  define same where "same = (\<lambda>a :: lora_asset. la_user a = la_user asset \<and> la_hash a = la_hash asset)"
  show ?thesis
  proof (cases "sql_find same (dd_assets s)")
    case (Some b)
    with c have "t = s\<lparr>dd_assets := sql_update same (\<lambda>a. a\<lparr>la_last_used := tx_now clk\<rparr>) (dd_assets s)\<rparr>"
      by (auto simp: insert_lora_asset_def Let_def res_bind_Inr same_def)
    with asset_touched_good[OF i] show ?thesis by simp
  next
    case None
    define a1 where "a1 = asset\<lparr>la_created := tx_now clk, la_last_used := tx_now clk\<rparr>"
    from None c obtain read v where q: "storage_bytes (la_user asset) s + la_size asset \<le> max_user_bytes"
      and v: "tables_ok v" "v = s\<lparr>dd_assets := dd_assets s @ [a1]\<rparr>"
      and r: "insert_chunks (la_id a1) (la_size a1) 0 0 chunks v = Inr (read, t)" "read = la_size a1"
      by (auto simp: insert_lora_asset_def Let_def res_bind_Inr same_def a1_def not_less split: if_splits)
    from insert_chunks_Inr[OF r(1)] obtain new where n: "t = v\<lparr>dd_chunks := dd_chunks v @ new\<rparr>"
      "\<forall>c\<in>set new. ac_asset c = la_id a1" "consecutive 0 new" "sum_list (map ac_size new) = read - 0"
      "new \<noteq> [] \<longrightarrow> tables_ok t" by blast
    have "tables_ok t" using n(1,5) v by (cases "new = []") simp_all
    then show ?thesis
      by (rule asset_added_good[OF i _ _ n(2,3)]) (use n v r(2) q in \<open>simp_all add: a1_def\<close>)
  qed
qed

section \<open>Snapshots\<close>

lemma tables_snapshot_ids: "tables_ok db \<Longrightarrow> unique_key sp_id (dd_snapshots db)"
  by (rule no_conflicts_unique_key[of snapshot_conflict]) (simp_all add: tables_ok_def snapshot_conflict_def)

lemma snapshot_extended_good:
  assumes i: "data_inv (tx_now clk) s" and ok: "tables_ok t"
    and t: "t = s\<lparr>dd_snapshots := sql_update P (\<lambda>q. q\<lparr>sp_expires := e\<rparr>) (dd_snapshots s)\<rparr>"
  shows "good_change clk s t"
proof -
  have row: "\<exists>p\<in>set (dd_snapshots s). q = p \<or> q = p\<lparr>sp_expires := e\<rparr>" if "q \<in> set (dd_snapshots t)" for q
    using that by (auto simp: t set_sql_update)
  have same: "same_images s t w" for w
    by (simp add: same_images_def refs_of_def t asset_data_def chunks_of_def)
  have "own_refs t"
    unfolding own_refs_def
  proof (intro ballI allI impI)
    fix a w u assume a: "a \<in> set (dd_assets t)" "(w, la_id a) \<in> set (dd_refs t)" and o: "owner_user t w u"
    have "owner_user s w u"
    proof (cases w)
      case (OfSnapshot k)
      with o obtain q where "q \<in> set (dd_snapshots t)" "sp_id q = k" "sp_user q = u" by auto
      with row[OF this(1)] OfSnapshot show ?thesis by auto
    qed (use o in \<open>auto simp: t\<close>)
    with a i show "la_user a = u" unfolding data_inv_def own_refs_def by (simp add: t)
  qed
  moreover have "revisions_ok t"
    unfolding revisions_ok_def
  proof (intro conjI ballI impI)
    fix d assume "d \<in> set (dd_datasets t)"
    with i show "ld_revision d \<le> dd_last_revision t" by (simp add: data_inv_def revisions_ok_def t)
  next
    fix q assume "q \<in> set (dd_snapshots t)"
    with row[OF this] i show "sp_revision q \<le> dd_last_revision t" by (auto simp: data_inv_def revisions_ok_def t)
  next
    fix q d assume "q \<in> set (dd_snapshots t)" "d \<in> set (dd_datasets t)" "sp_dataset q = Some (ld_id d)" "sp_revision q = ld_revision d"
    with row[of q] obtain p where "p \<in> set (dd_snapshots s)" "d \<in> set (dd_datasets s)" "sp_dataset p = Some (ld_id d)"
      "sp_revision p = ld_revision d" "sp_id p = sp_id q" by (auto simp: t)
    then have "set (refs_of (OfSnapshot (sp_id q)) s) = set (refs_of (OfDataset (ld_id d)) s)"
      using i unfolding data_inv_def revisions_ok_def by metis
    then show "set (refs_of (OfSnapshot (sp_id q)) t) = set (refs_of (OfDataset (ld_id d)) t)"
      by (simp add: refs_of_def t)
  qed
  moreover have "snapshot_count u t = snapshot_count u s" for u
    by (simp add: snapshot_count_def t sql_count_update_same)
  then have "within_quotas (tx_now clk) t"
    using i unfolding data_inv_def within_quotas_def
    by (simp add: storage_bytes_def dataset_count_def pending_captions_def saved_captions_def t)
  moreover have "\<forall>a\<in>set (dd_assets t). asset_whole t a" "captions_ok t"
    using i by (simp_all add: data_inv_def asset_whole_def chunks_of_def captions_ok_def t)
  moreover have "\<exists>p\<in>set (dd_snapshots s). same_snapshot p q" if "q \<in> set (dd_snapshots t)" for q
    using row[OF that] by (auto simp: same_snapshot_def)
  then have "images_kept UNIV s t"
    using same by (simp add: images_kept_def) (simp add: t)
  ultimately show ?thesis using ok by (simp add: data_inv_def)
qed

lemma snapshot_added_good:
  assumes i: "data_inv (tx_now clk) s" and ok: "tables_ok t"
    and t: "t = s\<lparr>dd_snapshots := dd_snapshots s @ [p], dd_refs := dd_refs s @ new\<rparr>"
    and fresh: "\<not> has_snapshot s (sp_id p)"
    and d: "d \<in> set (dd_datasets s)" "sp_dataset p = Some (ld_id d)" "sp_revision p = ld_revision d" "sp_user p = ld_user d"
    and new: "set new = Pair (OfSnapshot (sp_id p)) ` set (refs_of (OfDataset (ld_id d)) s)"
    and count: "snapshot_count (sp_user p) s < max_snapshots"
    and ids: "sp_id p \<notin> ids"
  shows "data_inv (tx_now clk) t \<and> images_kept ids s t"
proof -
  have tabs: "tables_ok s" using i by (simp add: data_inv_def)
  have noref: "(OfSnapshot (sp_id p), a) \<notin> set (dd_refs s)" for a
    using tabs fresh unfolding tables_ok_split keys_ok_def ref_ok_def by fastforce
  have other: "set (refs_of w t) = set (refs_of w s)" if "w \<noteq> OfSnapshot (sp_id p)" for w
    using that new by (auto simp: refs_of_set t)
  have mine: "set (refs_of (OfSnapshot (sp_id p)) t) = set (refs_of (OfDataset (ld_id d)) s)"
    using noref new by (auto simp: refs_of_set t)
  have same: "same_images s t w" if "w \<noteq> OfSnapshot (sp_id p)" for w
    using other[OF that] by (simp add: same_images_def asset_data_def chunks_of_def t)
  have "revisions_ok t"
    unfolding revisions_ok_def
  proof (intro conjI ballI impI)
    fix e assume "e \<in> set (dd_datasets t)"
    with i show "ld_revision e \<le> dd_last_revision t" by (simp add: data_inv_def revisions_ok_def t)
  next
    fix q assume "q \<in> set (dd_snapshots t)"
    with i d show "sp_revision q \<le> dd_last_revision t" by (auto simp: data_inv_def revisions_ok_def t)
  next
    fix q e assume q: "q \<in> set (dd_snapshots t)" and e: "e \<in> set (dd_datasets t)"
      and eq: "sp_dataset q = Some (ld_id e)" "sp_revision q = ld_revision e"
    show "set (refs_of (OfSnapshot (sp_id q)) t) = set (refs_of (OfDataset (ld_id e)) t)"
    proof (cases "q = p")
      case True
      with eq d have "ld_id e = ld_id d" by simp
      with True mine other[of "OfDataset (ld_id d)"] show ?thesis by simp
    next
      case False
      with q have q': "q \<in> set (dd_snapshots s)" by (simp add: t)
      then have "sp_id q \<noteq> sp_id p" using fresh by (metis imageI)
      then have "set (refs_of (OfSnapshot (sp_id q)) t) = set (refs_of (OfSnapshot (sp_id q)) s)" by (simp add: other)
      also have "\<dots> = set (refs_of (OfDataset (ld_id e)) s)"
        using i q' e eq unfolding data_inv_def revisions_ok_def by (simp add: t)
      finally show ?thesis by (simp add: other)
    qed
  qed
  moreover have "own_refs t"
    unfolding own_refs_def
  proof (intro ballI allI impI)
    fix a w u assume a: "a \<in> set (dd_assets t)" and r: "(w, la_id a) \<in> set (dd_refs t)" and o: "owner_user t w u"
    have a': "a \<in> set (dd_assets s)" using a by (simp add: t)
    show "la_user a = u"
    proof (cases "w = OfSnapshot (sp_id p)")
      case True
      with r mine have "(OfDataset (ld_id d), la_id a) \<in> set (dd_refs s)" by (auto simp: refs_of_set)
      moreover have "owner_user s (OfDataset (ld_id d)) (ld_user d)" using d(1) by auto
      ultimately have "la_user a = ld_user d" using i a' unfolding data_inv_def own_refs_def by blast
      moreover have "u = sp_user p"
      proof -
        obtain x where "x \<in> set (dd_snapshots t)" "sp_id x = sp_id p" "sp_user x = u" using o True by auto
        moreover have "x = p \<or> x \<in> set (dd_snapshots s)" using calculation(1) by (auto simp: t)
        ultimately show ?thesis using fresh by (metis imageI)
      qed
      ultimately show ?thesis using d(4) by simp
    next
      case False
      with o have "owner_user s w u" by (cases w) (auto simp: t)
      moreover have "(w, la_id a) \<in> set (dd_refs s)" using r other[OF False] by (auto simp: refs_of_set)
      ultimately show ?thesis using i a' unfolding data_inv_def own_refs_def by blast
    qed
  qed
  moreover have "snapshot_count u t \<le> max_snapshots" for u
    using i count by (auto simp: data_inv_def within_quotas_def snapshot_count_def t sql_count_append)
  then have "within_quotas (tx_now clk) t"
    using i unfolding data_inv_def within_quotas_def
    by (simp add: storage_bytes_def dataset_count_def pending_captions_def saved_captions_def t)
  moreover have "\<forall>a\<in>set (dd_assets t). asset_whole t a" "captions_ok t"
    using i by (simp_all add: data_inv_def asset_whole_def chunks_of_def captions_ok_def t)
  moreover have "images_kept ids s t"
    unfolding images_kept_def
  proof (intro conjI ballI)
    show "dd_last_revision s \<le> dd_last_revision t" by (simp add: t)
  next
    fix e assume "e \<in> set (dd_datasets t)"
    then show "dd_last_revision s < ld_revision e \<or> e \<in> set (dd_datasets s) \<and> same_images s t (OfDataset (ld_id e))"
      using same by (simp add: t)
  next
    fix q assume q: "q \<in> set (dd_snapshots t)"
    show "sp_id q \<notin> ids \<or> (\<exists>p\<in>set (dd_snapshots s). same_snapshot p q) \<and> same_images s t (OfSnapshot (sp_id q))"
    proof (cases "q = p")
      case True
      with ids show ?thesis by simp
    next
      case False
      with q have "q \<in> set (dd_snapshots s)" by (simp add: t)
      moreover from this have "sp_id q \<noteq> sp_id p" using fresh by (metis imageI)
      ultimately show ?thesis using same[of "OfSnapshot (sp_id q)"] by (auto simp: same_snapshot_def)
    qed
  qed
  ultimately show ?thesis using ok by (simp add: data_inv_def)
qed

lemma create_snapshot_good:
  assumes c: "create_lora_snapshot clk uid did revision sid hash s = Inr (p, t)"
    and i: "data_inv (tx_now clk) s" and sid: "sid \<notin> ids"
  shows "data_inv (tx_now clk) t \<and> images_kept ids s t"
proof -
  define mine where "mine = filter (\<lambda>q. sp_user q = uid) (dd_snapshots s)"
  from c obtain d n v where d: "find_dataset (tx_now clk) uid did s = Some d" "ld_revision d = revision"
    and room: "list_ex (\<lambda>q. sp_dataset q = Some did \<and> sp_revision q = revision) mine \<or> length mine < max_snapshots"
    and n: "n = \<lparr>sp_id = sid, sp_dataset = Some did, sp_user = uid, sp_name = ld_name d,
                 sp_revision = revision, sp_manifest = ld_manifest d, sp_hash = hash,
                 sp_images = ld_images d, sp_bytes = ld_bytes d, sp_created = tx_now clk,
                 sp_expires = tx_now clk + thirty_days\<rparr>"
    and u: "upsert_snapshot clk n s = Inr (p, v)"
    and r: "add_refs (OfSnapshot (sp_id p)) (refs_of (OfDataset did) v) v = Inr t"
    unfolding create_lora_snapshot_def Let_def mine_def
    by (auto simp: res_bind_Inr not_le split: option.splits if_splits)
  note f = find_dataset_Some[OF d(1)]
  have ok: "tables_ok t" and t: "t = v\<lparr>dd_refs := dd_refs v @ map (Pair (OfSnapshot (sp_id p)))
      (filter (\<lambda>a. (OfSnapshot (sp_id p), a) \<notin> set (dd_refs v)) (refs_of (OfDataset did) v))\<rparr>"
    using r by (simp_all add: add_refs_def)
  define same where "same = (\<lambda>q :: lora_snapshot. sp_dataset q = Some did \<and> sp_revision q = revision)"
  show ?thesis
  proof (cases "sql_find same (dd_snapshots s)")
    case (Some q)
    with u have v: "v = s\<lparr>dd_snapshots := sql_update same (\<lambda>q. q\<lparr>sp_expires := tx_now clk + thirty_days\<rparr>) (dd_snapshots s)\<rparr>"
      and p: "p = q\<lparr>sp_expires := tx_now clk + thirty_days\<rparr>"
      by (auto simp: upsert_snapshot_def Let_def n same_def split: if_splits)
    have "q \<in> set (dd_snapshots s)" "sp_dataset q = Some (ld_id d)" "sp_revision q = ld_revision d"
      using sql_find_Some[OF Some] f d(2) by (simp_all add: same_def)
    then have "set (refs_of (OfSnapshot (sp_id q)) s) = set (refs_of (OfDataset did) s)"
      using i f unfolding data_inv_def revisions_ok_def by blast
    then have "(OfSnapshot (sp_id q), a) \<in> set (dd_refs s)" if "(OfDataset did, a) \<in> set (dd_refs s)" for a
      using that unfolding refs_of_set[symmetric] by simp
    then have "filter (\<lambda>a. (OfSnapshot (sp_id p), a) \<notin> set (dd_refs v)) (refs_of (OfDataset did) v) = []"
      unfolding filter_empty_conv by (simp add: refs_of_set v p)
    with t have "t = v" by simp
    with v have "good_change clk s t" by (intro snapshot_extended_good[OF i ok]) simp
    then show ?thesis using images_kept_mono[of UNIV s t ids] by blast
  next
    case None
    with u have v: "v = s\<lparr>dd_snapshots := dd_snapshots s @ [n]\<rparr>" "tables_ok v" and p: "p = n"
      by (auto simp: upsert_snapshot_def Let_def n same_def res_bind_Inr split: if_splits)
    have fresh: "\<not> has_snapshot s (sp_id n)"
      using tables_snapshot_ids[OF v(2)] by (simp add: v(1) unique_key_append)
    have refs: "refs_of w v = refs_of w s" for w by (simp add: refs_of_def v(1))
    have "(OfSnapshot (sp_id n), a) \<notin> set (dd_refs s)" for a
      using data_inv_tables[OF i] fresh unfolding tables_ok_split keys_ok_def ref_ok_def by fastforce
    then have new: "set (map (Pair (OfSnapshot (sp_id p)))
        (filter (\<lambda>a. (OfSnapshot (sp_id p), a) \<notin> set (dd_refs v)) (refs_of (OfDataset did) v))) =
        Pair (OfSnapshot (sp_id n)) ` set (refs_of (OfDataset (ld_id d)) s)"
      using f by (auto simp: p v(1) refs_of_def)
    have "\<not> list_ex (\<lambda>q. sp_dataset q = Some did \<and> sp_revision q = revision) mine"
      using None by (auto simp: sql_find_None same_def mine_def list_ex_iff)
    with room have count: "snapshot_count (sp_user n) s < max_snapshots"
      by (simp add: snapshot_count_def sql_count_def mine_def n)
    show ?thesis
      by (rule snapshot_added_good[OF i ok _ fresh _ _ _ _ new count])
        (use f sid d(2) v(1) t in \<open>simp_all add: n p\<close>)
  qed
qed

section \<open>Caption jobs\<close>

lemma captions_changed_good:
  assumes i: "data_inv (tx_now clk) s" and ok: "tables_ok t"
    and frame: "dd_datasets t = dd_datasets s" "dd_assets t = dd_assets s" "dd_chunks t = dd_chunks s"
      "dd_snapshots t = dd_snapshots s" "dd_last_revision t = dd_last_revision s"
    and refs: "\<And>w a. (\<And>k. w \<noteq> OfCaption k) \<Longrightarrow> (w, a) \<in> set (dd_refs t) \<longleftrightarrow> (w, a) \<in> set (dd_refs s)"
    and own: "\<And>c a. c \<in> set (dd_captions t) \<Longrightarrow> a \<in> set (dd_assets s) \<Longrightarrow>
      (OfCaption (cj_id c), la_id a) \<in> set (dd_refs t) \<Longrightarrow> la_user a = cj_user c"
    and caps: "captions_ok t"
    and counts: "\<And>u. pending_captions u t \<le> max_caption_pending \<and> saved_captions u t \<le> max_caption_jobs"
  shows "good_change clk s t"
proof -
  have rs: "set (refs_of w t) = set (refs_of w s)" if "\<And>k. w \<noteq> OfCaption k" for w
    by (rule same_refs_set) (rule refs[OF that])
  have same: "same_images s t w" if "\<And>k. w \<noteq> OfCaption k" for w
    using rs[OF that] by (simp add: same_images_def asset_data_frame[OF frame(2,3)])
  have "own_refs t"
    unfolding own_refs_def frame
  proof (intro ballI allI impI)
    fix a w u assume a: "a \<in> set (dd_assets s)" and r: "(w, la_id a) \<in> set (dd_refs t)" and o: "owner_user t w u"
    show "la_user a = u"
    proof (cases w)
      case (OfCaption k)
      with o own[OF _ a] r show ?thesis by auto
    next
      case (OfDataset k)
      with o r have "owner_user s w u" "(w, la_id a) \<in> set (dd_refs s)" using refs[of w "la_id a"] by (auto simp: frame)
      with i a show ?thesis unfolding data_inv_def own_refs_def by blast
    next
      case (OfSnapshot k)
      with o r have "owner_user s w u" "(w, la_id a) \<in> set (dd_refs s)" using refs[of w "la_id a"] by (auto simp: frame)
      with i a show ?thesis unfolding data_inv_def own_refs_def by blast
    qed
  qed
  moreover have "revisions_ok t"
    using i unfolding data_inv_def revisions_ok_def frame by (simp add: rs)
  moreover have "within_quotas (tx_now clk) t"
    using i counts by (simp add: data_inv_def within_quotas_def storage_bytes_def snapshot_count_def dataset_count_def frame)
  ultimately have "data_inv (tx_now clk) t"
    using i ok caps by (simp add: data_inv_def frame asset_whole_frame[OF frame(3)])
  moreover have "images_kept UNIV s t"
    unfolding images_kept_def frame using same by (auto simp: same_snapshot_def)
  ultimately show ?thesis by blast
qed

lemma caption_own:
  "data_inv now s \<Longrightarrow> c \<in> set (dd_captions s) \<Longrightarrow> a \<in> set (dd_assets s) \<Longrightarrow>
   (OfCaption (cj_id c), la_id a) \<in> set (dd_refs s) \<Longrightarrow> la_user a = cj_user c"
  unfolding data_inv_def own_refs_def by fastforce

lemma caption_updated:
  assumes "caption_update P f s = Inr (rows, t)"
  shows "t = s\<lparr>dd_captions := sql_update P f (dd_captions s)\<rparr>" "tables_ok t" "rows = map f (filter P (dd_captions s))"
  using assms by (auto simp: caption_update_def res_bind_Inr)

lemma caption_update_good:
  assumes i: "data_inv (tx_now clk) s" and u: "caption_update P f s = Inr (rows, t)"
    and keep: "\<And>c. cj_id (f c) = cj_id c \<and> cj_user (f c) = cj_user c"
    and shape: "\<And>c. c \<in> set (dd_captions s) \<Longrightarrow> P c \<Longrightarrow> caption_shape (f c)"
    and running: "sql_count (\<lambda>c. cj_state c = CapRunning) (dd_captions t) \<le> 1"
    and pending: "\<And>u. pending_captions u t \<le> max_caption_pending"
  shows "good_change clk s t"
proof -
  note t = caption_updated[OF u]
  have row: "\<exists>b\<in>set (dd_captions s). cj_id c = cj_id b \<and> cj_user c = cj_user b" if "c \<in> set (dd_captions t)" for c
    using that keep by (auto simp: t(1) elim!: in_sql_updateE)
  show ?thesis
  proof (rule captions_changed_good[OF i t(2)])
    show "la_user a = cj_user c"
      if "c \<in> set (dd_captions t)" "a \<in> set (dd_assets s)" "(OfCaption (cj_id c), la_id a) \<in> set (dd_refs t)" for c a
      using row[OF that(1)] caption_own[OF i _ that(2)] that(3) by (auto simp: t(1))
    show "captions_ok t"
      using i shape running unfolding captions_ok_def data_inv_def
      by (auto simp: t(1) elim!: in_sql_updateE)
    show "pending_captions v t \<le> max_caption_pending \<and> saved_captions v t \<le> max_caption_jobs" for v
      using pending[of v] i keep
      by (simp add: saved_captions_def t(1) sql_count_update_same data_inv_def within_quotas_def)
  qed (simp_all add: t(1))
qed

lemma inv_pending: "data_inv now s \<Longrightarrow> pending_captions u s \<le> max_caption_pending"
  by (simp add: data_inv_def within_quotas_def)

lemma inv_running: "data_inv now s \<Longrightarrow> sql_count (\<lambda>c. cj_state c = CapRunning) (dd_captions s) \<le> 1"
  by (simp add: data_inv_def captions_ok_def)

lemma inv_shape: "data_inv now s \<Longrightarrow> c \<in> set (dd_captions s) \<Longrightarrow> caption_shape c"
  by (simp add: data_inv_def captions_ok_def)

lemma pending_shrinks:
  assumes "t = s\<lparr>dd_captions := sql_update P f (dd_captions s)\<rparr>"
    and "\<And>c. cj_user (f c) = cj_user c" "\<And>c. P c \<Longrightarrow> caption_active (f c) \<Longrightarrow> caption_active c"
  shows "pending_captions u t \<le> pending_captions u s"
  unfolding pending_captions_def assms(1)
  by (simp, rule sql_count_shrinks) (use assms(2,3) in auto)

lemma running_shrinks:
  assumes "t = s\<lparr>dd_captions := sql_update P f (dd_captions s)\<rparr>"
    and "\<And>c. P c \<Longrightarrow> cj_state (f c) = CapRunning \<Longrightarrow> cj_state c = CapRunning"
  shows "sql_count (\<lambda>c. cj_state c = CapRunning) (dd_captions t) \<le> sql_count (\<lambda>c. cj_state c = CapRunning) (dd_captions s)"
  unfolding assms(1) by (simp, rule sql_count_shrinks) (use assms(2) in auto)

lemma cancel_captions_good:
  assumes c: "cancel_lora_captions clk uid did cid s = Inr (n, t)" and i: "data_inv (tx_now clk) s"
  shows "good_change clk s t"
proof -
  define P where "P = (\<lambda>c :: caption_row. cj_user c = uid \<and> (did = [] \<or> cj_dataset c = Some did) \<and>
     (cid = [] \<or> cj_id c = cid) \<and> caption_active c)"
  define f where "f = (\<lambda>c :: caption_row. c\<lparr>cj_cancel := True,
     cj_state := (if cj_state c = CapQueued then CapCancelled else cj_state c),
     cj_status := caption_status_cancelling, cj_updated := tx_now clk, cj_expires := tx_now clk + one_day\<rparr>)"
  obtain rows where u: "caption_update P f s = Inr (rows, t)"
    using c by (auto simp: cancel_lora_captions_def res_bind_Inr P_def f_def)
  note t = caption_updated(1)[OF u]
  show ?thesis
  proof (rule caption_update_good[OF i u])
    show "caption_shape (f c)" if "c \<in> set (dd_captions s)" "P c" for c
      using inv_shape[OF i that(1)] that(2) by (auto simp: caption_shape_def f_def P_def caption_active_def)
    show "sql_count (\<lambda>c. cj_state c = CapRunning) (dd_captions t) \<le> 1"
      by (rule order_trans[OF running_shrinks[OF t] inv_running[OF i]]) (simp add: f_def split: if_splits)
    show "pending_captions u t \<le> max_caption_pending" for u
      by (rule order_trans[OF pending_shrinks[OF t] inv_pending[OF i]]) (simp_all add: f_def P_def)
  qed (simp add: f_def)
qed

lemma caption_ids: "tables_ok db \<Longrightarrow> unique_key cj_id (dd_captions db)"
  by (rule no_conflicts_unique_key[of caption_conflict]) (simp_all add: tables_ok_def caption_conflict_def)

lemma caption_by_id_row:
  assumes "data_inv now s" "c \<in> set (dd_captions s)" "b \<in> set (dd_captions s)" "cj_id b = cj_id c"
  shows "b = c"
  by (rule unique_keyD[OF caption_ids[OF data_inv_tables[OF assms(1)]]]) (use assms in auto)

lemma count_after_one:
  assumes "data_inv now s" "c \<in> set (dd_captions s)"
  shows "sql_count Q (sql_update (\<lambda>d. cj_id d = cj_id c) f (dd_captions s)) \<le> sql_count Q (dd_captions s) + 1"
  using sql_count_update_key[OF caption_ids[OF data_inv_tables[OF assms(1)]] assms(2), of Q f] by (auto split: if_splits)

lemma retry_caption_good:
  assumes r: "retry_lora_caption clk uid cid s = Inr (c', t)" and i: "data_inv (tx_now clk) s"
  shows "good_change clk s t"
proof -
  obtain c where c: "lora_caption_by_id uid cid s = Inr c"
    and d: "t = s \<or> (\<not> caption_active c \<and> pending_captions uid s < max_caption_pending \<and>
      (\<exists>rows. caption_update (\<lambda>d. cj_id d = cid) (requeued_caption clk) s = Inr (rows, t)))"
    using r by (auto simp: retry_lora_caption_def res_bind_Inr caption_active_def not_le caption_limit_def
        max_caption_pending_def split: if_splits)
  have row: "c \<in> set (dd_captions s)" "cj_id c = cid" "cj_user c = uid"
    using c sql_find_Some[of "\<lambda>c. cj_id c = cid \<and> cj_user c = uid" "dd_captions s" c]
    by (auto simp: lora_caption_by_id_def split: option.splits)
  from d show ?thesis
  proof (elim disjE conjE exE)
    assume "t = s" with i show ?thesis by simp
  next
    fix rows assume idle: "\<not> caption_active c" and few: "pending_captions uid s < max_caption_pending"
      and u: "caption_update (\<lambda>d. cj_id d = cid) (requeued_caption clk) s = Inr (rows, t)"
    note t = caption_updated(1)[OF u]
    have only: "d = c" if "d \<in> set (dd_captions s)" "cj_id d = cid" for d
      using caption_by_id_row[OF i row(1) that(1)] that(2) row(2) by simp
    show ?thesis
    proof (rule caption_update_good[OF i u])
      show "caption_shape (requeued_caption clk d)" if "d \<in> set (dd_captions s)" "cj_id d = cid" for d
        using inv_shape[OF i that(1)] only[OF that] idle
        by (auto simp: caption_shape_def requeued_caption_def caption_active_def max_caption_attempts_def)
      show "sql_count (\<lambda>c. cj_state c = CapRunning) (dd_captions t) \<le> 1"
        by (rule order_trans[OF running_shrinks[OF t] inv_running[OF i]]) (simp add: requeued_caption_def)
      show "pending_captions u t \<le> max_caption_pending" for u
      proof (cases "u = uid")
        case True
        with count_after_one[OF i row(1)] few row(2) show ?thesis
          unfolding pending_captions_def t by (simp, meson Suc_leI order_trans le_trans)
      next
        case False
        have "pending_captions u t = pending_captions u s"
          unfolding pending_captions_def t
          by (simp, rule sql_count_update_same) (use only False row in \<open>auto simp: requeued_caption_def\<close>)
        with inv_pending[OF i] show ?thesis by simp
      qed
    qed (simp add: requeued_caption_def)
  qed
qed

lemma inv_attempts: "data_inv now s \<Longrightarrow> c \<in> set (dd_captions s) \<Longrightarrow> 0 \<le> cj_attempts c"
  by (simp add: data_inv_def tables_ok_def list_all_iff caption_row_ok_def)

lemma caption_recovery_good:
  assumes u: "caption_update (\<lambda>c. cj_state c = CapRunning) (recovered_caption clk) s = Inr (rows, t)"
    and i: "data_inv (tx_now clk) s"
  shows "good_change clk s t \<and> sql_count (\<lambda>c. cj_state c = CapRunning) (dd_captions t) = 0"
proof -
  note t = caption_updated(1)[OF u]
  have none: "sql_count (\<lambda>c. cj_state c = CapRunning) (dd_captions t) = 0"
    by (auto simp: sql_count_0 t recovered_caption_def Let_def elim!: in_sql_updateE split: if_splits)
  have "good_change clk s t"
  proof (rule caption_update_good[OF i u])
    show "caption_shape (recovered_caption clk c)" if "c \<in> set (dd_captions s)" "cj_state c = CapRunning" for c
      by (auto simp: caption_shape_def recovered_caption_def Let_def)
    show "pending_captions u t \<le> max_caption_pending" for u
      by (rule order_trans[OF pending_shrinks[OF t] inv_pending[OF i]])
        (simp_all add: recovered_caption_def Let_def caption_active_def)
  qed (use none in \<open>simp_all add: recovered_caption_def Let_def\<close>)
  with none show ?thesis by blast
qed

text \<open>A claim in its two statements.\<close>

lemma claimed_caption:
  assumes "claim_lora_caption id_le clk token s = Inr (job, t)"
  obtains rows v where "caption_update (\<lambda>c. cj_state c = CapRunning) (recovered_caption clk) s = Inr (rows, v)"
    "job = None \<and> t = v \<or>
     (\<exists>c rows'. c \<in> set (dd_captions v) \<and> caption_ready clk c \<and> job = Some (started_caption clk token c) \<and>
        caption_update (\<lambda>d. cj_id d = cj_id c) (started_caption clk token) v = Inr (rows', t))"
proof -
  from assms obtain rows v where v: "caption_update (\<lambda>c. cj_state c = CapRunning) (recovered_caption clk) s = Inr (rows, v)"
    and r: "(case sql_first (caption_before id_le) (filter (caption_ready clk) (dd_captions v)) of
       None \<Rightarrow> Inr (None, v)
     | Some c \<Rightarrow> res_bind (caption_update (\<lambda>d. cj_id d = cj_id c) (started_caption clk token) v) (\<lambda>(rows, db2).
         Inr (Some (started_caption clk token c), db2))) = Inr (job, t)"
    by (auto simp: claim_lora_caption_def res_bind_Inr)
  show thesis
  proof (cases "sql_first (caption_before id_le) (filter (caption_ready clk) (dd_captions v))")
    case None
    with r that[OF v] show thesis by simp
  next
    case (Some c)
    from sql_first_in[OF this] have "c \<in> set (dd_captions v)" "caption_ready clk c" by auto
    with r Some that[OF v] show thesis by (auto simp: res_bind_Inr)
  qed
qed

lemma claim_caption_good:
  assumes c: "claim_lora_caption id_le clk token s = Inr (job, t)" and i: "data_inv (tx_now clk) s"
    and token: "token \<noteq> []"
  shows "good_change clk s t"
  using c
proof (rule claimed_caption)
  fix rows v
  assume u: "caption_update (\<lambda>c. cj_state c = CapRunning) (recovered_caption clk) s = Inr (rows, v)"
    and d: "job = None \<and> t = v \<or>
     (\<exists>c rows'. c \<in> set (dd_captions v) \<and> caption_ready clk c \<and> job = Some (started_caption clk token c) \<and>
        caption_update (\<lambda>d. cj_id d = cj_id c) (started_caption clk token) v = Inr (rows', t))"
  from caption_recovery_good[OF u i] have sv: "good_change clk s v"
    and none: "sql_count (\<lambda>c. cj_state c = CapRunning) (dd_captions v) = 0" by auto
  then have iv: "data_inv (tx_now clk) v" by simp
  from d show "good_change clk s t"
  proof (elim disjE conjE exE)
    fix c rows' assume c: "c \<in> set (dd_captions v)" "caption_ready clk c"
      and u': "caption_update (\<lambda>d. cj_id d = cj_id c) (started_caption clk token) v = Inr (rows', t)"
    note t = caption_updated(1)[OF u']
    have only: "d = c" if "d \<in> set (dd_captions v)" "cj_id d = cj_id c" for d
      using caption_by_id_row[OF iv c(1) that] .
    have "good_change clk v t"
    proof (rule caption_update_good[OF iv u'])
      show "caption_shape (started_caption clk token d)" if "d \<in> set (dd_captions v)" "cj_id d = cj_id c" for d
        using inv_shape[OF iv that(1)] inv_attempts[OF iv that(1)] only[OF that] c(2) token
        by (auto simp: caption_shape_def started_caption_def caption_ready_def max_caption_attempts_def)
      show "sql_count (\<lambda>c. cj_state c = CapRunning) (dd_captions t) \<le> 1"
        using count_after_one[OF iv c(1), of "\<lambda>c. cj_state c = CapRunning" "started_caption clk token"] none
        by (simp add: t)
      show "pending_captions u t \<le> max_caption_pending" for u
      proof -
        have "pending_captions u t = pending_captions u v"
          unfolding pending_captions_def t
          by (simp, rule sql_count_update_same)
            (use only c(2) in \<open>auto simp: started_caption_def caption_active_def caption_ready_def\<close>)
        with inv_pending[OF iv] show ?thesis by simp
      qed
    qed (simp add: started_caption_def)
    with sv show ?thesis using good_trans by blast
  qed (use sv in simp)
qed

lemma report_caption_good:
  assumes r: "report_caption_run clk run stopping job s = Inr (accepted, t)" and i: "data_inv (tx_now clk) s"
    and same: "\<And>c. c \<in> set (dd_captions s) \<Longrightarrow> cj_state c = CapRunning \<Longrightarrow> cj_token c = cj_token job \<Longrightarrow>
      cj_attempts c = cj_attempts job"
  shows "good_change clk s t"
proof -
  obtain st message result retry_after where v: "caption_verdict run stopping job = (st, message, result, retry_after)"
    by (metis surj_pair)
  define P where "P = (\<lambda>c :: caption_row. cj_id c = cj_id job \<and> cj_token c = cj_token job \<and> cj_state c = CapRunning)"
  obtain rows where u: "caption_update P (reported_caption clk st message result retry_after) s = Inr (rows, t)"
    using r by (auto simp: report_caption_run_def v finish_lora_caption_def res_bind_Inr P_def)
  have st: "st \<noteq> CapRunning" "st = CapQueued \<Longrightarrow> cj_attempts job < max_caption_attempts"
    using v by (auto simp: caption_verdict_def split: caption_run.splits if_splits)
  note t = caption_updated(1)[OF u]
  show ?thesis
  proof (rule caption_update_good[OF i u])
    show "caption_shape (reported_caption clk st message result retry_after c)"
      if "c \<in> set (dd_captions s)" "P c" for c
      using st that same[OF that(1)] by (auto simp: caption_shape_def reported_caption_def P_def)
    show "sql_count (\<lambda>c. cj_state c = CapRunning) (dd_captions t) \<le> 1"
      by (rule order_trans[OF running_shrinks[OF t] inv_running[OF i]])
        (use st in \<open>simp add: reported_caption_def split: if_splits\<close>)
    show "pending_captions u t \<le> max_caption_pending" for u
      by (rule order_trans[OF pending_shrinks[OF t] inv_pending[OF i]])
        (simp_all add: reported_caption_def P_def caption_active_def)
  qed (simp add: reported_caption_def)
qed

lemma enqueue_one_good:
  assumes e: "enqueue_one clk uid did q s = Inr (c, t)" and i: "data_inv (tx_now clk) s"
    and room: "pending_captions uid s < max_caption_pending" "saved_captions uid s < max_caption_jobs"
  shows "good_change clk s t \<and> pending_captions uid t = pending_captions uid s + 1 \<and>
    saved_captions uid t = saved_captions uid s + 1"
proof -
  define n where "n = new_caption clk uid did q"
  from e have a: "sql_exists (\<lambda>a. la_id a = cq_asset q \<and> la_user a = uid) (dd_assets s)"
    and v: "tables_ok (s\<lparr>dd_captions := dd_captions s @ [n]\<rparr>)" and ok: "tables_ok t"
    and t: "t = s\<lparr>dd_captions := dd_captions s @ [n], dd_refs := dd_refs s @ [(OfCaption (cj_id n), cq_asset q)]\<rparr>"
    by (auto simp: enqueue_one_def Let_def res_bind_Inr n_def split: if_splits)
  obtain b where b: "b \<in> set (dd_assets s)" "la_id b = cq_asset q" "la_user b = uid"
    using a by (auto simp: sql_exists_iff)
  have nu: "cj_user n = uid" "caption_active n" "cj_state n = CapQueued" "cj_attempts n = 0" "cj_token n = []"
    "\<not> cj_cancel n"
    by (simp_all add: n_def new_caption_def caption_active_def)
  have fresh: "\<not> has_caption s (cj_id n)"
    using caption_ids[OF v] by (simp add: unique_key_append)
  have noref: "(OfCaption (cj_id n), k) \<notin> set (dd_refs s)" for k
    using data_inv_tables[OF i] fresh unfolding tables_ok_split keys_ok_def ref_ok_def by fastforce
  have p: "pending_captions u t = pending_captions u s + (if u = uid then 1 else 0)"
    "saved_captions u t = saved_captions u s + (if u = uid then 1 else 0)" for u
    using nu by (auto simp: pending_captions_def saved_captions_def t sql_count_append)
  have "good_change clk s t"
  proof (rule captions_changed_good[OF i ok])
    show "la_user a = cj_user c"
      if c: "c \<in> set (dd_captions t)" and a: "a \<in> set (dd_assets s)" and r: "(OfCaption (cj_id c), la_id a) \<in> set (dd_refs t)" for c a
    proof (cases "c = n")
      case True
      with r noref have "la_id a = la_id b" by (auto simp: t b)
      then have "a = b" by (rule unique_keyD[OF tables_asset_ids[OF data_inv_tables[OF i]] a b(1)])
      with b True nu show ?thesis by simp
    next
      case False
      with c have c': "c \<in> set (dd_captions s)" by (simp add: t)
      then have "cj_id c \<noteq> cj_id n" using fresh by (metis imageI)
      with r have "(OfCaption (cj_id c), la_id a) \<in> set (dd_refs s)" by (simp add: t)
      then show ?thesis by (rule caption_own[OF i c' a])
    qed
    show "captions_ok t"
      using i nu by (auto simp: data_inv_def captions_ok_def t sql_count_append caption_shape_def max_caption_attempts_def)
    show "pending_captions u t \<le> max_caption_pending \<and> saved_captions u t \<le> max_caption_jobs" for u
      using p[of u] room i by (auto simp: data_inv_def within_quotas_def)
  qed (simp_all add: t)
  with p[of uid] show ?thesis by simp
qed

lemma enqueue_each_good:
  "enqueue_each clk uid did (pending_captions uid s) (saved_captions uid s) qs s = Inr (cs, t) \<Longrightarrow>
   data_inv (tx_now clk) s \<Longrightarrow> good_change clk s t"
proof (induction qs arbitrary: s cs)
  case (Cons q qs)
  show ?case
  proof (cases "reusable_caption uid did q s")
    case (Some c)
    with Cons show ?thesis by (auto simp: res_bind_Inr)
  next
    case None
    with Cons.prems obtain c v cs' where room: "pending_captions uid s < caption_limit did" "saved_captions uid s < max_caption_jobs"
      and v: "enqueue_one clk uid did q s = Inr (c, v)"
      and r: "enqueue_each clk uid did (pending_captions uid s + 1) (saved_captions uid s + 1) qs v = Inr (cs', t)"
      by (auto simp: res_bind_Inr not_le split: if_splits)
    have "caption_limit did \<le> max_caption_pending" by (simp add: caption_limit_def max_caption_pending_def)
    with room have "pending_captions uid s < max_caption_pending" by linarith
    from enqueue_one_good[OF v Cons.prems(2) this room(2)] have sv: "good_change clk s v"
      and n: "pending_captions uid v = pending_captions uid s + 1" "saved_captions uid v = saved_captions uid s + 1"
      by simp_all
    from Cons.IH[OF _ conjunct1[OF sv]] r n have "good_change clk v t" by simp
    with sv show ?thesis using good_trans by blast
  qed
qed simp

lemma enqueue_captions_good:
  "enqueue_lora_captions clk uid did revision qs s = Inr (cs, t) \<Longrightarrow> data_inv (tx_now clk) s \<Longrightarrow> good_change clk s t"
  using enqueue_each_good by (auto simp: enqueue_lora_captions_def res_bind_Inr split: if_splits)

end
