(* ===== verification/LoraDataRuns.thy ===== *)
theory LoraDataRuns
  imports LoraDataInv
begin

text \<open>
  The dataset store as a transition system: its operations in any order, the deletion of users,
  and what the trainings do to the rows that name a snapshot.  A world is the database, the time
  reached, the random ids handed out and the copies of the claimed caption jobs that workers
  hold; a worker may report long after its job was taken from it.
\<close>

section \<open>Steps\<close>

record data_world =
  dw_db :: data_db
  dw_now :: int
  dw_ids :: "string list"
  dw_claims :: "caption_row list"

text \<open>Trainings start from a snapshot, change their state, and are deleted when they ended.\<close>

definition same_use :: "training_use \<Rightarrow> training_use \<Rightarrow> bool" where
  "same_use t u = (tu_id u = tu_id t \<and> tu_snapshot u = tu_snapshot t \<and>
     (lora_terminal (tu_state t) \<longrightarrow> tu_state u = tu_state t))"

definition trainings_move :: "training_use list \<Rightarrow> training_use list \<Rightarrow> bool" where
  "trainings_move ts us =
     (list_all (\<lambda>t. lora_terminal (tu_state t) \<or> list_ex (same_use t) us) ts)"

inductive data_op :: "clock \<Rightarrow> data_db \<Rightarrow> data_db \<Rightarrow> bool" for clk where
  do_create: "create_lora_dataset clk uid did name manifest s = Inr (d, t) \<Longrightarrow> data_op clk s t"
| do_save: "save_lora_dataset clk uid did expected name manifest as s = Inr (d, t) \<Longrightarrow> data_op clk s t"
| do_delete: "delete_lora_dataset uid did revision s = Inr t \<Longrightarrow> data_op clk s t"
| do_asset: "insert_lora_asset clk asset chunks s = Inr (a, t) \<Longrightarrow> data_op clk s t"
| do_restore: "restore_lora_snapshot clk uid sid did s = Inr (d, t) \<Longrightarrow> data_op clk s t"
| do_delete_snapshot: "delete_lora_snapshot uid sid s = Inr t \<Longrightarrow> data_op clk s t"
| do_cleanup: "cleanup_lora_datasets clk locked_s locked_d locked_a s = (n, t) \<Longrightarrow> data_op clk s t"
| do_enqueue: "enqueue_lora_captions clk uid did revision qs s = Inr (cs, t) \<Longrightarrow> data_op clk s t"
| do_cancel: "cancel_lora_captions clk uid did cid s = Inr (n, t) \<Longrightarrow> data_op clk s t"
| do_retry: "retry_lora_caption clk uid cid s = Inr (c, t) \<Longrightarrow> data_op clk s t"
| do_cleanup_captions: "cleanup_lora_captions clk locked s = (n, t) \<Longrightarrow> data_op clk s t"
| do_user_deleted: "data_user_deleted uid s = t \<Longrightarrow> data_op clk s t"
| do_users: "map du_id us = map du_id (dd_users s) \<Longrightarrow> data_op clk s (s\<lparr>dd_users := us\<rparr>)"
| do_new_user: "stmt (s\<lparr>dd_users := dd_users s @ [u]\<rparr>) = Inr t \<Longrightarrow> data_op clk s t"
| do_trainings: "trainings_move (dd_trainings s) ts \<Longrightarrow> stmt (s\<lparr>dd_trainings := ts\<rparr>) = Inr t \<Longrightarrow> data_op clk s t"

inductive data_step :: "data_world \<Rightarrow> data_world \<Rightarrow> bool" where
  ds_op: "dw_now w \<le> tx_now clk \<Longrightarrow> data_op clk (dw_db w) t \<Longrightarrow>
     data_step w (w\<lparr>dw_db := t, dw_now := tx_now clk\<rparr>)"
| ds_snapshot: "dw_now w \<le> tx_now clk \<Longrightarrow> sid \<notin> set (dw_ids w) \<Longrightarrow>
     create_lora_snapshot clk uid did revision sid hash (dw_db w) = Inr (s, t) \<Longrightarrow>
     data_step w (w\<lparr>dw_db := t, dw_now := tx_now clk, dw_ids := sid # dw_ids w\<rparr>)"
| ds_claim: "dw_now w \<le> tx_now clk \<Longrightarrow> token \<notin> set (dw_ids w) \<Longrightarrow> token \<noteq> [] \<Longrightarrow>
     claim_lora_caption id_le clk token (dw_db w) = Inr (job, t) \<Longrightarrow>
     data_step w (w\<lparr>dw_db := t, dw_now := tx_now clk, dw_ids := token # dw_ids w,
                    dw_claims := (case job of None \<Rightarrow> dw_claims w | Some c \<Rightarrow> c # dw_claims w)\<rparr>)"
| ds_report: "dw_now w \<le> tx_now clk \<Longrightarrow> job \<in> set (dw_claims w) \<Longrightarrow>
     report_caption_run clk run stopping job (dw_db w) = Inr (accepted, t) \<Longrightarrow>
     data_step w (w\<lparr>dw_db := t, dw_now := tx_now clk\<rparr>)"

section \<open>Every step keeps the store sound\<close>

lemma other_tables_good:
  assumes i: "data_inv (tx_now clk) s" and ok: "tables_ok (s\<lparr>dd_users := us, dd_trainings := ts\<rparr>)"
  shows "good_change clk s (s\<lparr>dd_users := us, dd_trainings := ts\<rparr>)"
proof -
  let ?t = "s\<lparr>dd_users := us, dd_trainings := ts\<rparr>"
  have "own_refs ?t"
    unfolding own_refs_def
  proof (intro ballI allI impI)
    fix a w u assume "a \<in> set (dd_assets ?t)" "(w, la_id a) \<in> set (dd_refs ?t)" "owner_user ?t w u"
    moreover from this(3) have "owner_user s w u" by (cases w) auto
    ultimately show "la_user a = u" using i unfolding data_inv_def own_refs_def by simp
  qed
  moreover have "revisions_ok ?t" "captions_ok ?t" "\<forall>a\<in>set (dd_assets ?t). asset_whole ?t a"
    using i by (simp_all add: data_inv_def revisions_ok_def captions_ok_def asset_whole_def chunks_of_def refs_of_def)
  moreover have "within_quotas (tx_now clk) ?t"
    using i by (simp add: data_inv_def within_quotas_def storage_bytes_def snapshot_count_def dataset_count_def
        pending_captions_def saved_captions_def)
  moreover have "images_kept UNIV s ?t"
    by (auto simp: images_kept_def same_images_def refs_of_def asset_data_def chunks_of_def same_snapshot_def)
  ultimately show ?thesis using ok by (simp add: data_inv_def)
qed

lemma same_user_ids:
  assumes "tables_ok s" "map du_id us = map du_id (dd_users s)"
  shows "tables_ok (s\<lparr>dd_users := us\<rparr>)"
proof -
  let ?t = "s\<lparr>dd_users := us\<rparr>"
  have ids: "du_id ` set us = du_id ` set (dd_users s)" using arg_cong[OF assms(2), of set] by simp
  have "caption_keys_ok ?t = caption_keys_ok s" by (rule ext) (simp add: caption_keys_ok_def ids)
  moreover have "has_owner ?t w = has_owner s w" for w by (rule has_owner_cong) simp_all
  then have "ref_ok ?t = ref_ok s" by (intro ext) (simp add: ref_ok_def)
  ultimately show ?thesis using assms by (simp add: tables_ok_def ids unique_key_def)
qed

lemma data_op_good:
  assumes "data_op clk s t" and i: "data_inv (tx_now clk) s"
  shows "good_change clk s t"
  using assms
proof (induction rule: data_op.induct)
  case (do_users us s)
  with other_tables_good[OF do_users(2), of "dd_trainings s" us] same_user_ids[OF data_inv_tables]
  show ?case by simp
next
  case (do_new_user s u t)
  with other_tables_good[OF do_new_user(2), of "dd_trainings s" "dd_users s @ [u]"] show ?case by auto
next
  case (do_trainings s ts t)
  with other_tables_good[OF do_trainings(3), of ts "dd_users s"] show ?case by auto
qed (auto dest: create_lora_dataset_good save_lora_dataset_good delete_lora_dataset_good insert_lora_asset_good
    restore_snapshot_good delete_lora_snapshot_good cleanup_datasets_good enqueue_captions_good
    cancel_captions_good retry_caption_good cleanup_captions_good data_user_deleted_good)

section \<open>Runs of the caption worker\<close>

text \<open>No operation but a claim makes a job run; one that runs keeps its id, token and attempts.\<close>

definition caption_running :: "caption_row \<Rightarrow> bool" where
  "caption_running c = (cj_state c = CapRunning)"

definition runs_from :: "data_db \<Rightarrow> data_db \<Rightarrow> bool" where
  "runs_from s t \<longleftrightarrow> (\<forall>c\<in>set (dd_captions t). caption_running c \<longrightarrow>
     (\<exists>b\<in>set (dd_captions s). caption_running b \<and> cj_id b = cj_id c \<and> cj_token b = cj_token c \<and>
        cj_attempts b = cj_attempts c))"

lemma runs_from_subset: "set (dd_captions t) \<subseteq> set (dd_captions s) \<Longrightarrow> runs_from s t"
  unfolding runs_from_def by blast

lemma runs_from_trans: "runs_from s t \<Longrightarrow> runs_from t u \<Longrightarrow> runs_from s u"
  unfolding runs_from_def by metis

lemma runs_from_update:
  assumes "caption_update P f s = Inr (rows, t)"
    and "\<And>c. P c \<Longrightarrow> caption_running (f c) \<Longrightarrow>
      caption_running c \<and> cj_id (f c) = cj_id c \<and> cj_token (f c) = cj_token c \<and> cj_attempts (f c) = cj_attempts c"
  shows "runs_from s t"
  unfolding runs_from_def caption_updated(1)[OF assms(1)]
  using assms(2) by (auto elim!: in_sql_updateE) fastforce+

lemma cascade_captions_subset: "set (dd_captions (cascade r)) \<subseteq> set (dd_captions r)"
  by (auto simp: cascade_captions)

lemma enqueue_one_runs: "enqueue_one clk uid did q s = Inr (c, t) \<Longrightarrow> runs_from s t"
  by (auto simp: enqueue_one_def Let_def res_bind_Inr runs_from_def caption_running_def new_caption_def split: if_splits)

lemma enqueue_each_runs: "enqueue_each clk uid did p n qs s = Inr (cs, t) \<Longrightarrow> runs_from s t"
proof (induction qs arbitrary: p n s cs)
  case (Cons q qs)
  then show ?case
    by (auto simp: res_bind_Inr split: option.splits if_splits dest: enqueue_one_runs intro: runs_from_trans)
qed (auto intro: runs_from_subset)

lemma insert_chunks_captions: "insert_chunks aid limit index got cs s = Inr (read, t) \<Longrightarrow> dd_captions t = dd_captions s"
  using insert_chunks_Inr by fastforce

lemma data_op_runs:
  assumes "data_op clk s t"
  shows "runs_from s t"
  using assms
proof cases
  case (do_cancel uid did cid n)
  then obtain rows where "caption_update
     (\<lambda>c. cj_user c = uid \<and> (did = [] \<or> cj_dataset c = Some did) \<and> (cid = [] \<or> cj_id c = cid) \<and> caption_active c)
     (\<lambda>c. c\<lparr>cj_cancel := True, cj_state := (if cj_state c = CapQueued then CapCancelled else cj_state c),
               cj_status := caption_status_cancelling, cj_updated := tx_now clk,
               cj_expires := tx_now clk + one_day\<rparr>) s = Inr (rows, t)"
    by (auto simp: cancel_lora_captions_def res_bind_Inr)
  then show ?thesis by (rule runs_from_update) (auto simp: caption_running_def split: if_splits)
next
  case (do_retry uid cid c)
  then have "t = s \<or> (\<exists>rows. caption_update (\<lambda>d. cj_id d = cid) (requeued_caption clk) s = Inr (rows, t))"
    by (auto simp: retry_lora_caption_def res_bind_Inr split: if_splits)
  then show ?thesis
    by (auto intro: runs_from_subset elim!: runs_from_update simp: caption_running_def requeued_caption_def)
next
  case (do_enqueue uid did revision qs cs)
  then show ?thesis by (auto simp: enqueue_lora_captions_def res_bind_Inr split: if_splits dest: enqueue_each_runs)
next
  case (do_cleanup locked_s locked_d locked_a n)
  then have "set (dd_captions t) \<subseteq> set (dd_captions s)"
    unfolding cleanup_lora_datasets_def Let_def prod.inject
    by (elim conjE) (auto dest!: subsetD[OF cascade_captions_subset])
  then show ?thesis by (rule runs_from_subset)
next
  case (do_save uid did expected name manifest as d)
  then show ?thesis by (elim saved_dataset) (simp add: runs_from_subset)
next
  case (do_create uid did name manifest d)
  then show ?thesis
    by (auto simp: create_lora_dataset_def insert_dataset_def res_bind_Inr Let_def split: option.splits if_splits intro: runs_from_subset)
next
  case (do_restore uid sid did d)
  then show ?thesis
    by (auto simp: restore_lora_snapshot_def insert_dataset_def res_bind_Inr Let_def split: option.splits if_splits intro: runs_from_subset)
next
  case (do_asset asset chunks a)
  then show ?thesis
    by (auto simp: insert_lora_asset_def res_bind_Inr Let_def split: option.splits if_splits
        dest!: insert_chunks_captions intro: runs_from_subset)
qed (auto simp: delete_lora_dataset_def delete_lora_snapshot_def cleanup_lora_captions_def data_user_deleted_def Let_def
    split: option.splits if_splits intro!: runs_from_subset dest!: subsetD[OF cascade_captions_subset])

section \<open>The invariant of a world\<close>

definition claims_ok :: "data_world \<Rightarrow> bool" where
  "claims_ok w \<longleftrightarrow>
     (\<forall>q\<in>set (dd_snapshots (dw_db w)). sp_id q \<in> set (dw_ids w)) \<and>
     (\<forall>job\<in>set (dw_claims w). cj_token job \<in> set (dw_ids w) \<and> cj_token job \<noteq> []) \<and>
     (\<forall>c\<in>set (dd_captions (dw_db w)). caption_running c \<longrightarrow> cj_token c \<in> set (dw_ids w)) \<and>
     (\<forall>c\<in>set (dd_captions (dw_db w)). \<forall>job\<in>set (dw_claims w). caption_running c \<longrightarrow>
        cj_token c = cj_token job \<longrightarrow> cj_id c = cj_id job \<and> cj_attempts c = cj_attempts job)"

definition world_inv :: "data_world \<Rightarrow> bool" where
  "world_inv w \<longleftrightarrow> data_inv (dw_now w) (dw_db w) \<and> claims_ok w"

definition data_start :: "data_world \<Rightarrow> bool" where
  "data_start w = (unique_key du_id (dd_users (dw_db w)) \<and> dd_datasets (dw_db w) = [] \<and> dd_assets (dw_db w) = [] \<and>
     dd_chunks (dw_db w) = [] \<and> dd_snapshots (dw_db w) = [] \<and> dd_refs (dw_db w) = [] \<and>
     dd_captions (dw_db w) = [] \<and> dd_trainings (dw_db w) = [] \<and> dw_claims w = [])"

lemma data_start_inv: "data_start w \<Longrightarrow> world_inv w"
  by (auto simp: data_start_def world_inv_def claims_ok_def data_inv_def tables_ok_def within_quotas_def
      storage_bytes_def snapshot_count_def dataset_count_def pending_captions_def saved_captions_def
      own_refs_def revisions_ok_def captions_ok_def max_user_bytes_def)

lemma sql_count_mono: "(\<And>r. P r \<Longrightarrow> Q r) \<Longrightarrow> sql_count P t \<le> sql_count Q t"
  by (induction t) (auto simp: le_SucI)

lemma data_inv_later: "data_inv now s \<Longrightarrow> now \<le> now' \<Longrightarrow> data_inv now' s"
proof -
  assume i: "data_inv now s" and le: "now \<le> now'"
  have "dataset_count now' u s \<le> dataset_count now u s" for u
    unfolding dataset_count_def by (rule sql_count_mono) (use le in \<open>auto simp: live_dataset_def\<close>)
  with i show ?thesis unfolding data_inv_def within_quotas_def by (meson order_trans)
qed

lemma snapshots_from: "images_kept UNIV s t \<Longrightarrow> q \<in> set (dd_snapshots t) \<Longrightarrow> \<exists>p\<in>set (dd_snapshots s). sp_id p = sp_id q"
  unfolding images_kept_def same_snapshot_def by fastforce

lemma claims_ok_step:
  assumes c: "claims_ok w" and r: "runs_from (dw_db w) t"
    and sn: "\<And>q. q \<in> set (dd_snapshots t) \<Longrightarrow> sp_id q \<in> set ids" and ids: "set (dw_ids w) \<subseteq> set ids"
  shows "claims_ok (w\<lparr>dw_db := t, dw_now := now, dw_ids := ids\<rparr>)"
  using c r sn ids unfolding claims_ok_def runs_from_def by (auto; metis subsetD)

lemma runs_after_report:
  assumes r: "report_caption_run clk run stopping job s = Inr (accepted, t)"
  shows "runs_from s t"
proof -
  obtain st message result retry_after where v: "caption_verdict run stopping job = (st, message, result, retry_after)"
    by (metis surj_pair)
  then have "st \<noteq> CapRunning" by (auto simp: caption_verdict_def split: caption_run.splits if_splits)
  moreover obtain rows where "caption_update (\<lambda>c. cj_id c = cj_id job \<and> cj_token c = cj_token job \<and> cj_state c = CapRunning)
      (reported_caption clk st message result retry_after) s = Inr (rows, t)"
    using r by (auto simp: report_caption_run_def v finish_lora_caption_def res_bind_Inr)
  ultimately show ?thesis
    by (elim runs_from_update) (auto simp: caption_running_def reported_caption_def split: if_splits)
qed

text \<open>After a claim the claimed job is the only one that runs.\<close>

lemma runs_after_claim:
  assumes c: "claim_lora_caption id_le clk token s = Inr (job, t)" and x: "x \<in> set (dd_captions t)" "caption_running x"
  shows "\<exists>j. job = Some j \<and> cj_id x = cj_id j \<and> cj_token x = token \<and> cj_token j = token \<and>
    (data_inv (tx_now clk) s \<longrightarrow> cj_attempts x = cj_attempts j)"
  using c
proof (rule claimed_caption)
  fix rows v
  assume u: "caption_update (\<lambda>c. cj_state c = CapRunning) (recovered_caption clk) s = Inr (rows, v)"
    and d: "job = None \<and> t = v \<or>
     (\<exists>c rows'. c \<in> set (dd_captions v) \<and> caption_ready clk c \<and> job = Some (started_caption clk token c) \<and>
        caption_update (\<lambda>d. cj_id d = cj_id c) (started_caption clk token) v = Inr (rows', t))"
  have none: "\<not> caption_running y" if "y \<in> set (dd_captions v)" for y
    using that by (auto simp: caption_updated(1)[OF u] caption_running_def recovered_caption_def Let_def
        elim!: in_sql_updateE split: if_splits)
  from d show ?thesis
  proof (elim disjE conjE exE)
    assume "t = v" with none x show ?thesis by blast
  next
    fix c rows' assume cv: "c \<in> set (dd_captions v)" and j: "job = Some (started_caption clk token c)"
      and u': "caption_update (\<lambda>d. cj_id d = cj_id c) (started_caption clk token) v = Inr (rows', t)"
    have "x \<in> set (sql_update (\<lambda>d. cj_id d = cj_id c) (started_caption clk token) (dd_captions v))"
      using x(1) by (simp add: caption_updated(1)[OF u'])
    then obtain y where y: "y \<in> set (dd_captions v)" "cj_id y = cj_id c" "x = started_caption clk token y"
      using none x(2) by (auto elim!: in_sql_updateE)
    have "cj_attempts y = cj_attempts c" if "data_inv (tx_now clk) s"
    proof -
      have "data_inv (tx_now clk) v" using caption_recovery_good[OF u that] by simp
      from caption_by_id_row[OF this cv y(1,2)] show ?thesis by simp
    qed
    with y(2,3) j show ?thesis by (auto simp: started_caption_def)
  qed
qed

lemma world_step:
  assumes "data_step w v" and inv: "world_inv w"
  shows "world_inv v \<and> images_kept (set (dw_ids w)) (dw_db w) (dw_db v) \<and> set (dw_ids w) \<subseteq> set (dw_ids v)"
  using assms
proof (induction rule: data_step.cases)
  case (ds_op w' clk t)
  then have i: "data_inv (tx_now clk) (dw_db w)" "claims_ok w" using data_inv_later by (auto simp: world_inv_def)
  note g = data_op_good[OF _ i(1), of t]
  have "claims_ok (w\<lparr>dw_db := t, dw_now := tx_now clk, dw_ids := dw_ids w\<rparr>)"
    by (rule claims_ok_step[OF i(2) data_op_runs])
      (use ds_op g snapshots_from i(2) in \<open>auto simp: claims_ok_def, metis\<close>)
  with ds_op g images_kept_mono[of UNIV "dw_db w" t "set (dw_ids w)"] show ?case by (auto simp: world_inv_def)
next
  case (ds_snapshot w' clk sid uid did revision hash s t)
  then have i: "data_inv (tx_now clk) (dw_db w)" "claims_ok w" using data_inv_later by (auto simp: world_inv_def)
  have c: "create_lora_snapshot clk uid did revision sid hash (dw_db w) = Inr (s, t)" using ds_snapshot by simp
  have u: "data_inv (tx_now clk) t \<and> images_kept (- {sid}) (dw_db w) t" by (rule create_snapshot_good[OF c i(1)]) simp
  have "images_kept (set (dw_ids w)) (dw_db w) t"
    using images_kept_mono[OF conjunct2[OF u], of "set (dw_ids w)"] ds_snapshot by auto
  moreover have "sp_id q \<in> set (sid # dw_ids w)" if q: "q \<in> set (dd_snapshots t)" for q
  proof (cases "sp_id q = sid")
    case False
    with u q obtain p where "p \<in> set (dd_snapshots (dw_db w))" "sp_id p = sp_id q"
      unfolding images_kept_def same_snapshot_def by fastforce
    with i(2) show ?thesis unfolding claims_ok_def by fastforce
  qed simp
  moreover have "dd_captions t = dd_captions (dw_db w)"
    using c by (auto simp: create_lora_snapshot_def upsert_snapshot_def add_refs_def res_bind_Inr Let_def
        split: option.splits if_splits)
  then have "runs_from (dw_db w) t" by (simp add: runs_from_subset)
  ultimately have "claims_ok (w\<lparr>dw_db := t, dw_now := tx_now clk, dw_ids := sid # dw_ids w\<rparr>)"
    by (intro claims_ok_step[OF i(2)]) auto
  with ds_snapshot u \<open>images_kept (set (dw_ids w)) (dw_db w) t\<close> show ?case by (auto simp: world_inv_def)
next
  case (ds_claim w' clk token id_le job t)
  then have i: "data_inv (tx_now clk) (dw_db w)" "claims_ok w" using data_inv_later by (auto simp: world_inv_def)
  have c: "claim_lora_caption id_le clk token (dw_db w) = Inr (job, t)" and tok: "token \<noteq> []" "token \<notin> set (dw_ids w)"
    using ds_claim by simp_all
  note g = claim_caption_good[OF c i(1) tok(1)]
  have jt: "cj_token j = token" if "job = Some j" for j
    using c that by (elim claimed_caption) (auto simp: started_caption_def)
  have "claims_ok v"
    unfolding claims_ok_def
  proof (intro conjI ballI impI)
    fix q assume "q \<in> set (dd_snapshots (dw_db v))"
    then have "q \<in> set (dd_snapshots t)" using ds_claim by simp
    with g obtain p where "p \<in> set (dd_snapshots (dw_db w))" "sp_id p = sp_id q" using snapshots_from by blast
    with i(2) have "sp_id q \<in> set (dw_ids w)" unfolding claims_ok_def by metis
    with ds_claim show "sp_id q \<in> set (dw_ids v)" by simp
  next
    fix j assume "j \<in> set (dw_claims v)"
    with ds_claim jt i(2) tok show "cj_token j \<in> set (dw_ids v)" "cj_token j \<noteq> []"
      by (auto simp: claims_ok_def split: option.splits)
  next
    fix x assume "x \<in> set (dd_captions (dw_db v))" "caption_running x"
    with runs_after_claim[OF c] ds_claim show "cj_token x \<in> set (dw_ids v)" by fastforce
  next
    fix x j assume x: "x \<in> set (dd_captions (dw_db v))" "caption_running x" and j: "j \<in> set (dw_claims v)"
      and eq: "cj_token x = cj_token j"
    have "x \<in> set (dd_captions t)" using x(1) ds_claim by simp
    from runs_after_claim[OF c this x(2)] i(1) obtain k where k: "job = Some k" "cj_id x = cj_id k" "cj_token x = token"
      "cj_attempts x = cj_attempts k" by blast
    have "j = k \<or> j \<in> set (dw_claims w)" using j k(1) ds_claim by auto
    moreover have "j \<notin> set (dw_claims w)" using eq k(3) tok(2) i(2) by (auto simp: claims_ok_def)
    ultimately show "cj_id x = cj_id j" "cj_attempts x = cj_attempts j" using k by auto
  qed
  with ds_claim g images_kept_mono[of UNIV "dw_db w" t "set (dw_ids w)"] show ?case by (auto simp: world_inv_def)
next
  case (ds_report w' clk job run stopping accepted t)
  then have i: "data_inv (tx_now clk) (dw_db w)" "claims_ok w" using data_inv_later by (auto simp: world_inv_def)
  have c: "report_caption_run clk run stopping job (dw_db w) = Inr (accepted, t)" using ds_report by simp
  have g: "good_change clk (dw_db w) t"
    by (rule report_caption_good[OF c i(1)])
      (use i(2) ds_report in \<open>auto simp: claims_ok_def caption_running_def\<close>)
  have "claims_ok (w\<lparr>dw_db := t, dw_now := tx_now clk, dw_ids := dw_ids w\<rparr>)"
    by (rule claims_ok_step[OF i(2) runs_after_report[OF c]])
      (use g snapshots_from i(2) in \<open>auto simp: claims_ok_def, metis\<close>)
  with ds_report g images_kept_mono[of UNIV "dw_db w" t "set (dw_ids w)"] show ?case by (auto simp: world_inv_def)
qed

section \<open>Runs\<close>

definition world_kept :: "data_world \<Rightarrow> data_world \<Rightarrow> bool" where
  "world_kept w v \<longleftrightarrow> images_kept (set (dw_ids w)) (dw_db w) (dw_db v) \<and> set (dw_ids w) \<subseteq> set (dw_ids v)"

interpretation data_run: evolution data_start data_step world_inv world_kept
  by unfold_locales
    (auto simp: world_kept_def data_start_inv dest: world_step intro: images_kept_trans)

lemma run_world_inv: "data_start w0 \<Longrightarrow> steps data_step w0 w \<Longrightarrow> world_inv w"
  by (rule data_run.reachable_inv)

lemma consecutive_above: "consecutive i cs \<Longrightarrow> c \<in> set cs \<Longrightarrow> i \<le> ac_index c"
  by (induction i cs rule: consecutive.induct) fastforce+

lemma consecutive_sorted: "consecutive i cs \<Longrightarrow> sorted (map ac_index cs)"
  by (induction i cs rule: consecutive.induct) (auto dest: consecutive_above)

lemma whole_asset_read:
  assumes "data_inv now s" and "a \<in> set (dd_assets s)"
  shows "\<exists>parts. read_asset_chunks (la_user a) (la_id a) s = Inr parts \<and> sum_list (map snd parts) = la_size a"
proof -
  have w: "consecutive 0 (chunks_of (la_id a) s)" "sum_list (map ac_size (chunks_of (la_id a) s)) = la_size a"
    and "asset_row_ok a"
    using assms by (auto simp: data_inv_def asset_whole_def tables_ok_def list_all_iff)
  then have "chunks_of (la_id a) s \<noteq> []" by (auto simp: asset_row_ok_def)
  moreover have "sort_key ac_index (chunks_of (la_id a) s) = chunks_of (la_id a) s"
    using consecutive_sorted[OF w(1)] by (simp add: sort_key_id_if_sorted)
  moreover have "sql_exists (\<lambda>b. la_id b = la_id a \<and> la_user b = la_user a) (dd_assets s)"
    using assms(2) by (auto simp: sql_exists_iff)
  ultimately show ?thesis using w by (simp add: read_asset_chunks_def chunks_of_def Let_def comp_def)
qed

text \<open>Reading depends on the data of the asset only.\<close>

lemma asset_owner_data:
  "sql_exists (\<lambda>a. la_id a = k \<and> la_user a = uid) (dd_assets s) \<longleftrightarrow>
   list_ex (\<lambda>a. la_user a = uid) (fst (asset_data s k))"
  by (auto simp: sql_exists_iff asset_data_def list_ex_iff)

lemma same_asset_read: "asset_data t k = asset_data s k \<Longrightarrow> read_asset_chunks uid k t = read_asset_chunks uid k s"
  unfolding read_asset_chunks_def asset_owner_data by (simp add: asset_data_def chunks_of_def)

lemma ref_asset:
  assumes i: "data_inv now s" and o: "owner_user s w u" and k: "k \<in> set (refs_of w s)"
  shows "is_ok (lora_dataset_asset u k s)"
proof -
  have r: "(w, k) \<in> set (dd_refs s)" using k by (simp add: refs_of_set)
  obtain a where a: "a \<in> set (dd_assets s)" "la_id a = k"
    using tables_asset_owner[OF data_inv_tables[OF i] r] by blast
  moreover have "la_user a = u" using i r o a unfolding data_inv_def own_refs_def by blast
  ultimately show ?thesis
    by (auto simp: lora_dataset_asset_def sql_find_None split: option.splits)
qed

text \<open>C12: In any run from an empty store every limit holds and no image is lost or foreign: a user
  stores at most 2 GiB, 100 snapshots, 20 live datasets, 100 pending and 500 saved caption jobs,
  every stored asset can be read back completely by its owner, and every image that a dataset,
  a snapshot or a caption job references can be opened by the owner of that row.\<close>

theorem dataset_store_sound:
  assumes "data_start w0" and "steps data_step w0 w"
  shows "tables_ok (dw_db w) \<and>
     (\<forall>uid. storage_bytes uid (dw_db w) \<le> 2147483648 \<and> snapshot_count uid (dw_db w) \<le> 100 \<and>
        dataset_count (dw_now w) uid (dw_db w) \<le> 20 \<and>
        pending_captions uid (dw_db w) \<le> 100 \<and> saved_captions uid (dw_db w) \<le> 500) \<and>
     (\<forall>a\<in>set (dd_assets (dw_db w)). \<exists>parts.
        read_asset_chunks (la_user a) (la_id a) (dw_db w) = Inr parts \<and> sum_list (map snd parts) = la_size a) \<and>
     (\<forall>r uid k. owner_user (dw_db w) r uid \<longrightarrow> k \<in> set (refs_of r (dw_db w)) \<longrightarrow>
        is_ok (lora_dataset_asset uid k (dw_db w)))"
proof -
  have i: "data_inv (dw_now w) (dw_db w)" using run_world_inv[OF assms] by (simp add: world_inv_def)
  then have "within_quotas (dw_now w) (dw_db w)" by (simp add: data_inv_def)
  then show ?thesis
    using data_inv_tables[OF i] whole_asset_read[OF i] ref_asset[OF i]
    by (simp add: within_quotas_def max_user_bytes_def max_snapshots_def max_datasets_def
        max_caption_pending_def max_caption_jobs_def)
qed

text \<open>C8: What was saved stays: while a dataset keeps its revision, whatever else happens in the
  store, it is the same row, names the same images, and each of them reads back the same; the
  same holds for a snapshot as long as it exists.\<close>

theorem saved_images_kept:
  assumes "data_start w0" and "steps data_step w0 w" and "steps data_step w v"
  shows "(\<forall>d\<in>set (dd_datasets (dw_db w)). \<forall>e\<in>set (dd_datasets (dw_db v)).
        ld_id e = ld_id d \<longrightarrow> ld_revision e = ld_revision d \<longrightarrow>
        e = d \<and> set (refs_of (OfDataset (ld_id d)) (dw_db v)) = set (refs_of (OfDataset (ld_id d)) (dw_db w)) \<and>
        (\<forall>k\<in>set (refs_of (OfDataset (ld_id d)) (dw_db w)). \<forall>uid.
           read_asset_chunks uid k (dw_db v) = read_asset_chunks uid k (dw_db w))) \<and>
     (\<forall>p\<in>set (dd_snapshots (dw_db w)). \<forall>q\<in>set (dd_snapshots (dw_db v)). sp_id q = sp_id p \<longrightarrow>
        sp_manifest q = sp_manifest p \<and> sp_hash q = sp_hash p \<and> sp_user q = sp_user p \<and>
        set (refs_of (OfSnapshot (sp_id p)) (dw_db v)) = set (refs_of (OfSnapshot (sp_id p)) (dw_db w)) \<and>
        (\<forall>k\<in>set (refs_of (OfSnapshot (sp_id p)) (dw_db w)). \<forall>uid.
           read_asset_chunks uid k (dw_db v) = read_asset_chunks uid k (dw_db w)))"
proof -
  have inv: "world_inv w" by (rule run_world_inv[OF assms(1,2)])
  then have i: "data_inv (dw_now w) (dw_db w)" by (simp add: world_inv_def)
  have kept: "images_kept (set (dw_ids w)) (dw_db w) (dw_db v)"
    using data_run.run_evolves[OF assms(3) inv] by (simp add: world_kept_def)
  have read: "read_asset_chunks uid k (dw_db v) = read_asset_chunks uid k (dw_db w)"
    if "same_images (dw_db w) (dw_db v) o1" "k \<in> set (refs_of o1 (dw_db w))" for o1 k uid
    by (rule same_asset_read) (use that in \<open>simp add: same_images_def\<close>)
  have D: "e = d \<and> same_images (dw_db w) (dw_db v) (OfDataset (ld_id d))"
    if d: "d \<in> set (dd_datasets (dw_db w))" and e: "e \<in> set (dd_datasets (dw_db v))"
      and eq: "ld_id e = ld_id d" "ld_revision e = ld_revision d" for d e
  proof -
    have "\<not> dd_last_revision (dw_db w) < ld_revision e"
      using i d eq(2) by (auto simp: data_inv_def revisions_ok_def)
    with kept e eq(1) have "e \<in> set (dd_datasets (dw_db w))" "same_images (dw_db w) (dw_db v) (OfDataset (ld_id d))"
      unfolding images_kept_def by auto
    moreover from unique_keyD[OF tables_dataset_ids[OF data_inv_tables[OF i]] this(1) d eq(1)] have "e = d" .
    ultimately show ?thesis by simp
  qed
  have S: "same_snapshot p q \<and> same_images (dw_db w) (dw_db v) (OfSnapshot (sp_id p))"
    if p: "p \<in> set (dd_snapshots (dw_db w))" and q: "q \<in> set (dd_snapshots (dw_db v))" and eq: "sp_id q = sp_id p" for p q
  proof -
    have "sp_id q \<in> set (dw_ids w)" using inv p eq by (simp add: world_inv_def claims_ok_def)
    with kept q obtain r where r: "r \<in> set (dd_snapshots (dw_db w))" "same_snapshot r q"
      "same_images (dw_db w) (dw_db v) (OfSnapshot (sp_id q))" unfolding images_kept_def by blast
    then have "sp_id r = sp_id p" using eq by (simp add: same_snapshot_def)
    from unique_keyD[OF tables_snapshot_ids[OF data_inv_tables[OF i]] r(1) p this] r eq show ?thesis by simp
  qed
  have ds: "e = d \<and> set (refs_of (OfDataset (ld_id d)) (dw_db v)) = set (refs_of (OfDataset (ld_id d)) (dw_db w)) \<and>
        (\<forall>k\<in>set (refs_of (OfDataset (ld_id d)) (dw_db w)). \<forall>uid.
           read_asset_chunks uid k (dw_db v) = read_asset_chunks uid k (dw_db w))"
    if "d \<in> set (dd_datasets (dw_db w))" "e \<in> set (dd_datasets (dw_db v))" "ld_id e = ld_id d" "ld_revision e = ld_revision d"
    for d e
    using D[OF that] read[of "OfDataset (ld_id d)"] unfolding same_images_def by blast
  have sn: "sp_manifest q = sp_manifest p \<and> sp_hash q = sp_hash p \<and> sp_user q = sp_user p \<and>
        set (refs_of (OfSnapshot (sp_id p)) (dw_db v)) = set (refs_of (OfSnapshot (sp_id p)) (dw_db w)) \<and>
        (\<forall>k\<in>set (refs_of (OfSnapshot (sp_id p)) (dw_db w)). \<forall>uid.
           read_asset_chunks uid k (dw_db v) = read_asset_chunks uid k (dw_db w))"
    if "p \<in> set (dd_snapshots (dw_db w))" "q \<in> set (dd_snapshots (dw_db v))" "sp_id q = sp_id p" for p q
    using S[OF that] read[of "OfSnapshot (sp_id p)"] unfolding same_images_def same_snapshot_def by blast
  show ?thesis by (rule conjI; intro ballI impI; (rule ds | rule sn); assumption)
qed

text \<open>A snapshot in use.\<close>

lemma cascade_has_snapshot:
  "has_snapshot (cascade r) k \<longleftrightarrow> (\<exists>p\<in>set (dd_snapshots r). sp_id p = k \<and> has_user r (sp_user p))"
  by (auto simp: cascade_snapshots image_image image_iff)

lemma delete_keeps_snapshot:
  assumes "has_user r (sp_user p)" "p \<in> set (dd_snapshots r)"
  shows "has_snapshot (cascade r) (sp_id p)"
  using assms unfolding cascade_has_snapshot by blast

lemma cascade_keeps_snapshots:
  assumes "tables_ok u" "dd_snapshots r = dd_snapshots u" "dd_users r = dd_users u" "has_snapshot u k"
  shows "has_snapshot (cascade r) k"
proof -
  obtain p where p: "p \<in> set (dd_snapshots u)" "sp_id p = k" using assms(4) by blast
  with assms(1) have "has_user u (sp_user p)" unfolding tables_ok_split keys_ok_def by blast
  with p assms(2,3) show ?thesis unfolding cascade_has_snapshot by auto
qed

lemma cleanup_keeps_used:
  assumes c: "cleanup_lora_datasets clk locked_s locked_d locked_a s = (n, t)" and i: "data_inv (tx_now clk) s"
    and p: "p \<in> set (dd_snapshots s)" "\<not> stale_snapshot (tx_now clk) s p"
  shows "has_snapshot t (sp_id p)"
  using c
proof (rule cleanup_stages)
  fix P Q R u v
  assume u: "u = cascade (s\<lparr>dd_snapshots := sql_delete P (dd_snapshots s)\<rparr>)"
    and v: "v = cascade (u\<lparr>dd_datasets := sql_delete Q (dd_datasets u)\<rparr>)"
    and t: "t = cascade (v\<lparr>dd_assets := sql_delete R (dd_assets v)\<rparr>)"
    and P: "\<And>q. P q \<Longrightarrow> stale_snapshot (tx_now clk) s q"
  have "has_user s (sp_user p)" using data_inv_tables[OF i] p(1) unfolding tables_ok_split keys_ok_def by blast
  moreover have "\<not> P p" using P p(2) by blast
  ultimately have "has_snapshot u (sp_id p)" unfolding u using p(1) by (intro delete_keeps_snapshot) simp_all
  moreover have iu: "data_inv (tx_now clk) u" unfolding u using delete_snapshots_good[OF i] by blast
  ultimately have "has_snapshot v (sp_id p)" unfolding v
    by (intro cascade_keeps_snapshots[OF data_inv_tables[OF iu]]) simp_all
  moreover have iv: "data_inv (tx_now clk) v" unfolding v using delete_datasets_good[OF iu] by blast
  ultimately show "has_snapshot t (sp_id p)" unfolding t
    by (intro cascade_keeps_snapshots[OF data_inv_tables[OF iv]]) simp_all
qed

lemma enqueue_each_snapshots:
  "enqueue_each clk uid did p n qs s = Inr (cs, t) \<Longrightarrow> dd_snapshots t = dd_snapshots s"
proof (induction qs arbitrary: p n s cs)
  case (Cons q qs)
  have "dd_snapshots v = dd_snapshots s" if "enqueue_one clk uid did q s = Inr (c, v)" for c v
    using that by (auto simp: enqueue_one_def Let_def res_bind_Inr split: if_splits)
  with Cons show ?case by (auto simp: res_bind_Inr split: option.splits if_splits)
qed simp

lemma data_op_keeps_used:
  assumes op: "data_op clk s t" and i: "data_inv (tx_now clk) s" and p: "p \<in> set (dd_snapshots s)"
    and u: "u \<in> set (dd_trainings s)" "tu_snapshot u = Some (sp_id p)" "\<not> lora_terminal (tu_state u)"
    and owner: "has_user t (sp_user p)"
  shows "has_snapshot t (sp_id p)"
proof -
  note ok = data_inv_tables[OF i]
  have here: "has_snapshot s (sp_id p)" using p by (rule imageI)
  have us: "has_user s (sp_user p)" using ok p unfolding tables_ok_split keys_ok_def by blast
  note cascaded = cascade_keeps_snapshots[OF ok _ _ here]
  show ?thesis
    using op
  proof cases
    case (do_delete_snapshot uid sid)
    then have t: "t = cascade (s\<lparr>dd_snapshots := sql_delete (\<lambda>q. sp_id q = sid) (dd_snapshots s)\<rparr>)"
      and "\<not> sql_exists (\<lambda>t. tu_snapshot t = Some sid \<and> \<not> lora_terminal (tu_state t)) (dd_trainings s)"
      by (auto simp: delete_lora_snapshot_def split: option.splits if_splits)
    from this(2) u have "sp_id p \<noteq> sid" by (auto simp: sql_exists_iff)
    with p us show ?thesis unfolding t by (intro delete_keeps_snapshot) simp_all
  next
    case (do_cleanup locked_s locked_d locked_a n)
    have "\<not> stale_snapshot (tx_now clk) s p" using u by (auto simp: stale_snapshot_def sql_exists_iff)
    then show ?thesis by (rule cleanup_keeps_used[OF do_cleanup i p])
  next
    case (do_user_deleted uid)
    have "has_user (s\<lparr>dd_users := filter (\<lambda>u. du_id u \<noteq> uid) (dd_users s)\<rparr>) (sp_user p)"
      using owner unfolding do_user_deleted[symmetric] data_user_deleted_def by simp
    then show ?thesis unfolding do_user_deleted[symmetric] data_user_deleted_def
      by (rule delete_keeps_snapshot) (simp add: p)
  next
    case (do_delete uid did revision)
    then show ?thesis by (auto simp: delete_lora_dataset_def Let_def intro!: cascaded split: if_splits)
  next
    case (do_cleanup_captions locked n)
    then show ?thesis by (auto simp: cleanup_lora_captions_def Let_def intro!: cascaded)
  next
    case (do_save uid did expected name manifest as d)
    then show ?thesis by (elim saved_dataset) (use here in simp)
  next
    case (do_create uid did name manifest d)
    then have "dd_snapshots t = dd_snapshots s"
      by (auto simp: create_lora_dataset_def insert_dataset_def res_bind_Inr Let_def split: option.splits if_splits)
    with here show ?thesis by simp
  next
    case (do_restore uid sid did d)
    then have "dd_snapshots t = dd_snapshots s"
      by (auto simp: restore_lora_snapshot_def insert_dataset_def res_bind_Inr Let_def split: option.splits if_splits)
    with here show ?thesis by simp
  next
    case (do_asset asset chunks a)
    then have "dd_snapshots t = dd_snapshots s"
      by (auto simp: insert_lora_asset_def res_bind_Inr Let_def split: option.splits if_splits dest!: insert_chunks_Inr)
    with here show ?thesis by simp
  next
    case (do_enqueue uid did revision qs cs)
    then have "dd_snapshots t = dd_snapshots s"
      by (auto simp: enqueue_lora_captions_def res_bind_Inr split: if_splits dest: enqueue_each_snapshots)
    with here show ?thesis by simp
  next
    case (do_cancel uid did cid n)
    then have "dd_snapshots t = dd_snapshots s"
      by (auto simp: cancel_lora_captions_def res_bind_Inr caption_update_def)
    with here show ?thesis by simp
  next
    case (do_retry uid cid c)
    then have "dd_snapshots t = dd_snapshots s"
      by (auto simp: retry_lora_caption_def res_bind_Inr caption_update_def split: if_splits)
    with here show ?thesis by simp
  qed (use here in auto)
qed

text \<open>C17: A version that an unfinished training uses is not deleted: after any operation it is
  there with the same manifest and hash, the same images, each of which reads back the same,
  as long as the account of its owner exists.\<close>

theorem version_in_use_kept:
  assumes "data_start w0" and "steps data_step w0 w" and "data_step w v"
    and "p \<in> set (dd_snapshots (dw_db w))" and "u \<in> set (dd_trainings (dw_db w))"
    and "tu_snapshot u = Some (sp_id p)" and "\<not> lora_terminal (tu_state u)"
    and "has_user (dw_db v) (sp_user p)"
  shows "\<exists>q\<in>set (dd_snapshots (dw_db v)). sp_id q = sp_id p \<and> sp_manifest q = sp_manifest p \<and> sp_hash q = sp_hash p \<and>
     set (refs_of (OfSnapshot (sp_id p)) (dw_db v)) = set (refs_of (OfSnapshot (sp_id p)) (dw_db w)) \<and>
     (\<forall>k\<in>set (refs_of (OfSnapshot (sp_id p)) (dw_db w)).
        read_asset_chunks (sp_user p) k (dw_db v) = read_asset_chunks (sp_user p) k (dw_db w))"
proof -
  have inv: "world_inv w" by (rule run_world_inv[OF assms(1,2)])
  have "has_snapshot (dw_db v) (sp_id p)"
    using assms(3)
  proof cases
    case (ds_op clk t)
    have "data_inv (tx_now clk) (dw_db w)" using inv ds_op(2) data_inv_later by (auto simp: world_inv_def)
    from data_op_keeps_used[OF ds_op(3) this assms(4-7)] assms(8) ds_op(1) show ?thesis by simp
  next
    case (ds_snapshot clk sid uid did revision hash s t)
    then have "sp_id ` set (dd_snapshots (dw_db w)) \<subseteq> sp_id ` set (dd_snapshots t)"
      by (auto simp: create_lora_snapshot_def upsert_snapshot_def add_refs_def res_bind_Inr Let_def key_image_update
          simp del: image_subset_iff split: option.splits if_splits)
    with ds_snapshot(1) assms(4) show ?thesis by auto
  next
    case (ds_claim clk token id_le job t)
    then have "dd_snapshots t = dd_snapshots (dw_db w)"
      by (auto elim!: claimed_caption dest!: caption_updated(1))
    with ds_claim(1) assms(4) show ?thesis by simp
  next
    case (ds_report clk job run stopping accepted t)
    then have "dd_snapshots t = dd_snapshots (dw_db w)"
      by (auto simp: report_caption_run_def finish_lora_caption_def res_bind_Inr caption_update_def split: prod.splits)
    with ds_report(1) assms(4) show ?thesis by simp
  qed
  then obtain q where q: "q \<in> set (dd_snapshots (dw_db v))" "sp_id q = sp_id p" by force
  have i: "data_inv (dw_now w) (dw_db w)" and "sp_id q \<in> set (dw_ids w)"
    using inv assms(4) q(2) by (auto simp: world_inv_def claims_ok_def)
  with conjunct1[OF conjunct2[OF world_step[OF assms(3) inv]]] q(1) obtain r where
    r: "r \<in> set (dd_snapshots (dw_db w))" "same_snapshot r q" "same_images (dw_db w) (dw_db v) (OfSnapshot (sp_id q))"
    unfolding images_kept_def by blast
  have "r = p"
    by (rule unique_keyD[OF tables_snapshot_ids[OF data_inv_tables[OF i]] r(1) assms(4)])
      (use r(2) q(2) in \<open>simp add: same_snapshot_def\<close>)
  with r(2,3) q(2) have same: "same_snapshot p q" "same_images (dw_db w) (dw_db v) (OfSnapshot (sp_id p))" by simp_all
  have "read_asset_chunks (sp_user p) k (dw_db v) = read_asset_chunks (sp_user p) k (dw_db w)"
    if "k \<in> set (refs_of (OfSnapshot (sp_id p)) (dw_db w))" for k
    by (rule same_asset_read) (use same(2) that in \<open>simp add: same_images_def\<close>)
  with same q(1) show ?thesis by (intro bexI[of _ q]) (simp_all add: same_snapshot_def same_images_def)
qed

section \<open>The report of a run\<close>

definition reports :: "string \<Rightarrow> data_world \<Rightarrow> data_world \<Rightarrow> bool" where
  "reports token w v \<longleftrightarrow> world_inv w \<and> (\<exists>clk run stopping job t. job \<in> set (dw_claims w) \<and> cj_token job = token \<and>
     report_caption_run clk run stopping job (dw_db w) = Inr (True, t) \<and>
     v = w\<lparr>dw_db := t, dw_now := tx_now clk\<rparr>)"

definition run_over :: "data_world \<Rightarrow> string \<Rightarrow> bool" where
  "run_over w token \<longleftrightarrow> token \<in> set (dw_ids w) \<and>
     (\<forall>c\<in>set (dd_captions (dw_db w)). caption_running c \<longrightarrow> cj_token c \<noteq> token)"

abbreviation is_run_of :: "caption_row \<Rightarrow> caption_row \<Rightarrow> bool" where
  "is_run_of job c \<equiv> cj_id c = cj_id job \<and> cj_token c = cj_token job \<and> cj_state c = CapRunning"

lemma report_outcome:
  assumes r: "report_caption_run clk run stopping job s = Inr (accepted, t)" and i: "data_inv now s"
  shows "(accepted \<longleftrightarrow> (\<exists>c\<in>set (dd_captions s). is_run_of job c)) \<and> (\<not> accepted \<longrightarrow> t = s) \<and>
    (\<forall>c\<in>set (dd_captions t). \<not> is_run_of job c)"
proof -
  obtain st message result retry_after where v: "caption_verdict run stopping job = (st, message, result, retry_after)"
    by (metis surj_pair)
  then have st: "st \<noteq> CapRunning" by (auto simp: caption_verdict_def split: caption_run.splits if_splits)
  let ?f = "reported_caption clk st message result retry_after"
  obtain rows where u: "caption_update (is_run_of job) ?f s = Inr (rows, t)" and acc: "accepted = (length rows = 1)"
    using r by (auto simp: report_caption_run_def v finish_lora_caption_def res_bind_Inr)
  note t = caption_updated[OF u]
  have "length (filter (is_run_of job) (dd_captions s)) \<le> 1"
  proof -
    have "length (filter (is_run_of job) (dd_captions s)) = sql_count (is_run_of job) (dd_captions s)"
      by (simp add: sql_count_def)
    also have "\<dots> \<le> sql_count (\<lambda>c. cj_state c = CapRunning) (dd_captions s)" by (rule sql_count_mono) simp
    finally show ?thesis using inv_running[OF i] by linarith
  qed
  then have "accepted \<longleftrightarrow> filter (is_run_of job) (dd_captions s) \<noteq> []"
    unfolding acc t(3) by (cases "filter (is_run_of job) (dd_captions s)") auto
  then have A: "accepted \<longleftrightarrow> (\<exists>c\<in>set (dd_captions s). is_run_of job c)" by (auto simp: filter_empty_conv)
  moreover have "t = s" if "\<not> accepted"
    using that A by (simp add: t(1) sql_update_none)
  moreover have "\<not> is_run_of job c" if "c \<in> set (dd_captions t)" for c
    using that st by (auto simp: t(1) reported_caption_def elim!: in_sql_updateE split: if_splits)
  ultimately show ?thesis by blast
qed

interpretation run_report: one_shot "\<lambda>w v. world_inv w \<and> data_step w v" reports run_over
proof
  fix k w v assume r: "reports k w v"
  then obtain clk run stopping job t where inv: "world_inv w" and job: "job \<in> set (dw_claims w)" "cj_token job = k"
    and rep: "report_caption_run clk run stopping job (dw_db w) = Inr (True, t)"
    and v: "v = w\<lparr>dw_db := t, dw_now := tx_now clk\<rparr>" unfolding reports_def by blast
  have i: "data_inv (dw_now w) (dw_db w)" and c: "claims_ok w" using inv by (simp_all add: world_inv_def)
  note out = report_outcome[OF rep i]
  then obtain x where "x \<in> set (dd_captions (dw_db w))" "is_run_of job x" by blast
  with job(2) show "\<not> run_over w k" by (auto simp: run_over_def caption_running_def)
  have "cj_token x \<noteq> k" if x: "x \<in> set (dd_captions t)" "caption_running x" for x
  proof
    assume eq: "cj_token x = k"
    from runs_after_report[OF rep] x obtain b where "b \<in> set (dd_captions (dw_db w))" "caption_running b" "cj_id b = cj_id x"
      "cj_token b = cj_token x" unfolding runs_from_def by blast
    with c job eq have "cj_id x = cj_id job" unfolding claims_ok_def by metis
    with out x eq job(2) show False by (auto simp: caption_running_def)
  qed
  moreover have "k \<in> set (dw_ids w)" using c job by (auto simp: claims_ok_def)
  ultimately show "run_over v k" by (auto simp: run_over_def v)
next
  fix w v k assume s: "world_inv w \<and> data_step w v" and m: "run_over w k"
  then have inv: "world_inv w" and step: "data_step w v" by simp_all
  have k: "k \<in> set (dw_ids v)" using world_step[OF step inv] m by (auto simp: run_over_def)
  from step have "cj_token x \<noteq> k" if "x \<in> set (dd_captions (dw_db v))" "caption_running x" for x
  proof cases
    case (ds_op clk t)
    with data_op_runs[OF ds_op(3)] that m show ?thesis unfolding runs_from_def run_over_def by fastforce
  next
    case (ds_snapshot clk sid uid did revision hash q t)
    have "dd_captions t = dd_captions (dw_db w)"
      using ds_snapshot(4) by (auto simp: create_lora_snapshot_def upsert_snapshot_def add_refs_def res_bind_Inr Let_def
          split: option.splits if_splits)
    with ds_snapshot(1) that m show ?thesis unfolding run_over_def by simp
  next
    case (ds_claim clk token id_le job t)
    have "cj_token x = token" using runs_after_claim[OF ds_claim(5), of x] that ds_claim(1) by auto
    with ds_claim(3) m show ?thesis unfolding run_over_def by auto
  next
    case (ds_report clk job run stopping accepted t)
    with runs_after_report[OF ds_report(4)] that m show ?thesis unfolding runs_from_def run_over_def by fastforce
  qed
  with k show "run_over v k" by (simp add: run_over_def)
qed

text \<open>C10: A caption job runs once per claim.  At most one job runs, in at most three attempts; the
  report of a claim is accepted exactly when the job still runs under that claim, a report that
  comes too late changes nothing, and after an accepted report no later one of the same claim is
  accepted, whatever happens in between.\<close>

theorem caption_report_fenced:
  assumes "data_start w0" and "steps data_step w0 w" and "job \<in> set (dw_claims w)"
    and "report_caption_run clk run stopping job (dw_db w) = Inr (accepted, t)"
    and "v = w\<lparr>dw_db := t, dw_now := tx_now clk\<rparr>" and "dw_now w \<le> tx_now clk"
    and "steps data_step v x" and "report_caption_run clk' run' stopping' job (dw_db x) = Inr (accepted', y)"
  shows "sql_count caption_running (dd_captions (dw_db w)) \<le> 1 \<and>
     (\<forall>c\<in>set (dd_captions (dw_db w)). caption_running c \<longrightarrow> cj_attempts c \<le> 3) \<and>
     (accepted \<longleftrightarrow> (\<exists>c\<in>set (dd_captions (dw_db w)).
        caption_running c \<and> cj_id c = cj_id job \<and> cj_token c = cj_token job)) \<and>
     (\<not> accepted \<longrightarrow> t = dw_db w) \<and> (accepted \<longrightarrow> \<not> accepted' \<and> y = dw_db x)"
proof -
  have inv: "world_inv w" by (rule run_world_inv[OF assms(1,2)])
  then have i: "data_inv (dw_now w) (dw_db w)" and c: "claims_ok w" by (simp_all add: world_inv_def)
  have step: "data_step w v" unfolding assms(5) by (rule ds_report[OF assms(6,3,4)])
  have invv: "world_inv v" using world_step[OF step inv] by simp
  have invx: "world_inv x" by (rule data_run.run_inv[OF assms(7) invv])
  note out = report_outcome[OF assms(4) i]
  have late: "\<not> accepted' \<and> y = dw_db x" if "accepted"
  proof -
    have "report_caption_run clk run stopping job (dw_db w) = Inr (True, t)" using assms(4) that by simp
    with inv assms(3,5) have "reports (cj_token job) w v" unfolding reports_def by blast
    then have "run_over v (cj_token job)" by (rule run_report.fire_marks)
    moreover have "steps (\<lambda>w v. world_inv w \<and> data_step w v) v x"
      using data_run.run_sound[OF assms(7) invv] .
    ultimately have "run_over x (cj_token job)" using run_report.marked_for_good by blast
    then have "\<not> (\<exists>z\<in>set (dd_captions (dw_db x)). is_run_of job z)" by (auto simp: run_over_def caption_running_def)
    moreover have "data_inv (dw_now x) (dw_db x)" using invx by (simp add: world_inv_def)
    ultimately show ?thesis using report_outcome[OF assms(8)] by blast
  qed
  have "caption_running z \<longrightarrow> cj_attempts z \<le> 3" if "z \<in> set (dd_captions (dw_db w))" for z
    using inv_shape[OF i that] by (simp add: caption_shape_def caption_running_def max_caption_attempts_def)
  moreover have "sql_count caption_running (dd_captions (dw_db w)) \<le> 1"
    using inv_running[OF i] by (simp add: caption_running_def[abs_def])
  ultimately show ?thesis using out late unfolding caption_running_def by blast
qed

section \<open>A small run\<close>

definition ex_hash :: string where
  "ex_hash = replicate 64 (CHR ''a'')"

definition ex_image :: lora_asset where
  "ex_image = \<lparr>la_id = ''img'', la_user = 7, la_name = ''a.png'', la_hash = ex_hash, la_mime = ''image/png'',
     la_size = 3, la_width = 512, la_height = 512, la_created = 1000000, la_last_used = 1000000\<rparr>"

definition ex_empty_data :: data_db where
  "ex_empty_data = \<lparr>dd_users = [\<lparr>du_id = 7, du_disabled = False, du_admin = False, du_trains = True, du_expires = None\<rparr>],
     dd_datasets = [], dd_assets = [], dd_chunks = [], dd_snapshots = [], dd_refs = [], dd_captions = [],
     dd_trainings = [], dd_last_revision = 0\<rparr>"

definition ex_with_image :: data_db where
  "ex_with_image = ex_empty_data\<lparr>dd_assets := [ex_image],
     dd_chunks := [\<lparr>ac_asset = ''img'', ac_index = 0, ac_size = 3, ac_payload = ''x''\<rparr>]\<rparr>"

definition ex_set :: "int \<Rightarrow> lora_dataset" where
  "ex_set revision = \<lparr>ld_id = ''set'', ld_user = 7, ld_name = ''Cats'', ld_revision = revision, ld_manifest = ''m'',
     ld_images = 0, ld_bytes = 0, ld_created = 1000000, ld_updated = 1000000, ld_expires = 1000000 + thirty_days\<rparr>"

definition ex_with_set :: data_db where
  "ex_with_set = ex_with_image\<lparr>dd_datasets := [ex_set 1], dd_last_revision := 1\<rparr>"

definition ex_saved :: data_db where
  "ex_saved = ex_with_set\<lparr>dd_datasets := [(ex_set 2)\<lparr>ld_manifest := ''n'', ld_images := 1, ld_bytes := 3\<rparr>],
     dd_refs := [(OfDataset ''set'', ''img'')], dd_last_revision := 2\<rparr>"

definition ex_version :: lora_snapshot where
  "ex_version = \<lparr>sp_id = ''v1'', sp_dataset = Some ''set'', sp_user = 7, sp_name = ''Cats'', sp_revision = 2,
     sp_manifest = ''n'', sp_hash = ex_hash, sp_images = 1, sp_bytes = 3, sp_created = 1000000,
     sp_expires = 1000000 + thirty_days\<rparr>"

definition ex_versioned :: data_db where
  "ex_versioned = ex_saved\<lparr>dd_snapshots := [ex_version],
     dd_refs := [(OfDataset ''set'', ''img''), (OfSnapshot ''v1'', ''img'')]\<rparr>"

definition ex_in_use :: data_db where
  "ex_in_use = ex_versioned\<lparr>dd_trainings := [\<lparr>tu_id = 1, tu_snapshot = Some ''v1'', tu_state = LoraQueued\<rparr>]\<rparr>"

definition ex_set_deleted :: data_db where
  "ex_set_deleted = ex_in_use\<lparr>dd_datasets := [], dd_snapshots := [ex_version\<lparr>sp_dataset := None\<rparr>],
     dd_refs := [(OfSnapshot ''v1'', ''img'')]\<rparr>"

definition ex_world :: "string list \<Rightarrow> data_db \<Rightarrow> data_world" where
  "ex_world ids db = \<lparr>dw_db = db, dw_now = 1000000, dw_ids = ids, dw_claims = []\<rparr>"

lemma ex_data_ok:
  "insert_lora_asset ex_now ex_image [ChunkRead ''x'' 3] ex_empty_data = Inr (ex_image, ex_with_image)"
  "create_lora_dataset ex_now 7 ''set'' ''Cats'' ''m'' ex_with_image = Inr (ex_set 1, ex_with_set)"
  "save_lora_dataset ex_now 7 ''set'' 1 ''Cats'' ''n'' [''img''] ex_with_set = Inr (hd (dd_datasets ex_saved), ex_saved)"
  "create_lora_snapshot ex_now 7 ''set'' 2 ''v1'' ex_hash ex_saved = Inr (ex_version, ex_versioned)"
  "tables_ok ex_in_use"
  "delete_lora_dataset 7 ''set'' 2 ex_in_use = Inr ex_set_deleted"
  by code_simp+

lemma ex_data_start: "data_start (ex_world [] ex_empty_data)"
  by code_simp

lemma ex_op:
  "data_op ex_now s t \<Longrightarrow> data_step (ex_world ids s) (ex_world ids t)"
  using ds_op[of "ex_world ids s" ex_now t] by (simp add: ex_world_def ex_now_def)

lemma ex_run_image: "steps data_step (ex_world [] ex_empty_data) (ex_world [] ex_with_image)"
  by (rule steps_one[of data_step, OF ex_op[OF do_asset[OF ex_data_ok(1)]]])

lemma ex_run_saved: "steps data_step (ex_world [] ex_empty_data) (ex_world [] ex_saved)"
proof -
  have "data_op ex_now ex_with_image ex_with_set"
    by (rule do_create[OF ex_data_ok(2)])
  moreover have "data_op ex_now ex_with_set ex_saved"
    by (rule do_save[OF ex_data_ok(3)])
  ultimately show ?thesis using ex_run_image ex_op steps_snoc[of data_step] by meson
qed

lemma ex_run_version: "steps data_step (ex_world [] ex_saved) (ex_world [''v1''] ex_versioned)"
proof -
  have "create_lora_snapshot ex_now 7 ''set'' 2 ''v1'' ex_hash (dw_db (ex_world [] ex_saved)) = Inr (ex_version, ex_versioned)"
    using ex_data_ok(4) by (simp add: ex_world_def)
  from ds_snapshot[OF _ _ this] have "data_step (ex_world [] ex_saved) (ex_world [''v1''] ex_versioned)"
    by (simp add: ex_world_def ex_now_def)
  then show ?thesis by (rule steps_one[of data_step])
qed

lemma ex_run_in_use: "steps data_step (ex_world [] ex_saved) (ex_world [''v1''] ex_in_use)"
proof -
  have "trainings_move (dd_trainings ex_versioned) (dd_trainings ex_in_use)" by code_simp
  then have "data_op ex_now ex_versioned ex_in_use"
    by (rule do_trainings) (use ex_data_ok(5) in \<open>simp add: ex_in_use_def\<close>)
  from steps_snoc[of data_step, OF ex_run_version ex_op[OF this]] show ?thesis .
qed

lemma ex_step_deleted: "data_step (ex_world [''v1''] ex_in_use) (ex_world [''v1''] ex_set_deleted)"
  by (rule ex_op[OF do_delete[OF ex_data_ok(6)]])

theorem dataset_store_sound_witness:
  "list_all (asset_row_ok) (dd_assets ex_saved) \<and> tables_ok ex_saved \<and> dd_datasets ex_saved \<noteq> []"
proof -
  have "tables_ok (dw_db (ex_world [] ex_saved))"
    using dataset_store_sound[OF ex_data_start ex_run_saved] by blast
  then have "tables_ok ex_saved" by (simp add: ex_world_def)
  moreover have "dd_datasets ex_saved \<noteq> []" by code_simp
  ultimately show ?thesis by (simp add: tables_ok_def)
qed

theorem saved_images_kept_witness:
  "list_all (\<lambda>d. list_all (\<lambda>e. e = d \<and>
       read_asset_chunks 7 ''img'' ex_in_use = read_asset_chunks 7 ''img'' ex_saved)
     (dd_datasets ex_in_use)) (dd_datasets ex_saved) \<and> refs_of (OfDataset ''set'') ex_saved = [''img'']"
proof -
  have "list_all (\<lambda>d. list_all (\<lambda>e. ld_id e = ld_id d \<and> ld_revision e = ld_revision d \<and>
       ''img'' \<in> set (refs_of (OfDataset (ld_id d)) ex_saved)) (dd_datasets ex_in_use)) (dd_datasets ex_saved)"
    by code_simp
  then have "list_all (\<lambda>d. list_all (\<lambda>e. e = d \<and>
       read_asset_chunks 7 ''img'' ex_in_use = read_asset_chunks 7 ''img'' ex_saved)
     (dd_datasets ex_in_use)) (dd_datasets ex_saved)"
    using saved_images_kept[OF ex_data_start ex_run_saved ex_run_in_use]
    by (auto simp: list_all_iff ex_world_def)
  moreover have "refs_of (OfDataset ''set'') ex_saved = [''img'']" by code_simp
  ultimately show ?thesis by blast
qed

theorem version_in_use_kept_witness:
  "dd_datasets ex_set_deleted = [] \<and>
   list_ex (\<lambda>q. sp_id q = ''v1'' \<and> sp_manifest q = ''n'' \<and>
     read_asset_chunks 7 ''img'' ex_set_deleted = Inr [(''x'', 3)]) (dd_snapshots ex_set_deleted)"
proof -
  define p where "p = hd (dd_snapshots ex_in_use)"
  define u where "u = hd (dd_trainings ex_in_use)"
  have p: "p \<in> set (dd_snapshots ex_in_use)" "sp_id p = ''v1''" "sp_user p = 7" "sp_manifest p = ''n''"
    unfolding p_def by code_simp+
  have u: "u \<in> set (dd_trainings ex_in_use)" "tu_snapshot u = Some ''v1''" "\<not> lora_terminal (tu_state u)"
    unfolding u_def by code_simp+
  have o: "has_user ex_set_deleted 7" by code_simp
  have r: "''img'' \<in> set (refs_of (OfSnapshot ''v1'') ex_in_use)"
    "read_asset_chunks 7 ''img'' ex_in_use = Inr [(''x'', 3)]" by code_simp+
  have "steps data_step (ex_world [] ex_empty_data) (ex_world [''v1''] ex_in_use)"
    by (rule steps_trans[OF ex_run_saved ex_run_in_use])
  from version_in_use_kept[OF ex_data_start this ex_step_deleted, of p u] p u o r
  have "\<exists>q\<in>set (dd_snapshots ex_set_deleted). sp_id q = ''v1'' \<and> sp_manifest q = ''n'' \<and>
     read_asset_chunks 7 ''img'' ex_set_deleted = Inr [(''x'', 3)]"
    by (auto simp: ex_world_def)
  moreover have "dd_datasets ex_set_deleted = []" by code_simp
  ultimately show ?thesis by (simp add: list_ex_iff)
qed

text \<open>A caption job is queued, claimed and reported; a second report of the claim comes too late.\<close>

lemma any_text_utf8: "list_all (\<lambda>c. 0 < c \<and> c < 2048) cs \<Longrightarrow> length cs \<le> length (utf8_text cs) \<Longrightarrow> any_text (utf8_text cs)"
  unfolding any_text_def by (rule pg_text_utf8_text)

lemma length_utf8_text: "length cs \<le> length (utf8_text cs)"
  by (induction cs) (simp_all add: utf8_text_def utf8_enc_def)

lemma caption_texts:
  "any_text caption_status_queued" "any_text caption_status_running" "any_text caption_msg_done"
  unfolding caption_status_queued_def caption_status_running_def caption_msg_done_def
  by (rule any_text_utf8[OF _ length_utf8_text]; simp)+

definition ex_request :: caption_request where
  "ex_request = \<lparr>cq_id = ''cap'', cq_image = ''i1'', cq_asset = ''img'', cq_key = ex_hash, cq_instructions = ''v'',
     cq_input = ''x''\<rparr>"

definition ex_job :: caption_row where
  "ex_job = new_caption ex_now 7 [] ex_request"

definition ex_claim :: caption_row where
  "ex_claim = started_caption ex_now ''t1'' ex_job"

definition ex_reported :: caption_row where
  "ex_reported = reported_caption ex_now CapCompleted caption_msg_done ''r'' 0 ex_claim"

definition ex_captioned :: "caption_row \<Rightarrow> data_db" where
  "ex_captioned c = ex_with_image\<lparr>dd_captions := [c], dd_refs := [(OfCaption ''cap'', ''img'')]\<rparr>"

lemma ex_ascii: "any_text ''cap''" "any_text ''i1''" "text_between 64 64 ex_hash" "any_text ''v''" "any_text []"
  "any_text ''t1''" "between_bytes 1 65536 ''x''" "tables_ok ex_with_image"
  by code_simp+

lemma ex_captioned_ok:
  assumes "caption_row_ok c" "cj_id c = ''cap''" "cj_user c = 7" "cj_dataset c = None" "cj_asset c = ''img''"
  shows "tables_ok (ex_captioned c)" "tables_ok (ex_with_image\<lparr>dd_captions := [c]\<rparr>)"
  using assms ex_ascii(8)
  by (simp_all add: tables_ok_def ex_captioned_def ex_with_image_def ex_empty_data_def ex_image_def
      caption_keys_ok_def ref_ok_def null_or_def)

lemma ex_rows_ok: "caption_row_ok ex_job" "caption_row_ok ex_claim" "caption_row_ok ex_reported"
  using ex_ascii caption_texts
  by (simp_all add: caption_row_ok_def ex_job_def ex_claim_def ex_reported_def new_caption_def ex_request_def
      started_caption_def reported_caption_def)

lemma ex_keys:
  "cj_id ex_job = ''cap''" "cj_user ex_job = 7" "cj_dataset ex_job = None" "cj_asset ex_job = ''img''"
  "cj_state ex_job = CapQueued" "\<not> cj_cancel ex_job" "cj_available ex_job = tx_now ex_now" "cj_attempts ex_job = 0"
  "cj_id ex_claim = ''cap''" "cj_user ex_claim = 7" "cj_dataset ex_claim = None" "cj_asset ex_claim = ''img''"
  "cj_state ex_claim = CapRunning" "cj_token ex_claim = ''t1''" "cj_cancel ex_claim = False"
  "cj_id ex_reported = ''cap''" "cj_user ex_reported = 7" "cj_dataset ex_reported = None" "cj_asset ex_reported = ''img''"
  "cj_state ex_reported = CapCompleted"
  by (simp_all add: ex_job_def ex_claim_def ex_reported_def new_caption_def ex_request_def
      started_caption_def reported_caption_def)

lemma ex_captioned_rows [simp]: "dd_captions (ex_captioned c) = [c]"
  "ex_captioned c\<lparr>dd_captions := [d]\<rparr> = ex_captioned d"
  by (simp_all add: ex_captioned_def)

lemma ex_enqueued:
  "enqueue_lora_captions ex_now 7 [] 0 [ex_request] ex_with_image = Inr ([ex_job], ex_captioned ex_job)"
proof -
  have "reusable_caption 7 [] ex_request ex_with_image = None"
    by (simp add: reusable_caption_def ex_with_image_def ex_empty_data_def)
  moreover have "enqueue_one ex_now 7 [] ex_request ex_with_image = Inr (ex_job, ex_captioned ex_job)"
    using ex_captioned_ok[OF ex_rows_ok(1) ex_keys(1-4)] ex_keys(1)
    by (simp add: enqueue_one_def Let_def ex_job_def[symmetric] stmt_def ex_captioned_def)
      (simp add: ex_with_image_def ex_empty_data_def ex_image_def ex_request_def sql_exists_def)
  ultimately show ?thesis
    by (simp add: enqueue_lora_captions_def lock_user_def dataset_revision_check_def pending_captions_def
        saved_captions_def max_caption_pending_def max_caption_jobs_def caption_limit_def)
      (simp add: ex_with_image_def ex_empty_data_def)
qed

lemma ex_claimed:
  "claim_lora_caption (\<lambda>a b. True) ex_now ''t1'' (ex_captioned ex_job) = Inr (Some ex_claim, ex_captioned ex_claim)"
  using ex_captioned_ok(1)[OF ex_rows_ok(1) ex_keys(1-4)] ex_captioned_ok(1)[OF ex_rows_ok(2) ex_keys(9-12)] ex_keys
  by (simp add: claim_lora_caption_def caption_update_def stmt_def caption_ready_def ex_claim_def[symmetric])

lemma ex_report:
  "report_caption_run ex_now (Described ''r'') False ex_claim (ex_captioned ex_claim) = Inr (True, ex_captioned ex_reported)"
  "report_caption_run ex_now (Described ''r'') False ex_claim (ex_captioned ex_reported) = Inr (False, ex_captioned ex_reported)"
  using ex_captioned_ok(1)[OF ex_rows_ok(3) ex_keys(16-19)] ex_keys
  by (simp_all add: report_caption_run_def caption_verdict_def finish_lora_caption_def caption_update_def stmt_def
      ex_reported_def[symmetric])

definition ex_claimed_world :: "data_db \<Rightarrow> data_world" where
  "ex_claimed_world db = (ex_world [''t1''] db)\<lparr>dw_claims := [ex_claim]\<rparr>"

lemma ex_run_claimed: "steps data_step (ex_world [] ex_empty_data) (ex_claimed_world (ex_captioned ex_claim))"
proof -
  have "steps data_step (ex_world [] ex_empty_data) (ex_world [] (ex_captioned ex_job))"
    by (rule steps_snoc[of data_step, OF ex_run_image ex_op[OF do_enqueue[OF ex_enqueued]]])
  moreover have "data_step (ex_world [] (ex_captioned ex_job)) (ex_claimed_world (ex_captioned ex_claim))"
    using ds_claim[of "ex_world [] (ex_captioned ex_job)" ex_now "''t1''" "\<lambda>a b. True" "Some ex_claim"] ex_claimed
    by (simp add: ex_world_def ex_claimed_world_def ex_now_def)
  ultimately show ?thesis by (rule steps_snoc[of data_step])
qed

theorem caption_report_fenced_witness:
  "report_caption_run ex_now (Described ''r'') False ex_claim (ex_captioned ex_claim) = Inr (True, ex_captioned ex_reported) \<and>
   sql_count caption_running (dd_captions (ex_captioned ex_claim)) = 1 \<and>
   report_caption_run ex_now (Described ''r'') False ex_claim (ex_captioned ex_reported) \<noteq> Inr (True, ex_captioned ex_reported)"
proof -
  have late: "\<not> accepted'" if "report_caption_run ex_now (Described ''r'') False ex_claim (ex_captioned ex_reported) = Inr (accepted', y)"
    for accepted' y
    using caption_report_fenced[OF ex_data_start ex_run_claimed _ _ refl _ steps_refl,
        of ex_claim ex_now "Described ''r''" False True "ex_captioned ex_reported" ex_now "Described ''r''" False accepted' y]
      ex_report(1) that by (simp add: ex_claimed_world_def ex_world_def ex_now_def)
  have "sql_count caption_running (dd_captions (ex_captioned ex_claim)) = 1"
    using ex_keys by (simp add: caption_running_def)
  with ex_report(1) late show ?thesis by auto
qed

end
