(* ===== verification/Spec2Isabelle.thy ===== *)
theory Spec2Isabelle
  imports GpuWork JobContracts LoginLimiter AccountRuns LoraPasses JobAdvance ComfySchema LoraDataRuns
begin

text \<open>
  A verification library for the gateway of a private AI service (Go, \<open>internal/\<close>).

  The gateway authenticates users, turns their requests into generation jobs, hands the jobs
  to ComfyUI on one shared GPU, keeps account of quotas, and pauses a crypto miner while the
  GPU is needed.  All state that must survive a restart is in PostgreSQL; a Go method of
  \<open>Store\<close> is one transaction.  The library models the tables as lists of rows and every such
  method as a function from the database to an error or a result with a new database, with
  the guards, the order of the statements, the CHECK constraints and the unique indexes that
  can abort it.  The clocks an operation reads (\<open>now()\<close> of the transaction,
  \<open>clock_timestamp()\<close>, \<open>time.Now\<close>, the day in Moscow) are arguments.

  Parts, in the order of the theories:

  \<^item> \<open>Prelude\<close>, \<open>Contracts\<close>: results, tables, clocks; the contracts that several components
    share as locales (a transition system with an invariant, an evolution of the data, a
    conserved quantity, a marker set at most once, a component that answers like its
    specification, a state graph whose edges climb).  Each locale is interpreted on the
    components below.
  \<^item> \<open>JobState\<close> (\<open>domain/generation_job.go\<close>): the twelve job states and their transition
    table.  The graph climbs, so every walk is finite and final states are final.
  \<^item> \<open>GoText\<close>, \<open>Messages\<close>: UTF-8, runes and \<open>strings.TrimSpace\<close> as the code uses them; the
    texts the store writes.
  \<^item> \<open>Schema\<close>, \<open>JobTable\<close>: the rows, checks and indexes (\<open>database/migrations.go\<close>) and the
    statements on \<open>generation_jobs\<close>; the invariant of a job row and what a row may become.
  \<^item> \<open>JobStore\<close> (\<open>store/generation_job.go\<close>, \<open>generation_request.go\<close>, \<open>notification.go\<close>):
    creation and idempotent claim, preparation, prompt binding, transitions with log and
    notification, cancellation, release of resources, queries.
  \<^item> \<open>Dispatch\<close> (\<open>store/generation_dispatch.go\<close>): the queue of prepared jobs, leases,
    the marker that precedes the call to ComfyUI, and the fence.
  \<^item> \<open>Quota\<close> (\<open>store/generation_quota.go\<close>), \<open>Batch\<close> (\<open>store/generation_batch.go\<close>):
    reservation, commitment and refund; batches of jobs.
  \<^item> \<open>MiningPause\<close> (\<open>store/mining_pause.go\<close>, \<open>gateway/mining_pause.go\<close>): the leases that keep
    the miner stopped.  The agent that starts and stops the miner is another process, so what
    it answers is an argument of the operations.
  \<^item> \<open>StoreRuns\<close>, \<open>QuotaRuns\<close>, \<open>JobContracts\<close>: the store as a transition system and the
    properties that hold in every run of it.
  \<^item> \<open>GpuWork\<close> (\<open>store/gpu_work.go\<close>): admission to the GPU by queue, lease and evidence.
  \<^item> \<open>LoginLimiter\<close> (\<open>security/limiter.go\<close>): the sliding-window limiter, against a
    specification that counts.
  \<^item> \<open>Accounts\<close>, \<open>AccountRuns\<close> (\<open>store/store.go\<close>, \<open>invite.go\<close>, \<open>authentication.go\<close>,
    \<open>startup.go\<close>): accounts, invitations, sessions and the lockout.
  \<^item> \<open>LoraMessages\<close>, \<open>LoraTraining\<close>, \<open>LoraRuns\<close> (\<open>store/lora_training.go\<close>): the queue of LoRA
    trainings, the mark written before one is handed to the agent, and the recovery.
  \<^item> \<open>LoraWorker\<close>, \<open>LoraPasses\<close> (\<open>gateway/lora_training.go\<close>, \<open>lora_training_handoff.go\<close>,
    \<open>loratraining/client.go\<close>): the pass that drives trainings through the agent, as a function of
    what the agent answers, with its effects in order; it refines the queue of the store.
  \<^item> \<open>LoraData\<close>, \<open>LoraCaptions\<close> (\<open>store/lora_dataset.go\<close>, \<open>store/lora_caption.go\<close>,
    \<open>gateway/lora_caption_worker.go\<close>): the datasets of the trainings with their images, versions
    and references, and the jobs that describe the images.  A statement is checked against all
    constraints, a DELETE cascades.  \<open>LoraDataInv\<close>: what every operation keeps; \<open>LoraDataRuns\<close>: runs
    of the store with the workers that hold claimed jobs, and the properties.  Random ids are
    premises of the steps: one that was not handed out before.
  \<^item> \<open>WorkerMessages\<close>, \<open>JobWorker\<close>, \<open>JobDispatch\<close> (\<open>gateway/generation_jobs.go\<close>, the refresh
    loop and the submission of \<open>gateway/generation.go\<close>, the dispatcher of
    \<open>gateway/generation_batches.go\<close>): the worker that drives jobs through the store, ComfyUI and
    the miner, whose answers are the arguments \<open>executor\<close> and \<open>dispatch_world\<close>.  An operation of
    it is several transactions and leaves what it did when it breaks off.  \<open>JobPasses\<close>: every
    pass is a run of the store, a workflow is sent at most once, resources are released in
    order and not in doubt; \<open>JobAdvance\<close>: where the walk through the states ends.
  \<^item> \<open>GoValue\<close>, \<open>WorkflowCheck\<close> (\<open>gateway/workflow_compatibility.go\<close>), \<open>ComfySchema\<close>
    (\<open>gateway/comfy_schema.go\<close>): the check of a workflow graph against the nodes ComfyUI has
    installed, proved equivalent to a declarative specification and independent of the order of
    Go's maps; the parser of the node descriptions and the cache that bridges outages.

  Conventions.  Times are integers, microseconds in the database and nanoseconds for Go
  durations; integers of the code are \<open>int\<close>, with the column checks that bound them; Go's
  \<open>time\<close> arithmetic does not overflow at the durations in use and is modelled without
  wrap-around.  A row is found, inserted and updated in table order; where a query has no
  ORDER BY and can match several rows the model takes the first.  A transaction is one step,
  which is what the row locks, the advisory lock and the serializable isolation of the code
  are for; the retry of a serialization failure is the caller's.  Errors of the connection are
  not modelled: they roll back and leave the state as it was.  No definition needs fuel: every
  loop of the modelled code runs over a list.

  Not modelled: HTTP handlers and templates, the proxies to ComfyUI and Open WebUI, workflow
  manifests, content capture and media storage, the agents that run on other machines, host
  monitoring, and configuration: they are I/O around the parts above, or parts that later
  work will take up (the training agent, migrations as a runner).
\<close>

end
